(* ===== verification/Prelude.thy ===== *)
theory Prelude
  imports Main "HOL-Library.Word" "HOL-Library.Monad_Syntax" "HOL-Library.Signed_Division"
    "HOL-Library.Code_Target_Nat"
begin

text \<open>
  What every component shares: the operating system as a script of answers, the resource
  balance that leak and double-close properties are stated with, C integer conversions and
  the errno values. Nothing here models a file of the repository; the definitions stand for
  the system calls and the C library functions the sources call.

  A system call takes the first answer of the script and appends the pair of request and
  answer to the trace. A program is a function \<open>world \<Rightarrow> (result \<times> world) option\<close>; \<open>None\<close>
  says that the script ended while the program was still waiting for an answer, so a theorem
  over all scripts is a theorem over all behaviours of the kernel, and a loop that retries for
  ever is visible as a program that uses up every script.
\<close>

unbundle bit_operations_syntax

named_theorems sys_simps \<comment> \<open>unfolding of the single system calls\<close>
named_theorems bal_simps \<comment> \<open>effect of a returned system call on the resource balance\<close>

section \<open>C integers and errno\<close>

type_synonym u8 = "8 word"
type_synonym u16 = "16 word"
type_synonym u32 = "32 word"
type_synonym u64 = "64 word"

text \<open>Conversions to the C types \<open>int\<close> (two's complement), \<open>unsigned int\<close>, \<open>unsigned long\<close>.\<close>

definition to_i32 :: "int \<Rightarrow> int" where
  "to_i32 x = (x + 2 ^ 31) mod 2 ^ 32 - 2 ^ 31"

definition to_u32 :: "int \<Rightarrow> int" where
  "to_u32 x = x mod 2 ^ 32"

definition to_u64 :: "int \<Rightarrow> int" where
  "to_u64 x = x mod 2 ^ 64"

lemma to_i32_id: "- (2 ^ 31) \<le> x \<Longrightarrow> x < 2 ^ 31 \<Longrightarrow> to_i32 x = x"
  by (simp add: to_i32_def)

lemma to_i32_range: "- (2 ^ 31) \<le> to_i32 x \<and> to_i32 x < 2 ^ 31"
proof -
  have "0 \<le> (x + 2 ^ 31) mod 2 ^ 32" and "(x + 2 ^ 31) mod 2 ^ 32 < 2 ^ 32"
    by simp_all
  then show ?thesis by (simp add: to_i32_def)
qed

lemma to_u32_id: "0 \<le> x \<Longrightarrow> x < 2 ^ 32 \<Longrightarrow> to_u32 x = x"
  by (simp add: to_u32_def)

lemma to_u32_nonneg [simp]: "0 \<le> to_u32 x"
  by (simp add: to_u32_def)

abbreviation ENOENT :: int where "ENOENT \<equiv> 2"
abbreviation EINTR :: int where "EINTR \<equiv> 4"
abbreviation EIO :: int where "EIO \<equiv> 5"
abbreviation ENXIO :: int where "ENXIO \<equiv> 6"
abbreviation EBADF :: int where "EBADF \<equiv> 9"
abbreviation EAGAIN :: int where "EAGAIN \<equiv> 11"
abbreviation EWOULDBLOCK :: int where "EWOULDBLOCK \<equiv> 11"
abbreviation ENOMEM :: int where "ENOMEM \<equiv> 12"
abbreviation EFAULT :: int where "EFAULT \<equiv> 14"
abbreviation EEXIST :: int where "EEXIST \<equiv> 17"
abbreviation ENODEV :: int where "ENODEV \<equiv> 19"
abbreviation EINVAL :: int where "EINVAL \<equiv> 22"
abbreviation ENOSPC :: int where "ENOSPC \<equiv> 28"
abbreviation EPIPE :: int where "EPIPE \<equiv> 32"
abbreviation ETIME :: int where "ETIME \<equiv> 62"
abbreviation ECOMM :: int where "ECOMM \<equiv> 70"
abbreviation ERESTART :: int where "ERESTART \<equiv> 85"
abbreviation ECONNRESET :: int where "ECONNRESET \<equiv> 104"
abbreviation ENOTCONN :: int where "ENOTCONN \<equiv> 107"

section \<open>System calls as a script of answers\<close>

text \<open>
  The requests the sources make. Pointers, file descriptors, \<open>FILE*\<close> and \<open>DIR*\<close> handles are
  the non-negative results of the call that creates them; a failure (-1, or NULL for a call
  that returns a pointer) is the result -1.
\<close>

datatype (plugins only: code size) sysreq =
    Q_open string int
  | Q_close int
  | Q_read int nat
  | Q_write int string
  | Q_socket int
  | Q_connect int string
  | Q_send int string
  | Q_recv int nat
  | Q_sendto int string string
  | Q_fcntl int int int
  | Q_ioctl int int string
  | Q_access string
  | Q_usleep nat
  | Q_sleep nat
  | Q_gettime
  | Q_malloc nat
  | Q_free int
  | Q_popen string
  | Q_pclose int
  | Q_fopen string string
  | Q_fgets int nat
  | Q_fclose int
  | Q_opendir string
  | Q_readdir int
  | Q_closedir int
  | Q_fstat int
  | Q_mkdir string
  | Q_remove string
  | Q_sysconf int
  | Q_getenv string
  | Q_thread_create string
  | Q_thread_join int
  | Q_thread_cancel int
  | Q_trylock string
  | Q_unlock string
  | Q_signal int int
  | Q_library string "string list"

text \<open>An answer: the return value, the errno of a failing call, the bytes it delivers.\<close>

record answer =
  a_ret :: int
  a_errno :: int
  a_data :: string

type_synonym event = "sysreq \<times> answer"

record world =
  script :: "answer list"
  trace :: "event list"
  errno :: int

text \<open>
  POSIX bounds on an answer: no call returns less than -1, a transfer call never reports more
  bytes than it was asked for, and a read delivers as many bytes as it reports.
\<close>

definition posix :: "sysreq \<Rightarrow> answer \<Rightarrow> answer" where
  "posix q a = (case q of
      Q_write fd b \<Rightarrow> a\<lparr>a_ret := min (max (- 1) (a_ret a)) (int (length b))\<rparr>
    | Q_send fd b \<Rightarrow> a\<lparr>a_ret := min (max (- 1) (a_ret a)) (int (length b))\<rparr>
    | Q_sendto fd b p \<Rightarrow> a\<lparr>a_ret := min (max (- 1) (a_ret a)) (int (length b))\<rparr>
    | Q_read fd n \<Rightarrow>
        (if a_ret a < 0 then a\<lparr>a_ret := - 1, a_data := []\<rparr>
         else a\<lparr>a_ret := int (length (take n (a_data a))), a_data := take n (a_data a)\<rparr>)
    | Q_recv fd n \<Rightarrow>
        (if a_ret a < 0 then a\<lparr>a_ret := - 1, a_data := []\<rparr>
         else a\<lparr>a_ret := int (length (take n (a_data a))), a_data := take n (a_data a)\<rparr>)
    | _ \<Rightarrow> a\<lparr>a_ret := max (- 1) (a_ret a)\<rparr>)"

definition sys :: "sysreq \<Rightarrow> world \<Rightarrow> (answer \<times> world) option" where
  "sys q w = (case script w of
      [] \<Rightarrow> None
    | a # as \<Rightarrow>
        (let b = posix q a in
         Some (b, w\<lparr>script := as, trace := trace w @ [(q, b)],
                    errno := (if a_ret b < 0 then a_errno a else errno w)\<rparr>)))"

text \<open>A call of which only the return value matters.\<close>

definition call :: "sysreq \<Rightarrow> world \<Rightarrow> (int \<times> world) option" where
  "call q w = do { (a, w) \<leftarrow> sys q w; Some (a_ret a, w) }"

text \<open>A call that delivers bytes.\<close>

definition fetch :: "sysreq \<Rightarrow> world \<Rightarrow> (int \<times> string \<times> world) option" where
  "fetch q w = do { (a, w) \<leftarrow> sys q w; Some (a_ret a, a_data a, w) }"

lemma posix_ret_ge: "- 1 \<le> a_ret (posix q a)"
  by (cases q) (auto simp: posix_def)

lemma posix_write_le: "a_ret (posix (Q_write fd b) a) \<le> int (length b)"
  and posix_send_le: "a_ret (posix (Q_send fd b) a) \<le> int (length b)"
  by (simp_all add: posix_def)

lemma sys_Some:
  "sys q w = Some (a, w') \<longleftrightarrow>
    (\<exists>b bs. script w = b # bs \<and> a = posix q b \<and>
       w' = w\<lparr>script := bs, trace := trace w @ [(q, a)],
              errno := (if a_ret a < 0 then a_errno b else errno w)\<rparr>)"
  by (auto simp: sys_def Let_def split: list.splits)

lemma sys_script: "sys q w = Some (a, w') \<Longrightarrow> length (script w) = Suc (length (script w'))"
  by (auto simp: sys_Some)

lemma sys_trace: "sys q w = Some (a, w') \<Longrightarrow> trace w' = trace w @ [(q, a)]"
  by (auto simp: sys_Some)

lemma call_Some:
  "call q w = Some (r, w') \<longleftrightarrow> (\<exists>a. sys q w = Some (a, w') \<and> r = a_ret a)"
  by (auto simp: call_def bind_eq_Some_conv)

lemma fetch_Some:
  "fetch q w = Some (r, d, w') \<longleftrightarrow> (\<exists>a. sys q w = Some (a, w') \<and> r = a_ret a \<and> d = a_data a)"
  by (auto simp: fetch_def bind_eq_Some_conv)

lemma call_script: "call q w = Some (r, w') \<Longrightarrow> length (script w) = Suc (length (script w'))"
  by (auto simp: call_Some dest: sys_script)

lemma fetch_script:
  "fetch q w = Some (r, d, w') \<Longrightarrow> length (script w) = Suc (length (script w'))"
  by (auto simp: fetch_Some dest: sys_script)

lemma call_ge: "call q w = Some (r, w') \<Longrightarrow> - 1 \<le> r"
  by (auto simp: call_Some sys_Some posix_ret_ge)

lemma fetch_ge: "fetch q w = Some (r, d, w') \<Longrightarrow> - 1 \<le> r"
  by (auto simp: fetch_Some sys_Some posix_ret_ge)

lemma sys_None: "sys q w = None \<longleftrightarrow> script w = []"
  by (auto simp: sys_def Let_def split: list.splits)

section \<open>Resource balance\<close>

text \<open>
  What a trace has acquired and not yet given back. A balance of 0 for a resource says that it
  was released as often as it was acquired; a negative balance is a release of something that
  was not held (a double close).
\<close>

datatype resource = Fd int | File int | Dirp int | Mem int

definition req_delta :: "sysreq \<Rightarrow> int \<Rightarrow> resource \<Rightarrow> int" where
  "req_delta q r x = (case q of
      Q_open p f \<Rightarrow> of_bool (0 \<le> r \<and> x = Fd r)
    | Q_socket t \<Rightarrow> of_bool (0 \<le> r \<and> x = Fd r)
    | Q_close fd \<Rightarrow> - of_bool (x = Fd fd)
    | Q_fopen p m \<Rightarrow> of_bool (0 \<le> r \<and> x = File r)
    | Q_popen p \<Rightarrow> of_bool (0 \<le> r \<and> x = File r)
    | Q_fclose h \<Rightarrow> - of_bool (x = File h)
    | Q_pclose h \<Rightarrow> - of_bool (x = File h)
    | Q_opendir p \<Rightarrow> of_bool (0 \<le> r \<and> x = Dirp r)
    | Q_closedir h \<Rightarrow> - of_bool (x = Dirp h)
    | Q_malloc n \<Rightarrow> of_bool (0 \<le> r \<and> x = Mem r)
    | Q_free h \<Rightarrow> - of_bool (x = Mem h)
    | _ \<Rightarrow> 0)"

definition res_delta :: "event \<Rightarrow> resource \<Rightarrow> int" where
  "res_delta e = req_delta (fst e) (a_ret (snd e))"

definition tr_balance :: "event list \<Rightarrow> resource \<Rightarrow> int" where
  "tr_balance tr x = (\<Sum>e\<leftarrow>tr. res_delta e x)"

definition balance :: "world \<Rightarrow> resource \<Rightarrow> int" where
  "balance w x = tr_balance (trace w) x"

lemma tr_balance_simps [simp]:
  "tr_balance [] x = 0"
  "tr_balance (xs @ ys) x = tr_balance xs x + tr_balance ys x"
  "tr_balance (e # xs) x = res_delta e x + tr_balance xs x"
  by (simp_all add: tr_balance_def)

lemma sys_balance:
  "sys q w = Some (a, w') \<Longrightarrow> balance w' = (\<lambda>x. balance w x + req_delta q (a_ret a) x)"
  by (auto simp: sys_Some balance_def res_delta_def)

lemma call_balance [bal_simps]:
  "call q w = Some (r, w') \<Longrightarrow> balance w' = (\<lambda>x. balance w x + req_delta q r x)"
  by (auto simp: call_Some sys_balance)

lemma fetch_balance [bal_simps]:
  "fetch q w = Some (r, d, w') \<Longrightarrow> balance w' = (\<lambda>x. balance w x + req_delta q r x)"
  by (auto simp: fetch_Some sys_balance)

text \<open>The requests that neither acquire nor release anything.\<close>

lemma req_delta_neutral [simp]:
  "req_delta (Q_read f n) r = (\<lambda>_. 0)" "req_delta (Q_write f b) r = (\<lambda>_. 0)"
  "req_delta (Q_connect f p) r = (\<lambda>_. 0)" "req_delta (Q_send f b) r = (\<lambda>_. 0)"
  "req_delta (Q_recv f n) r = (\<lambda>_. 0)" "req_delta (Q_sendto f b p) r = (\<lambda>_. 0)"
  "req_delta (Q_fcntl f c v) r = (\<lambda>_. 0)" "req_delta (Q_ioctl f c b) r = (\<lambda>_. 0)"
  "req_delta (Q_access p) r = (\<lambda>_. 0)" "req_delta (Q_usleep n) r = (\<lambda>_. 0)"
  "req_delta (Q_sleep n) r = (\<lambda>_. 0)" "req_delta Q_gettime r = (\<lambda>_. 0)"
  "req_delta (Q_fgets f n) r = (\<lambda>_. 0)" "req_delta (Q_readdir f) r = (\<lambda>_. 0)"
  "req_delta (Q_fstat f) r = (\<lambda>_. 0)" "req_delta (Q_mkdir p) r = (\<lambda>_. 0)"
  "req_delta (Q_remove p) r = (\<lambda>_. 0)" "req_delta (Q_sysconf i) r = (\<lambda>_. 0)"
  "req_delta (Q_getenv p) r = (\<lambda>_. 0)" "req_delta (Q_thread_create p) r = (\<lambda>_. 0)"
  "req_delta (Q_thread_join t) r = (\<lambda>_. 0)" "req_delta (Q_thread_cancel t) r = (\<lambda>_. 0)"
  "req_delta (Q_trylock p) r = (\<lambda>_. 0)" "req_delta (Q_unlock p) r = (\<lambda>_. 0)"
  "req_delta (Q_signal f c) r = (\<lambda>_. 0)" "req_delta (Q_library p l) r = (\<lambda>_. 0)"
  by (simp_all add: req_delta_def fun_eq_iff)

text \<open>A handle that is released again, and a failed acquisition.\<close>

lemma req_delta_pairs [simp]:
  "0 \<le> r \<Longrightarrow> req_delta (Q_open p f) r x + req_delta (Q_close r) s x = 0"
  "0 \<le> r \<Longrightarrow> req_delta (Q_socket t) r x + req_delta (Q_close r) s x = 0"
  "0 \<le> r \<Longrightarrow> req_delta (Q_fopen p m) r x + req_delta (Q_fclose r) s x = 0"
  "0 \<le> r \<Longrightarrow> req_delta (Q_popen p) r x + req_delta (Q_pclose r) s x = 0"
  "0 \<le> r \<Longrightarrow> req_delta (Q_opendir p) r x + req_delta (Q_closedir r) s x = 0"
  "0 \<le> r \<Longrightarrow> req_delta (Q_malloc n) r x + req_delta (Q_free r) s x = 0"
  by (simp_all add: req_delta_def)

lemma req_delta_failed [simp]:
  "r < 0 \<Longrightarrow> req_delta (Q_open p f) r = (\<lambda>_. 0)" "r < 0 \<Longrightarrow> req_delta (Q_socket t) r = (\<lambda>_. 0)"
  "r < 0 \<Longrightarrow> req_delta (Q_fopen p m) r = (\<lambda>_. 0)" "r < 0 \<Longrightarrow> req_delta (Q_popen p) r = (\<lambda>_. 0)"
  "r < 0 \<Longrightarrow> req_delta (Q_opendir p) r = (\<lambda>_. 0)" "r < 0 \<Longrightarrow> req_delta (Q_malloc n) r = (\<lambda>_. 0)"
  by (simp_all add: req_delta_def fun_eq_iff)

lemma balance_errno [simp]: "balance (w\<lparr>errno := e\<rparr>) = balance w"
  by (simp add: balance_def fun_eq_iff)

section \<open>What holds when a program returns\<close>

text \<open>
  \<open>returns m P\<close>: if \<open>m\<close> returns, the result satisfies \<open>P\<close>. The rules of the collection
  \<open>ret_intros\<close> follow the structure of a program, so \<open>intro ret_intros\<close> turns a property of a
  whole function into one goal per path; a component adds the contracts of its operations.
\<close>

named_theorems ret_intros

definition returns :: "'a option \<Rightarrow> ('a \<Rightarrow> bool) \<Rightarrow> bool" where
  "returns m P \<longleftrightarrow> (\<forall>x. m = Some x \<longrightarrow> P x)"

lemma returnsD: "returns m P \<Longrightarrow> m = Some x \<Longrightarrow> P x"
  by (simp add: returns_def)

lemma returnsI: "(\<And>x. m = Some x \<Longrightarrow> P x) \<Longrightarrow> returns m P"
  by (simp add: returns_def)

lemma returns_mono: "returns m Q \<Longrightarrow> (\<And>x. Q x \<Longrightarrow> P x) \<Longrightarrow> returns m P"
  by (simp add: returns_def)

lemma returns_Some [ret_intros]: "P x \<Longrightarrow> returns (Some x) P"
  by (simp add: returns_def)

lemma returns_None [ret_intros]: "returns None P"
  by (simp add: returns_def)

lemma returns_bind [ret_intros]:
  "returns m (\<lambda>x. returns (f x) P) \<Longrightarrow> returns (m \<bind> f) P"
  by (auto simp: returns_def bind_eq_Some_conv)

lemma returns_if [ret_intros]:
  "(b \<Longrightarrow> returns m P) \<Longrightarrow> (\<not> b \<Longrightarrow> returns n P) \<Longrightarrow> returns (if b then m else n) P"
  by simp

lemma returns_Let [ret_intros]: "returns (f e) P \<Longrightarrow> returns (Let e f) P"
  by simp

lemma returns_prod [ret_intros]:
  "(\<And>a b. x = (a, b) \<Longrightarrow> returns (f a b) P) \<Longrightarrow> returns (case_prod f x) P"
  by (cases x) simp

lemma returns_option [ret_intros]:
  "(x = None \<Longrightarrow> returns m P) \<Longrightarrow> (\<And>a. x = Some a \<Longrightarrow> returns (f a) P) \<Longrightarrow>
   returns (case_option m f x) P"
  by (cases x) simp_all

lemma returns_list [ret_intros]:
  "(x = [] \<Longrightarrow> returns m P) \<Longrightarrow> (\<And>a as. x = a # as \<Longrightarrow> returns (f a as) P) \<Longrightarrow>
   returns (case_list m f x) P"
  by (cases x) simp_all

lemma returns_sum [ret_intros]:
  "(\<And>y. x = Inl y \<Longrightarrow> returns (f y) P) \<Longrightarrow> (\<And>z. x = Inr z \<Longrightarrow> returns (g z) P) \<Longrightarrow> returns (case_sum f g x) P"
  by (cases x) auto

lemmas returns_flow = returns_Some returns_None returns_bind returns_if returns_Let returns_prod
  returns_option returns_list

text \<open>The contract of a system call: a balanced trace, and less script.\<close>

lemma returns_call [ret_intros]:
  "(\<And>r v. call q w = Some (r, v) \<Longrightarrow> - 1 \<le> r \<Longrightarrow> (\<forall>x. balance v x = balance w x + req_delta q r x) \<Longrightarrow>
     length (script v) < length (script w) \<Longrightarrow> P (r, v)) \<Longrightarrow> returns (call q w) P"
  by (rule returnsI) (use call_balance call_ge call_script in fastforce)

lemma returns_fetch [ret_intros]:
  "(\<And>r d v. fetch q w = Some (r, d, v) \<Longrightarrow> - 1 \<le> r \<Longrightarrow>
     (\<forall>x. balance v x = balance w x + req_delta q r x) \<Longrightarrow>
     length (script v) < length (script w) \<Longrightarrow> P (r, d, v)) \<Longrightarrow>
   returns (fetch q w) P"
  by (rule returnsI) (use fetch_balance fetch_ge fetch_script in fastforce)

section \<open>Concrete scripts\<close>

text \<open>An answer without and with data, a failing one, and the world at the start of a script.\<close>

definition ans :: "int \<Rightarrow> string \<Rightarrow> answer" where
  "ans r d = \<lparr>a_ret = r, a_errno = 0, a_data = d\<rparr>"

definition fails :: "int \<Rightarrow> answer" where
  "fails e = \<lparr>a_ret = - 1, a_errno = e, a_data = []\<rparr>"

definition boot :: "answer list \<Rightarrow> world" where
  "boot s = \<lparr>script = s, trace = [], errno = 0\<rparr>"

lemma balance_boot [simp]: "balance (boot s) = (\<lambda>_. 0)"
  by (simp add: balance_def boot_def fun_eq_iff)

lemma trace_boot [simp]: "trace (boot s) = []" "script (boot s) = s"
  by (simp_all add: boot_def)

lemma map_fst_SomeD: "map_option fst m = Some r \<Longrightarrow> \<exists>v. m = Some (r, v)"
  by auto

end
