(* ===== verification/CText.thy ===== *)
theory CText
  imports Prelude
begin

text \<open>
  C strings and the parts of the C library that read and print them: character classes, the
  conversions \<open>strtol\<close>, \<open>strtoull\<close> and \<open>atoi\<close>, decimal and hexadecimal
  printing (\<open>%d\<close>, \<open>%u\<close>, \<open>%0Nd\<close>, \<open>%02x\<close>), \<open>snprintf\<close> truncation, \<open>strtok_r\<close>, \<open>strstr\<close>. A C
  string is a list of characters without the terminating NUL; a buffer is a list of characters
  that may hold NULs, and \<open>cstr\<close> is the string it starts with. The lemmas are the round trips
  of printing and reading that the message formats of the components rest on.
\<close>

named_theorems ctext_simps

section \<open>Characters\<close>

definition char_val :: "char \<Rightarrow> nat" where
  "char_val c = of_char c"

definition is_digit :: "char \<Rightarrow> bool" where
  "is_digit c \<longleftrightarrow> 48 \<le> char_val c \<and> char_val c \<le> 57"

definition is_space :: "char \<Rightarrow> bool" where
  "is_space c \<longleftrightarrow> char_val c = 32 \<or> (9 \<le> char_val c \<and> char_val c \<le> 13)"

definition is_alpha :: "char \<Rightarrow> bool" where
  "is_alpha c \<longleftrightarrow> (65 \<le> char_val c \<and> char_val c \<le> 90) \<or> (97 \<le> char_val c \<and> char_val c \<le> 122)"

definition digit_val :: "char \<Rightarrow> nat" where
  "digit_val c = char_val c - 48"

definition digit_char :: "nat \<Rightarrow> char" where
  "digit_char d = (if d < 10 then char_of (d + 48) else char_of (d + 87))"

definition to_lower :: "char \<Rightarrow> char" where
  "to_lower c = (if 65 \<le> char_val c \<and> char_val c \<le> 90 then char_of (char_val c + 32) else c)"

definition cstr :: "string \<Rightarrow> string" where
  "cstr b = takeWhile (\<lambda>c. c \<noteq> CHR 0x00) b"

lemma char_val_char_of: "n < 256 \<Longrightarrow> char_val (char_of n) = n"
  by (simp add: char_val_def)

lemma char_val_char_of_mod [simp]: "char_val (char_of (n :: nat)) = n mod 256"
  by (simp add: char_val_def)

lemma char_val_bound: "char_val c < 256"
  using nat_of_char_less_256 by (simp add: char_val_def)

lemma digit_char_digit: "d < 10 \<Longrightarrow> is_digit (digit_char d)"
  by (simp add: is_digit_def digit_char_def char_val_char_of)

lemma digit_val_char: "d < 10 \<Longrightarrow> digit_val (digit_char d) = d"
  by (simp add: digit_val_def digit_char_def char_val_char_of)

lemma digit_not_space: "is_digit c \<Longrightarrow> \<not> is_space c"
  by (auto simp: is_digit_def is_space_def)

lemma char_val_simps [simp]:
  "char_val CHR ''-'' = 45" "char_val CHR ''+'' = 43" "char_val CHR '','' = 44"
  "char_val CHR ''_'' = 95" "char_val CHR ''{'' = 123" "char_val CHR ''}'' = 125"
  "char_val CHR '' '' = 32" "char_val CHR 0x00 = 0"
  by (simp_all add: char_val_def)

lemma digit_neq:
  "is_digit c \<Longrightarrow> c \<noteq> CHR ''-''" "is_digit c \<Longrightarrow> c \<noteq> CHR ''+''" "is_digit c \<Longrightarrow> c \<noteq> CHR '',''"
  "is_digit c \<Longrightarrow> c \<noteq> CHR ''_''" "is_digit c \<Longrightarrow> c \<noteq> CHR 0x00" "is_digit c \<Longrightarrow> c \<noteq> CHR '' ''"
  by (auto simp: is_digit_def)

section \<open>Printing\<close>

fun dec_nat :: "nat \<Rightarrow> string" where
  "dec_nat n = (if n < 10 then [digit_char n] else dec_nat (n div 10) @ [digit_char (n mod 10)])"

declare dec_nat.simps [simp del]

definition dec_int :: "int \<Rightarrow> string" where
  "dec_int i = (if i < 0 then CHR ''-'' # dec_nat (nat (- i)) else dec_nat (nat i))"

text \<open>Zero padding to a width, as in \<open>%03d\<close> (the sources pad non-negative numbers only).\<close>

definition pad0 :: "nat \<Rightarrow> string \<Rightarrow> string" where
  "pad0 k s = replicate (k - length s) (CHR ''0'') @ s"

fun hex_nat :: "nat \<Rightarrow> string" where
  "hex_nat n = (if n < 16 then [digit_char n] else hex_nat (n div 16) @ [digit_char (n mod 16)])"

declare hex_nat.simps [simp del]

definition hexw :: "nat \<Rightarrow> nat \<Rightarrow> string" where
  "hexw k n = pad0 k (hex_nat n)"

text \<open>\<open>snprintf (buf, n, ...)\<close> of a text: what the buffer holds, and the value returned.\<close>

definition snprintf :: "nat \<Rightarrow> string \<Rightarrow> string \<times> int" where
  "snprintf n s = (take (n - 1) s, int (length s))"

lemma dec_nat_digits: "\<forall>c \<in> set (dec_nat n). is_digit c"
proof (induction n rule: dec_nat.induct)
  case (1 n)
  then show ?case by (subst dec_nat.simps) (auto simp: digit_char_digit)
qed

lemma dec_nat_ne [simp]: "dec_nat n \<noteq> []"
  by (subst dec_nat.simps) simp

lemma length_dec_nat: "n < 10 ^ k \<Longrightarrow> 0 < k \<Longrightarrow> length (dec_nat n) \<le> k"
proof (induction k arbitrary: n)
  case 0
  then show ?case by simp
next
  case (Suc k)
  show ?case
  proof (cases "n < 10")
    case True
    then show ?thesis by (subst dec_nat.simps) simp
  next
    case False
    with Suc.prems have "0 < k" by (cases k) auto
    moreover from Suc.prems have "n div 10 < 10 ^ k" by (simp add: div_less_iff_less_mult)
    ultimately have "length (dec_nat (n div 10)) \<le> k" by (intro Suc.IH)
    with False show ?thesis by (subst dec_nat.simps) simp
  qed
qed

lemma length_dec_nat_pos: "1 \<le> length (dec_nat n)"
  by (cases "dec_nat n") auto

lemma length_dec_int: "\<bar>i\<bar> < 10 ^ k \<Longrightarrow> 0 < k \<Longrightarrow> length (dec_int i) \<le> Suc k"
proof -
  assume "\<bar>i\<bar> < 10 ^ k" and "0 < k"
  moreover from \<open>\<bar>i\<bar> < 10 ^ k\<close> have "nat \<bar>i\<bar> < 10 ^ k"
    by (metis abs_ge_zero nat_less_iff of_nat_numeral of_nat_power)
  ultimately have "length (dec_nat (nat \<bar>i\<bar>)) \<le> k" by (intro length_dec_nat)
  then show ?thesis by (auto simp: dec_int_def)
qed

lemma pad0_length: "length s \<le> k \<Longrightarrow> length (pad0 k s) = k"
  by (simp add: pad0_def)

section \<open>Reading\<close>

definition nat_of_digits :: "string \<Rightarrow> nat" where
  "nat_of_digits s = foldl (\<lambda>n c. 10 * n + digit_val c) 0 s"

text \<open>
  The sign and digits a base-10 conversion sees: whether a minus sign was read, the digits,
  and the rest of the text. The result is \<open>None\<close> when there is no digit.
\<close>

definition scan_number :: "string \<Rightarrow> (bool \<times> string \<times> string) option" where
  "scan_number s =
     (let t = dropWhile is_space s;
          neg = (case t of c # _ \<Rightarrow> c = CHR ''-'' | [] \<Rightarrow> False);
          u = (case t of c # r \<Rightarrow> if c = CHR ''-'' \<or> c = CHR ''+'' then r else t | [] \<Rightarrow> []);
          ds = takeWhile is_digit u
      in if ds = [] then None else Some (neg, ds, dropWhile is_digit u))"

text \<open>\<open>strtol (s, &end, 10)\<close>: the value, the text at \<open>end\<close>, and whether errno is ERANGE.\<close>

definition strtol :: "string \<Rightarrow> int \<times> string \<times> bool" where
  "strtol s = (case scan_number s of
      None \<Rightarrow> (0, s, False)
    | Some (neg, ds, rest) \<Rightarrow>
        (let v = (if neg then - int (nat_of_digits ds) else int (nat_of_digits ds)) in
         if v < - (2 ^ 63) then (- (2 ^ 63), rest, True)
         else if 2 ^ 63 \<le> v then (2 ^ 63 - 1, rest, True)
         else (v, rest, False)))"

text \<open>
  \<open>strtoull (s, &end, 10)\<close>: a minus sign is accepted and negates in 64-bit arithmetic.
\<close>

definition strtoull :: "string \<Rightarrow> int \<times> string \<times> bool" where
  "strtoull s = (case scan_number s of
      None \<Rightarrow> (0, s, False)
    | Some (neg, ds, rest) \<Rightarrow>
        (let v = int (nat_of_digits ds) in
         if 2 ^ 64 \<le> v then (2 ^ 64 - 1, rest, True)
         else if neg then (to_u64 (- v), rest, False)
         else (v, rest, False)))"

definition atoi :: "string \<Rightarrow> int" where
  "atoi s = to_i32 (fst (strtol s))"

text \<open>Hexadecimal digits of both cases.\<close>

definition hex_digit_val :: "char \<Rightarrow> nat option" where
  "hex_digit_val c =
     (if is_digit c then Some (digit_val c)
      else let v = char_val (to_lower c) in if 97 \<le> v \<and> v \<le> 102 then Some (v - 87) else None)"

definition nat_of_hex :: "string \<Rightarrow> nat" where
  "nat_of_hex s = foldl (\<lambda>n c. 16 * n + the (hex_digit_val c)) 0 s"

lemma nat_of_digits_snoc: "nat_of_digits (s @ [c]) = 10 * nat_of_digits s + digit_val c"
  by (simp add: nat_of_digits_def)

lemma nat_of_digits_dec [simp]: "nat_of_digits (dec_nat n) = n"
proof (induction n rule: dec_nat.induct)
  case (1 n)
  show ?case
  proof (cases "n < 10")
    case True
    then show ?thesis by (subst dec_nat.simps) (simp add: nat_of_digits_def digit_val_char)
  next
    case False
    with 1 show ?thesis by (subst dec_nat.simps) (simp add: nat_of_digits_snoc digit_val_char)
  qed
qed

lemma nat_of_digits_zeros: "nat_of_digits (replicate k (CHR ''0'') @ s) = nat_of_digits s"
proof -
  have "foldl (\<lambda>n c. 10 * n + digit_val c) 0 (replicate k (CHR ''0'')) = 0"
    by (induction k) (simp_all add: digit_val_def char_val_def)
  then show ?thesis by (simp add: nat_of_digits_def)
qed

lemma nat_of_digits_pad0 [simp]: "nat_of_digits (pad0 k s) = nat_of_digits s"
  by (simp add: pad0_def nat_of_digits_zeros)

lemma pad0_digits: "\<forall>c \<in> set s. is_digit c \<Longrightarrow> \<forall>c \<in> set (pad0 k s). is_digit c"
  by (auto simp: pad0_def is_digit_def char_val_def)

text \<open>Text that cannot continue a number.\<close>

definition no_digit_hd :: "string \<Rightarrow> bool" where
  "no_digit_hd s \<longleftrightarrow> (case s of [] \<Rightarrow> True | c # _ \<Rightarrow> \<not> is_digit c)"

lemma span_digits:
  assumes "\<forall>c \<in> set ds. is_digit c" and "no_digit_hd rest"
  shows "takeWhile is_digit (ds @ rest) = ds" and "dropWhile is_digit (ds @ rest) = rest"
  using assms by (induction ds) (auto simp: no_digit_hd_def split: list.splits)

lemma scan_number_digits:
  assumes "\<forall>c \<in> set ds. is_digit c" and "ds \<noteq> []" and "no_digit_hd rest"
  shows "scan_number (ds @ rest) = Some (False, ds, rest)"
proof -
  obtain d ds' where ds: "ds = d # ds'" using assms(2) by (cases ds) auto
  with assms(1) have "is_digit d" by simp
  then have "dropWhile is_space (ds @ rest) = ds @ rest"
    and "d \<noteq> CHR ''-''" and "d \<noteq> CHR ''+''"
    using digit_neq[of d] by (auto simp: ds digit_not_space)
  with ds have "scan_number (ds @ rest) =
      (if takeWhile is_digit (ds @ rest) = [] then None
       else Some (False, takeWhile is_digit (ds @ rest), dropWhile is_digit (ds @ rest)))"
    by (simp add: scan_number_def Let_def)
  with span_digits[OF assms(1,3)] assms(2) show ?thesis by simp
qed

lemma scan_dec_nat [ctext_simps]:
  "no_digit_hd rest \<Longrightarrow> scan_number (dec_nat n @ rest) = Some (False, dec_nat n, rest)"
  by (intro scan_number_digits) (auto simp: dec_nat_digits)

lemma strtol_dec_nat:
  "no_digit_hd rest \<Longrightarrow> n < 2 ^ 63 \<Longrightarrow> strtol (dec_nat n @ rest) = (int n, rest, False)"
  by (simp add: strtol_def scan_dec_nat)

lemma strtoull_dec_nat:
  "no_digit_hd rest \<Longrightarrow> n < 2 ^ 64 \<Longrightarrow> strtoull (dec_nat n @ rest) = (int n, rest, False)"
  by (simp add: strtoull_def scan_dec_nat)

lemma atoi_dec_nat: "no_digit_hd rest \<Longrightarrow> n < 2 ^ 31 \<Longrightarrow> atoi (dec_nat n @ rest) = int n"
  by (simp add: atoi_def strtol_dec_nat to_i32_id)

lemma strtol_range: "strtol s = (v, r, e) \<Longrightarrow> - (2 ^ 63) \<le> v \<and> v < 2 ^ 63"
  by (auto simp: strtol_def Let_def split: option.splits if_splits)

section \<open>Tokens and substrings\<close>

text \<open>
  \<open>strtok_r\<close> with a one-character delimiter: the next token and the text after it, or \<open>None\<close>
  when only delimiters are left.
\<close>

definition strtok :: "char \<Rightarrow> string \<Rightarrow> (string \<times> string) option" where
  "strtok d s =
     (let t = dropWhile (\<lambda>c. c = d) s in
      if t = [] then None
      else Some (takeWhile (\<lambda>c. c \<noteq> d) t, drop 1 (dropWhile (\<lambda>c. c \<noteq> d) t)))"

lemma strtok_Some:
  "strtok d s = Some (t, r) \<longleftrightarrow>
     dropWhile (\<lambda>c. c = d) s \<noteq> [] \<and>
     t = takeWhile (\<lambda>c. c \<noteq> d) (dropWhile (\<lambda>c. c = d) s) \<and>
     r = drop 1 (dropWhile (\<lambda>c. c \<noteq> d) (dropWhile (\<lambda>c. c = d) s))"
  unfolding strtok_def Let_def by (simp only: split: if_split) blast

lemma dropWhile_eq_hd: "dropWhile (\<lambda>c. c = d) s = x # xs \<Longrightarrow> x \<noteq> d"
  using hd_dropWhile[of "\<lambda>c. c = d" s] by simp

lemma strtok_shorter: "strtok d s = Some (t, r) \<Longrightarrow> length r < length s"
proof -
  assume h: "strtok d s = Some (t, r)"
  then obtain x xs where x: "dropWhile (\<lambda>c. c = d) s = x # xs"
    and r: "r = drop 1 (dropWhile (\<lambda>c. c \<noteq> d) (x # xs))"
    unfolding strtok_Some by (metis neq_Nil_conv)
  have "length r \<le> length xs"
    using dropWhile_eq_hd[OF x] length_dropWhile_le[of "\<lambda>c. c \<noteq> d" xs] by (simp add: r)
  also have "length (x # xs) \<le> length s" using length_dropWhile_le[of "\<lambda>c. c = d" s] x by simp
  then have "length xs < length s" by simp
  finally show ?thesis .
qed

lemma strtok_token: "strtok d s = Some (t, r) \<Longrightarrow> t \<noteq> [] \<and> d \<notin> set t"
proof -
  assume h: "strtok d s = Some (t, r)"
  then obtain x xs where x: "dropWhile (\<lambda>c. c = d) s = x # xs"
    and t: "t = takeWhile (\<lambda>c. c \<noteq> d) (x # xs)"
    unfolding strtok_Some by (metis neq_Nil_conv)
  then show ?thesis using dropWhile_eq_hd[OF x] by (auto dest: set_takeWhileD)
qed

lemma strtok_first:
  assumes "t \<noteq> []" and "d \<notin> set t" and "r = [] \<or> hd r = d"
  shows "strtok d (t @ r) = Some (t, drop 1 r)"
proof -
  obtain c t' where t: "t = c # t'" using assms(1) by (cases t) auto
  with assms(2) have "c \<noteq> d" by auto
  then have "dropWhile (\<lambda>c. c = d) (t @ r) = t @ r" by (simp add: t)
  moreover have "takeWhile (\<lambda>c. c \<noteq> d) (t @ r) = t" "dropWhile (\<lambda>c. c \<noteq> d) (t @ r) = r"
    using assms by (auto simp: takeWhile_append dropWhile_append intro: takeWhile_eq_all_conv[THEN iffD2]; cases r; auto)+
  ultimately show ?thesis using assms(1) by (simp add: strtok_def)
qed

fun starts_with :: "string \<Rightarrow> string \<Rightarrow> bool" where
  "starts_with [] s = True"
| "starts_with (c # cs) [] = False"
| "starts_with (c # cs) (x # xs) = (c = x \<and> starts_with cs xs)"

text \<open>\<open>strstr\<close>: the text from the first occurrence on.\<close>

fun strstr :: "string \<Rightarrow> string \<Rightarrow> string option" where
  "strstr [] p = (if p = [] then Some [] else None)"
| "strstr (c # cs) p = (if starts_with p (c # cs) then Some (c # cs) else strstr cs p)"

lemma starts_with_append [simp]: "starts_with p (p @ s)"
  by (induction p) auto

lemma starts_with_iff: "starts_with p s \<longleftrightarrow> (\<exists>r. s = p @ r)"
  by (induction p s rule: starts_with.induct) auto

end
