(* ===== verification/IoUtils.thy ===== *)
theory IoUtils
  imports CText
begin

text \<open>
  \<open>src/libsentry/c/io/io_utils.c\<close>: \<open>WriteAll\<close>, \<open>SendAll\<close> and \<open>RecvAll\<close>, the loops that turn
  the partial transfers of \<open>write\<close>, \<open>send\<close> and \<open>recv\<close> into whole ones. Each loop retries after
  EINTR, EAGAIN and EWOULDBLOCK (with a sleep of 100 ms), fails on any other error and on a
  transfer of zero bytes. The two output loops share one contract, the locale
  \<open>bulk_output\<close>; it is interpreted on both models.
\<close>

definition retryable :: "int \<Rightarrow> bool" where
  "retryable e \<longleftrightarrow> e = EINTR \<or> e = EAGAIN \<or> e = EWOULDBLOCK"

definition RECV_DELAY_US :: nat where
  "RECV_DELAY_US = 100 * 1000"

section \<open>The loops\<close>

function write_loop :: "int \<Rightarrow> string \<Rightarrow> world \<Rightarrow> (int \<times> world) option" where
  "write_loop fd buf w =
     (if buf = [] then Some (0, w)
      else do {
        (ret, w) \<leftarrow> call (Q_write fd buf) w;
        if ret < 0 then
          (if retryable (errno w) then do {
             (_, w) \<leftarrow> call (Q_usleep RECV_DELAY_US) w;
             write_loop fd buf w }
           else Some (- 1, w))
        else if ret = 0 then Some (- 1, w\<lparr>errno := EIO\<rparr>)
        else write_loop fd (drop (nat ret) buf) w })"
  by pat_completeness auto
termination
  by (relation "measure (\<lambda>(fd, buf, w). length (script w))") (auto dest!: call_script)

definition WriteAll :: "int \<Rightarrow> string \<Rightarrow> world \<Rightarrow> (int \<times> world) option" where
  "WriteAll fd buf w = do {
     (st, w) \<leftarrow> write_loop fd buf w;
     Some (if st < 0 then - 1 else int (length buf), w) }"

function send_loop :: "int \<Rightarrow> string \<Rightarrow> world \<Rightarrow> (int \<times> world) option" where
  "send_loop fd buf w =
     (if buf = [] then Some (0, w)
      else do {
        (ret, w) \<leftarrow> call (Q_send fd buf) w;
        if ret < 0 then
          (if retryable (errno w) then do {
             (_, w) \<leftarrow> call (Q_usleep RECV_DELAY_US) w;
             send_loop fd buf w }
           else Some (- 1, w))
        else if ret = 0 then Some (- 1, w\<lparr>errno := EPIPE\<rparr>)
        else send_loop fd (drop (nat ret) buf) w })"
  by pat_completeness auto
termination
  by (relation "measure (\<lambda>(fd, buf, w). length (script w))") (auto dest!: call_script)

definition SendAll :: "int \<Rightarrow> string \<Rightarrow> world \<Rightarrow> (int \<times> world) option" where
  "SendAll fd buf w = do {
     (st, w) \<leftarrow> send_loop fd buf w;
     Some (if st < 0 then - 1 else int (length buf), w) }"

text \<open>
  \<open>recv_loop fd len got w\<close>: \<open>got\<close> is what the buffer holds so far, so \<open>remaining\<close> is
  \<open>len - length got\<close>. The result is the return value and the buffer.
\<close>

function recv_loop :: "int \<Rightarrow> nat \<Rightarrow> string \<Rightarrow> world \<Rightarrow> (int \<times> string \<times> world) option" where
  "recv_loop fd len got w =
     (if len \<le> length got then Some (int len, got, w)
      else do {
        (ret, d, w) \<leftarrow> fetch (Q_recv fd (len - length got)) w;
        if ret < 0 then
          (if retryable (errno w) then do {
             (_, w) \<leftarrow> call (Q_usleep RECV_DELAY_US) w;
             recv_loop fd len got w }
           else Some (- 1, got, w))
        else if ret = 0 then
          (if got = [] then Some (0, got, w) else Some (- 1, got, w\<lparr>errno := ECONNRESET\<rparr>))
        else recv_loop fd len (got @ d) w })"
  by pat_completeness auto
termination
  by (relation "measure (\<lambda>(fd, len, got, w). length (script w))")
     (auto dest!: call_script fetch_script)

definition RecvAll :: "int \<Rightarrow> nat \<Rightarrow> world \<Rightarrow> (int \<times> string \<times> world) option" where
  "RecvAll fd len w = recv_loop fd len [] w"

declare write_loop.simps [simp del] send_loop.simps [simp del] recv_loop.simps [simp del]

section \<open>What went over a descriptor\<close>

text \<open>The bytes the kernel accepted for, and delivered from, a descriptor.\<close>

definition ev_sent :: "int \<Rightarrow> event \<Rightarrow> string" where
  "ev_sent fd e = (case fst e of
      Q_write f b \<Rightarrow> if f = fd then take (nat (a_ret (snd e))) b else []
    | Q_send f b \<Rightarrow> if f = fd then take (nat (a_ret (snd e))) b else []
    | _ \<Rightarrow> [])"

definition sent :: "int \<Rightarrow> world \<Rightarrow> string" where
  "sent fd w = concat (map (ev_sent fd) (trace w))"

definition ev_received :: "int \<Rightarrow> event \<Rightarrow> string" where
  "ev_received fd e = (case fst e of
      Q_recv f n \<Rightarrow> if f = fd then a_data (snd e) else []
    | _ \<Rightarrow> [])"

definition received :: "int \<Rightarrow> world \<Rightarrow> string" where
  "received fd w = concat (map (ev_received fd) (trace w))"

lemma sent_errno [simp]: "sent fd (w\<lparr>errno := e\<rparr>) = sent fd w"
  and received_errno [simp]: "received fd (w\<lparr>errno := e\<rparr>) = received fd w"
  by (simp_all add: sent_def received_def)

lemma call_sent: "call q w = Some (r, w') \<Longrightarrow>
    \<exists>a. a_ret a = r \<and> (\<forall>fd. sent fd w' = sent fd w @ ev_sent fd (q, a))"
  by (auto simp: call_Some sys_Some sent_def)

definition is_output :: "sysreq \<Rightarrow> bool" where
  "is_output q = (case q of Q_write f b \<Rightarrow> True | Q_send f b \<Rightarrow> True | _ \<Rightarrow> False)"

lemma call_other_sent:
  "call q w = Some (r, w') \<Longrightarrow> \<not> is_output q \<Longrightarrow> sent fd w' = sent fd w"
  "fetch q w = Some (r, d, w') \<Longrightarrow> \<not> is_output q \<Longrightarrow> sent fd w' = sent fd w"
  by (auto simp: call_Some fetch_Some sys_Some sent_def ev_sent_def is_output_def split: sysreq.splits)

text \<open>The contract of a call, with the output it leaves alone.\<close>

declare returns_call [ret_intros del] returns_fetch [ret_intros del]

lemma returns_call_io [ret_intros]:
  "(\<And>r v. call q w = Some (r, v) \<Longrightarrow> - 1 \<le> r \<Longrightarrow> (\<forall>x. balance v x = balance w x + req_delta q r x) \<Longrightarrow>
     (\<not> is_output q \<longrightarrow> (\<forall>fd. sent fd v = sent fd w)) \<Longrightarrow>
     length (script v) < length (script w) \<Longrightarrow> P (r, v)) \<Longrightarrow> returns (call q w) P"
  by (rule returns_call) (auto simp: call_other_sent)

lemma returns_fetch_io [ret_intros]:
  "(\<And>r d v. fetch q w = Some (r, d, v) \<Longrightarrow> - 1 \<le> r \<Longrightarrow>
     (\<forall>x. balance v x = balance w x + req_delta q r x) \<Longrightarrow>
     (\<not> is_output q \<longrightarrow> (\<forall>fd. sent fd v = sent fd w)) \<Longrightarrow>
     length (script v) < length (script w) \<Longrightarrow> P (r, d, v)) \<Longrightarrow>
   returns (fetch q w) P"
  by (rule returns_fetch) (auto simp: call_other_sent)

lemma call_usleep:
  assumes "call (Q_usleep n) w = Some (r, w')"
  shows "sent fd w' = sent fd w" and "received fd w' = received fd w" and "balance w' = balance w"
  using assms by (auto simp: call_Some sys_Some sent_def received_def ev_sent_def ev_received_def
      balance_def res_delta_def)

section \<open>The contract of the output loops\<close>

locale bulk_output =
  fixes prim :: "int \<Rightarrow> string \<Rightarrow> world \<Rightarrow> (int \<times> world) option"
    and zero_errno :: int
    and loop :: "int \<Rightarrow> string \<Rightarrow> world \<Rightarrow> (int \<times> world) option"
  assumes prim_bounds: "prim fd b w = Some (r, w') \<Longrightarrow> - 1 \<le> r \<and> r \<le> int (length b)"
    and prim_script: "prim fd b w = Some (r, w') \<Longrightarrow> length (script w) = Suc (length (script w'))"
    and prim_sent: "prim fd b w = Some (r, w') \<Longrightarrow>
          sent x w' = sent x w @ (if x = fd then take (nat r) b else [])"
    and prim_balance: "prim fd b w = Some (r, w') \<Longrightarrow> balance w' = balance w"
    and prim_good: "script w = a # as \<Longrightarrow> 0 < a_ret a \<Longrightarrow> b \<noteq> [] \<Longrightarrow>
          \<exists>r w'. prim fd b w = Some (r, w') \<and> 0 < r \<and> script w' = as"
    and loop_unfold: "loop fd buf w =
     (if buf = [] then Some (0, w)
      else do {
        (ret, w) \<leftarrow> prim fd buf w;
        if ret < 0 then
          (if retryable (errno w) then do {
             (_, w) \<leftarrow> call (Q_usleep RECV_DELAY_US) w;
             loop fd buf w }
           else Some (- 1, w))
        else if ret = 0 then Some (- 1, w\<lparr>errno := zero_errno\<rparr>)
        else loop fd (drop (nat ret) buf) w })"
begin

text \<open>Induction along the loop: a property of the three ways to stop, kept by the two ways to go on.\<close>

lemma loop_induct [consumes 1, case_names fin err zero retry more]:
  assumes run: "loop fd buf w = Some (r, w')"
    and fin: "\<And>w. P [] w 0 w"
    and err: "\<And>buf w v. buf \<noteq> [] \<Longrightarrow> prim fd buf w = Some (- 1, v) \<Longrightarrow> \<not> retryable (errno v)
        \<Longrightarrow> P buf w (- 1) v"
    and zero: "\<And>buf w v. buf \<noteq> [] \<Longrightarrow> prim fd buf w = Some (0, v)
        \<Longrightarrow> P buf w (- 1) (v\<lparr>errno := zero_errno\<rparr>)"
    and retry: "\<And>buf w v x u r w'. buf \<noteq> [] \<Longrightarrow> prim fd buf w = Some (- 1, v) \<Longrightarrow> retryable (errno v)
        \<Longrightarrow> call (Q_usleep RECV_DELAY_US) v = Some (x, u) \<Longrightarrow> loop fd buf u = Some (r, w')
        \<Longrightarrow> P buf u r w' \<Longrightarrow> P buf w r w'"
    and more: "\<And>buf w n v r w'. prim fd buf w = Some (n, v) \<Longrightarrow> 0 < n
        \<Longrightarrow> loop fd (drop (nat n) buf) v = Some (r, w') \<Longrightarrow> P (drop (nat n) buf) v r w'
        \<Longrightarrow> P buf w r w'"
  shows "P buf w r w'"
  using run
proof (induction "length (script w)" arbitrary: buf w rule: less_induct)
  case less
  show ?case
  proof (cases "buf = []")
    case True
    with less.prems fin show ?thesis by (simp add: loop_unfold[of fd "[]"])
  next
    case False
    with less.prems obtain n v where p: "prim fd buf w = Some (n, v)"
      by (subst (asm) loop_unfold) (auto simp: bind_eq_Some_conv)
    have sv: "length (script v) < length (script w)" using prim_script[OF p] by simp
    consider (neg) "n = - 1" | (zer) "n = 0" | (pos) "0 < n"
      using prim_bounds[OF p] by fastforce
    then show ?thesis
    proof cases
      case neg
      show ?thesis
      proof (cases "retryable (errno v)")
        case True
        with less.prems False p neg obtain x u where u: "call (Q_usleep RECV_DELAY_US) v = Some (x, u)"
          and l: "loop fd buf u = Some (r, w')"
          by (subst (asm) loop_unfold) (auto simp: bind_eq_Some_conv)
        have "length (script u) < length (script w)" using sv call_script[OF u] by simp
        from less.hyps[OF this l] show ?thesis using retry[OF False _ True u l] p neg by simp
      next
        case nr: False
        with less.prems False p neg have "r = - 1" "w' = v"
          by (subst (asm) loop_unfold, simp)+
        with err[OF False _ nr] p neg show ?thesis by simp
      qed
    next
      case zer
      with less.prems False p have "r = - 1" "w' = v\<lparr>errno := zero_errno\<rparr>"
        by (subst (asm) loop_unfold, simp)+
      with zero[OF False] p zer show ?thesis by simp
    next
      case pos
      with less.prems False p have l: "loop fd (drop (nat n) buf) v = Some (r, w')"
        by (subst (asm) loop_unfold) simp
      from less.hyps[OF sv l] more[OF p pos l] show ?thesis by simp
    qed
  qed
qed

lemma loop_result: "loop fd buf w = Some (r, w') \<Longrightarrow> r = 0 \<or> r = - 1"
  by (induction rule: loop_induct) auto

lemma loop_balance: "loop fd buf w = Some (r, w') \<Longrightarrow> balance w' = balance w"
  by (induction rule: loop_induct) (simp_all add: prim_balance call_usleep(3))

lemma loop_frame: "loop fd buf w = Some (r, w') \<Longrightarrow> x \<noteq> fd \<Longrightarrow> sent x w' = sent x w"
  by (induction rule: loop_induct) (simp_all add: prim_sent call_usleep(1))

text \<open>A successful run delivers the buffer; a failing run a proper prefix of it.\<close>

lemma loop_delivers:
  "loop fd buf w = Some (r, w') \<Longrightarrow>
     (r = 0 \<and> sent fd w' = sent fd w @ buf) \<or>
     (r = - 1 \<and> (\<exists>k < length buf. sent fd w' = sent fd w @ take k buf))"
proof (induction rule: loop_induct)
  case (fin w)
  show ?case by simp
next
  case (err buf w v)
  have "sent fd v = sent fd w @ take 0 buf" using prim_sent[OF err(2), of fd] by simp
  with err(1) show ?case by blast
next
  case (zero buf w v)
  have "sent fd v = sent fd w @ take 0 buf" using prim_sent[OF zero(2), of fd] by simp
  with zero(1) show ?case by (metis length_greater_0_conv sent_errno)
next
  case (retry buf w v x u r w')
  have "sent fd u = sent fd w"
    using prim_sent[OF retry(2), of fd] call_usleep(1)[OF retry(4), of fd] by simp
  with retry show ?case by simp
next
  case (more buf w n v r w')
  have le: "nat n \<le> length buf" and pos: "0 < nat n"
    using prim_bounds[OF more(1)] more(2) by (simp_all add: nat_le_iff)
  have s: "sent fd v = sent fd w @ take (nat n) buf" using prim_sent[OF more(1), of fd] by simp
  from more.IH show ?case
  proof
    assume "r = 0 \<and> sent fd w' = sent fd v @ drop (nat n) buf"
    with s show ?thesis by simp
  next
    assume "r = - 1 \<and> (\<exists>k<length (drop (nat n) buf). sent fd w' = sent fd v @ take k (drop (nat n) buf))"
    then obtain k where k: "k < length buf - nat n"
      and eq: "sent fd w' = sent fd v @ take k (drop (nat n) buf)" and r: "r = - 1" by auto
    have "take (nat n) buf @ take k (drop (nat n) buf) = take (nat n + k) buf"
      by (simp add: take_add)
    with eq s have "sent fd w' = sent fd w @ take (nat n + k) buf" by simp
    moreover have "nat n + k < length buf" using k le by simp
    ultimately show ?thesis using r by blast
  qed
qed

text \<open>The loop returns when every answer makes progress and there are enough of them.\<close>

lemma loop_returns:
  "length buf \<le> length (script w) \<Longrightarrow> \<forall>a \<in> set (script w). 0 < a_ret a \<Longrightarrow>
     \<exists>w'. loop fd buf w = Some (0, w')"
proof (induction "length buf" arbitrary: buf w rule: less_induct)
  case less
  show ?case
  proof (cases "buf = []")
    case True
    then show ?thesis by (simp add: loop_unfold[of fd "[]"])
  next
    case False
    with less.prems obtain a as where sc: "script w = a # as" and a: "0 < a_ret a"
      by (cases "script w") auto
    from prim_good[OF sc a False, of fd] obtain r v where p: "prim fd buf w = Some (r, v)"
      and r: "0 < r" and sv: "script v = as" by auto
    have le: "nat r \<le> length buf" using prim_bounds[OF p] by (simp add: nat_le_iff)
    have "\<exists>w'. loop fd (drop (nat r) buf) v = Some (0, w')"
      using less.prems sc sv r False by (intro less.hyps) (auto simp: sc sv)
    with p r False show ?thesis by (subst loop_unfold) auto
  qed
qed

end

lemma write_call_facts:
  assumes "call (Q_write fd b) w = Some (r, w')"
  shows "- 1 \<le> r \<and> r \<le> int (length b)" and "length (script w) = Suc (length (script w'))"
    and "sent x w' = sent x w @ (if x = fd then take (nat r) b else [])" and "balance w' = balance w"
  using assms
  by (auto simp: call_Some sys_Some posix_def sent_def ev_sent_def balance_def res_delta_def)

lemma send_call_facts:
  assumes "call (Q_send fd b) w = Some (r, w')"
  shows "- 1 \<le> r \<and> r \<le> int (length b)" and "length (script w) = Suc (length (script w'))"
    and "sent x w' = sent x w @ (if x = fd then take (nat r) b else [])" and "balance w' = balance w"
  using assms
  by (auto simp: call_Some sys_Some posix_def sent_def ev_sent_def balance_def res_delta_def)

lemma out_call_good:
  assumes "script w = a # as" and "0 < a_ret a" and "b \<noteq> []"
  shows "\<exists>r w'. call (Q_write fd b) w = Some (r, w') \<and> 0 < r \<and> script w' = as"
    and "\<exists>r w'. call (Q_send fd b) w = Some (r, w') \<and> 0 < r \<and> script w' = as"
  using assms by (auto simp: call_Some sys_Some posix_def)

interpretation wr: bulk_output "\<lambda>fd b. call (Q_write fd b)" EIO write_loop
proof unfold_locales
  fix fd :: int and buf and w :: world
  show "write_loop fd buf w =
     (if buf = [] then Some (0, w)
      else do {
        (ret, w) \<leftarrow> call (Q_write fd buf) w;
        if ret < 0 then
          (if retryable (errno w) then do {
             (_, w) \<leftarrow> call (Q_usleep RECV_DELAY_US) w;
             write_loop fd buf w }
           else Some (- 1, w))
        else if ret = 0 then Some (- 1, w\<lparr>errno := EIO\<rparr>)
        else write_loop fd (drop (nat ret) buf) w })"
    by (rule write_loop.simps)
qed (erule write_call_facts | erule (2) out_call_good(1))+

interpretation sd: bulk_output "\<lambda>fd b. call (Q_send fd b)" EPIPE send_loop
proof unfold_locales
  fix fd :: int and buf and w :: world
  show "send_loop fd buf w =
     (if buf = [] then Some (0, w)
      else do {
        (ret, w) \<leftarrow> call (Q_send fd buf) w;
        if ret < 0 then
          (if retryable (errno w) then do {
             (_, w) \<leftarrow> call (Q_usleep RECV_DELAY_US) w;
             send_loop fd buf w }
           else Some (- 1, w))
        else if ret = 0 then Some (- 1, w\<lparr>errno := EPIPE\<rparr>)
        else send_loop fd (drop (nat ret) buf) w })"
    by (rule send_loop.simps)
qed (erule send_call_facts | erule (2) out_call_good(2))+

section \<open>WriteAll, SendAll and RecvAll\<close>

lemma WriteAll_cases:
  assumes "WriteAll fd buf w = Some (r, w')"
  shows "r = int (length buf) \<and> sent fd w' = sent fd w @ buf \<or>
         r = - 1 \<and> (\<exists>k < length buf. sent fd w' = sent fd w @ take k buf)"
  using assms wr.loop_delivers by (fastforce simp: WriteAll_def bind_eq_Some_conv)

lemma SendAll_cases:
  assumes "SendAll fd buf w = Some (r, w')"
  shows "r = int (length buf) \<and> sent fd w' = sent fd w @ buf \<or>
         r = - 1 \<and> (\<exists>k < length buf. sent fd w' = sent fd w @ take k buf)"
  using assms sd.loop_delivers by (fastforce simp: SendAll_def bind_eq_Some_conv)

lemma WriteAll_balance [bal_simps]: "WriteAll fd buf w = Some (r, w') \<Longrightarrow> balance w' = balance w"
  by (auto simp: WriteAll_def bind_eq_Some_conv wr.loop_balance)

lemma SendAll_balance [bal_simps]: "SendAll fd buf w = Some (r, w') \<Longrightarrow> balance w' = balance w"
  by (auto simp: SendAll_def bind_eq_Some_conv sd.loop_balance)

lemma WriteAll_frame: "WriteAll fd buf w = Some (r, w') \<Longrightarrow> x \<noteq> fd \<Longrightarrow> sent x w' = sent x w"
  by (auto simp: WriteAll_def bind_eq_Some_conv wr.loop_frame)

lemma WriteAll_script: "WriteAll fd buf w = Some (r, w') \<Longrightarrow> length (script w') \<le> length (script w)"
proof -
  have "write_loop fd buf w = Some (s, w') \<Longrightarrow> length (script w') \<le> length (script w)" for s
    by (induction rule: wr.loop_induct) (auto dest!: call_script)
  then show "WriteAll fd buf w = Some (r, w') \<Longrightarrow> length (script w') \<le> length (script w)"
    by (auto simp: WriteAll_def bind_eq_Some_conv)
qed

text \<open>\<open>RecvAll\<close>: its three outcomes, and that the buffer holds what the descriptor delivered.\<close>

lemma fetch_recv_facts:
  assumes "fetch (Q_recv fd n) w = Some (r, d, w')"
  shows "- 1 \<le> r" and "0 \<le> r \<Longrightarrow> r = int (length d)" and "r < 0 \<Longrightarrow> d = []" and "length d \<le> n"
    and "received fd w' = received fd w @ d" and "balance w' = balance w"
  using assms
  by (auto simp: fetch_Some sys_Some posix_def received_def ev_received_def balance_def
      res_delta_def split: if_splits)

lemma recv_loop_spec:
  "recv_loop fd len got w = Some (r, d, w') \<Longrightarrow> length got \<le> len \<Longrightarrow>
     (\<exists>e. d = got @ e \<and> received fd w' = received fd w @ e) \<and> balance w' = balance w \<and>
     (r = int len \<and> length d = len \<or> r = 0 \<and> d = [] \<or> r = - 1 \<and> length d < len)"
proof (induction fd len got w arbitrary: r d w' rule: recv_loop.induct)
  case (1 fd len got w)
  show ?case
  proof (cases "len \<le> length got")
    case True
    with "1.prems" show ?thesis by (subst (asm) recv_loop.simps) simp
  next
    case False
    with "1.prems"(1) obtain n x v where f: "fetch (Q_recv fd (len - length got)) w = Some (n, x, v)"
      by (subst (asm) recv_loop.simps) (auto simp: bind_eq_Some_conv)
    note ff = fetch_recv_facts[OF f]
    show ?thesis
    proof (cases "n < 0 \<and> retryable (errno v)")
      case retry: True
      with False "1.prems"(1) f obtain y u where u: "call (Q_usleep RECV_DELAY_US) v = Some (y, u)"
        and l: "recv_loop fd len got u = Some (r, d, w')"
        by (subst (asm) recv_loop.simps) (auto simp: bind_eq_Some_conv)
      from "1.IH"(1)[OF False f refl refl _ _ u refl l "1.prems"(2)] retry show ?thesis
        using ff retry call_usleep[OF u] by simp
    next
      case nretry: False
      show ?thesis
      proof (cases "n \<le> 0")
        case True
        with nretry False "1.prems"(1) f ff(2,3) have "d = got" "r = - 1 \<or> r = 0 \<and> got = []"
            "balance w' = balance v" "received fd w' = received fd v" "x = []"
          by (auto simp: recv_loop.simps[of fd len got] split: if_splits)
        with ff(5,6) False show ?thesis by auto
      next
        case pos: False
        with False "1.prems"(1) f have l: "recv_loop fd len (got @ x) v = Some (r, d, w')"
          by (subst (asm) recv_loop.simps) simp
        have "length (got @ x) \<le> len" using ff(4) False by simp
        from "1.IH"(2)[OF False f refl refl _ _ l this] pos ff(5,6) show ?thesis by auto
      qed
    qed
  qed
qed

lemma RecvAll_spec:
  assumes "RecvAll fd len w = Some (r, d, w')"
  shows "received fd w' = received fd w @ d" and "balance w' = balance w"
    and "r = int len \<and> length d = len \<or> r = 0 \<and> d = [] \<or> r = - 1 \<and> length d < len"
  using recv_loop_spec[of fd len "[]" w r d w'] assms by (auto simp: RecvAll_def)

lemma recv_loop_script:
  "recv_loop fd len got w = Some (r, d, w') \<Longrightarrow>
     length (script w') \<le> length (script w) - (if length got < len then 1 else 0) \<and>
     (length got < len \<longrightarrow> script w \<noteq> [])"
proof (induction fd len got w arbitrary: r d w' rule: recv_loop.induct)
  case (1 fd len got w)
  show ?case
  proof (cases "len \<le> length got")
    case True
    with "1.prems" show ?thesis by (subst (asm) recv_loop.simps) simp
  next
    case False
    with "1.prems"(1) obtain n x v where f: "fetch (Q_recv fd (len - length got)) w = Some (n, x, v)"
      by (subst (asm) recv_loop.simps) (auto simp: bind_eq_Some_conv)
    note fs = fetch_script[OF f]
    show ?thesis
    proof (cases "n < 0 \<and> retryable (errno v)")
      case retry: True
      with False "1.prems"(1) f obtain y u where u: "call (Q_usleep RECV_DELAY_US) v = Some (y, u)"
        and l: "recv_loop fd len got u = Some (r, d, w')"
        by (subst (asm) recv_loop.simps) (auto simp: bind_eq_Some_conv)
      from "1.IH"(1)[OF False f refl refl _ _ u refl l] retry fs call_script[OF u] show ?thesis
        by auto
    next
      case nretry: False
      show ?thesis
      proof (cases "n \<le> 0")
        case True
        with nretry False "1.prems"(1) f have "script w' = script v"
          by (auto simp: recv_loop.simps[of fd len got] split: if_splits)
        with fs show ?thesis by auto
      next
        case pos: False
        with False "1.prems"(1) f have l: "recv_loop fd len (got @ x) v = Some (r, d, w')"
          by (subst (asm) recv_loop.simps) simp
        from "1.IH"(2)[OF False f refl refl _ _ l] pos fs show ?thesis by (auto split: if_splits)
      qed
    qed
  qed
qed

lemma RecvAll_script:
  "RecvAll fd len w = Some (r, d, w') \<Longrightarrow> 0 < len \<Longrightarrow> length (script w') < length (script w)"
  using recv_loop_script[of fd len "[]" w r d w'] by (cases "script w") (auto simp: RecvAll_def)

text \<open>The contracts of the three functions, for the proofs about their callers.\<close>

lemma returns_WriteAll [ret_intros]:
  assumes "\<And>r v. WriteAll fd b w = Some (r, v) \<Longrightarrow> balance v = balance w \<Longrightarrow>
     (r = int (length b) \<and> sent fd v = sent fd w @ b \<or>
      r = - 1 \<and> (\<exists>k < length b. sent fd v = sent fd w @ take k b)) \<Longrightarrow>
     (\<forall>x. x \<noteq> fd \<longrightarrow> sent x v = sent x w) \<Longrightarrow> length (script v) \<le> length (script w) \<Longrightarrow> P (r, v)"
  shows "returns (WriteAll fd b w) P"
proof (rule returnsI)
  fix x assume x: "WriteAll fd b w = Some x"
  obtain r v where [simp]: "x = (r, v)" by fastforce
  note c = x[unfolded \<open>x = (r, v)\<close>]
  from WriteAll_frame[OF c] show "P x"
    using assms[OF c WriteAll_balance[OF c] WriteAll_cases[OF c]] WriteAll_script[OF c] by simp
qed

lemma SendAll_script: "SendAll fd buf w = Some (r, w') \<Longrightarrow> length (script w') \<le> length (script w)"
proof -
  have "send_loop fd buf w = Some (s, w') \<Longrightarrow> length (script w') \<le> length (script w)" for s
    by (induction rule: sd.loop_induct) (auto dest!: call_script)
  then show "SendAll fd buf w = Some (r, w') \<Longrightarrow> length (script w') \<le> length (script w)"
    by (auto simp: SendAll_def bind_eq_Some_conv)
qed

lemma returns_SendAll [ret_intros]:
  assumes "\<And>r v. SendAll fd b w = Some (r, v) \<Longrightarrow> balance v = balance w \<Longrightarrow>
     (r = int (length b) \<and> sent fd v = sent fd w @ b \<or>
      r = - 1 \<and> (\<exists>k < length b. sent fd v = sent fd w @ take k b)) \<Longrightarrow>
     length (script v) \<le> length (script w) \<Longrightarrow> P (r, v)"
  shows "returns (SendAll fd b w) P"
proof (rule returnsI)
  fix x assume x: "SendAll fd b w = Some x"
  obtain r v where [simp]: "x = (r, v)" by fastforce
  note c = x[unfolded \<open>x = (r, v)\<close>]
  show "P x" using assms[OF c SendAll_balance[OF c] SendAll_cases[OF c]] SendAll_script[OF c] by simp
qed

lemma returns_RecvAll [ret_intros]:
  assumes "\<And>r d v. RecvAll fd n w = Some (r, d, v) \<Longrightarrow> balance v = balance w \<Longrightarrow>
     (r = int n \<and> length d = n \<or> r = 0 \<and> d = [] \<or> r = - 1 \<and> length d < n) \<Longrightarrow>
     received fd v = received fd w @ d \<Longrightarrow>
     (0 < n \<longrightarrow> length (script v) < length (script w)) \<Longrightarrow> P (r, d, v)"
  shows "returns (RecvAll fd n w) P"
proof (rule returnsI)
  fix x assume x: "RecvAll fd n w = Some x"
  obtain r d v where [simp]: "x = (r, d, v)" using prod_cases3 by blast
  note c = x[unfolded \<open>x = (r, d, v)\<close>]
  show "P x"
    using assms[OF c RecvAll_spec(2)[OF c] RecvAll_spec(3)[OF c] RecvAll_spec(1)[OF c]]
      RecvAll_script[OF c] by simp
qed

text \<open>
  How much of the script a program leaves, for the termination of loops around programs: the
  same rules with the contract of a call about the script only.
\<close>

lemma returns_call_script:
  "(\<And>r v. length (script w) = Suc (length (script v)) \<Longrightarrow> P (r, v)) \<Longrightarrow> returns (call q w) P"
  by (rule returnsI) (auto simp: call_script)

lemma returns_fetch_script:
  "(\<And>r d v. length (script w) = Suc (length (script v)) \<Longrightarrow> P (r, d, v)) \<Longrightarrow> returns (fetch q w) P"
  by (rule returnsI) (auto simp: fetch_script)

lemma returns_WriteAll_script:
  "(\<And>r v. length (script v) \<le> length (script w) \<Longrightarrow> P (r, v)) \<Longrightarrow> returns (WriteAll fd b w) P"
  by (rule returnsI) (auto simp: WriteAll_script)

lemmas script_intros = returns_flow returns_call_script returns_fetch_script returns_WriteAll_script

section \<open>Properties\<close>

text \<open>C13: WriteAll either reports the length of the buffer and has delivered exactly the buffer, or it
  reports -1 and has delivered a proper prefix, whatever short counts, interruptions and errors
  the descriptor answers with; nothing else is written and no descriptor is opened or closed.\<close>

theorem WriteAll_contract:
  assumes "WriteAll fd buf w = Some (r, w')"
  shows "(r = int (length buf) \<and> sent fd w' = sent fd w @ buf \<or>
          r = - 1 \<and> (\<exists>k < length buf. sent fd w' = sent fd w @ take k buf)) \<and>
         (\<forall>x. x \<noteq> fd \<longrightarrow> sent x w' = sent x w) \<and> balance w' = balance w"
  using WriteAll_cases[OF assms] WriteAll_frame[OF assms] WriteAll_balance[OF assms] by blast

theorem WriteAll_contract_witness:
  "(case WriteAll 3 ''hello'' (boot [ans 2 [], fails EINTR, ans 0 [], ans 3 []]) of
      Some (r, w') \<Rightarrow> r = 5 \<and> sent 3 w' = ''hello'' | None \<Rightarrow> False)"
proof -
  have "map_option fst (WriteAll 3 ''hello'' (boot [ans 2 [], fails EINTR, ans 0 [], ans 3 []])) = Some 5"
    by code_simp
  then obtain w' where e: "WriteAll 3 ''hello'' (boot [ans 2 [], fails EINTR, ans 0 [], ans 3 []]) = Some (5, w')"
    by auto
  from WriteAll_contract[OF e] have "sent 3 w' = ''hello''" by (auto simp: sent_def)
  then show ?thesis unfolding e by simp
qed

text \<open>C38: WriteAll returns on a descriptor that makes progress: as many positive answers as the buffer
  has bytes are enough, and then the whole buffer is reported.\<close>

theorem WriteAll_returns:
  assumes "length buf \<le> length (script w)" and "\<forall>a \<in> set (script w). 0 < a_ret a"
  shows "\<exists>w'. WriteAll fd buf w = Some (int (length buf), w') \<and> sent fd w' = sent fd w @ buf"
proof -
  obtain w' where l: "write_loop fd buf w = Some (0, w')" using wr.loop_returns[OF assms] by blast
  then have e: "WriteAll fd buf w = Some (int (length buf), w')" by (simp add: WriteAll_def)
  with WriteAll_cases[OF e] show ?thesis by auto
qed

theorem WriteAll_returns_witness:
  "\<exists>w'. WriteAll 3 ''abc'' (boot [ans 1 [], ans 9 [], ans 1 []]) = Some (int (length ''abc''), w') \<and>
     sent 3 w' = sent 3 (boot [ans 1 [], ans 9 [], ans 1 []]) @ ''abc''"
  by (rule WriteAll_returns) (simp_all add: ans_def)

text \<open>RecvAll has one of three outcomes: the whole length with exactly the next bytes the
  descriptor delivers, 0 after an orderly shutdown, or -1 with fewer bytes; no byte is lost or
  invented between the descriptor and the buffer.\<close>

lemma RecvAll_contract:
  assumes "RecvAll fd n w = Some (r, d, w')"
  shows "received fd w' = received fd w @ d \<and> balance w' = balance w \<and>
         (r = int n \<and> length d = n \<or> r = 0 \<and> d = [] \<or> r = - 1 \<and> length d < n)"
  using RecvAll_spec[OF assms] by blast

lemma RecvAll_contract_example:
  "(case RecvAll 3 4 (boot [ans 2 ''ab'', fails EINTR, ans 0 [], ans 2 ''cd'']) of
      Some (r, d, w') \<Rightarrow> r = 4 \<and> received 3 w' = d | None \<Rightarrow> False)"
proof -
  have "map_option (\<lambda>(r, d, v). (r, d)) (RecvAll 3 4 (boot [ans 2 ''ab'', fails EINTR, ans 0 [], ans 2 ''cd''])) =
    Some (4, ''abcd'')" by code_simp
  then obtain w' where e: "RecvAll 3 4 (boot [ans 2 ''ab'', fails EINTR, ans 0 [], ans 2 ''cd'']) =
    Some (4, ''abcd'', w')" by auto
  from RecvAll_contract[OF e] show ?thesis unfolding e by (simp add: received_def)
qed

end
