(* ===== verification/CBytes.thy ===== *)
theory CBytes
  imports CText
begin

text \<open>
  Little-endian byte layout of the integers in the structures that cross a socket or a device
  (the supported targets, x86-64 and aarch64, are little-endian LP64), and the length-framed
  text messages: a head, the length of the body in a fixed number of decimal digits, the body.
  The locale \<open>framed_message\<close> holds the laws of a framed message; the components that build
  one interpret it on their own builders.
\<close>

section \<open>Little-endian integers\<close>

fun le_bytes :: "nat \<Rightarrow> nat \<Rightarrow> string" where
  "le_bytes 0 n = []"
| "le_bytes (Suc k) n = char_of (n mod 256) # le_bytes k (n div 256)"

fun le_nat :: "string \<Rightarrow> nat" where
  "le_nat [] = 0"
| "le_nat (c # cs) = char_val c + 256 * le_nat cs"

text \<open>A signed 64-bit field.\<close>

definition le_i64 :: "string \<Rightarrow> int" where
  "le_i64 s = (let n = int (le_nat s) in if n < 2 ^ 63 then n else n - 2 ^ 64)"

definition bytes_i64 :: "int \<Rightarrow> string" where
  "bytes_i64 i = le_bytes 8 (nat (i mod 2 ^ 64))"

lemma length_le_bytes [simp]: "length (le_bytes k n) = k"
  by (induction k n rule: le_bytes.induct) auto

lemma le_nat_bytes [simp]: "le_nat (le_bytes k n) = n mod 256 ^ k"
proof (induction k n rule: le_bytes.induct)
  case (1 n)
  then show ?case by simp
next
  case (2 k n)
  have "n mod 256 + 256 * (n div 256 mod 256 ^ k) = n mod (256 * 256 ^ k)"
    by (simp add: mod_mult2_eq)
  with 2 show ?case by (simp add: char_val_char_of)
qed

lemma le_bytes_inj: "length s = k \<Longrightarrow> le_bytes k (le_nat s) = s"
proof (induction s arbitrary: k)
  case Nil
  then show ?case by simp
next
  case (Cons c cs)
  then obtain j where k: "k = Suc j" and j: "length cs = j" by auto
  have "char_val c < 256" by (rule char_val_bound)
  then have "(char_val c + 256 * le_nat cs) mod 256 = char_val c"
    and "(char_val c + 256 * le_nat cs) div 256 = le_nat cs" by simp_all
  with Cons.IH[OF j] k show ?case by (simp add: char_val_def)
qed

lemma length_bytes_i64 [simp]: "length (bytes_i64 i) = 8"
  by (simp add: bytes_i64_def)

lemma le_i64_bytes: "- (2 ^ 63) \<le> i \<Longrightarrow> i < 2 ^ 63 \<Longrightarrow> le_i64 (bytes_i64 i) = i"
proof -
  assume h: "- (2 ^ 63) \<le> i" "i < 2 ^ 63"
  have "nat (i mod 2 ^ 64) < 256 ^ 8" by (simp add: nat_less_iff)
  then have n: "int (le_nat (bytes_i64 i)) = i mod 2 ^ 64" by (simp add: bytes_i64_def)
  show ?thesis
  proof (cases "0 \<le> i")
    case True
    with h n show ?thesis by (simp add: le_i64_def Let_def)
  next
    case False
    have "i mod 2 ^ 64 = (i + 2 ^ 64) mod 2 ^ 64" by simp
    also have "\<dots> = i + 2 ^ 64" using False h by (intro mod_pos_pos_trivial) simp_all
    finally have "i mod 2 ^ 64 = i + 2 ^ 64" .
    with False h n show ?thesis by (simp add: le_i64_def Let_def)
  qed
qed

lemma le_i64_range: "length s = 8 \<Longrightarrow> - (2 ^ 63) \<le> le_i64 s \<and> le_i64 s < 2 ^ 63"
proof -
  assume "length s = 8"
  then have "le_nat s < 256 ^ 8" 
    by (metis le_bytes_inj le_nat_bytes mod_less_divisor zero_less_numeral zero_less_power)
  then show ?thesis by (simp add: le_i64_def Let_def)
qed

section \<open>Framed text messages\<close>

locale framed_message =
  fixes build :: "string \<Rightarrow> string \<Rightarrow> string"
    and head_len :: nat
    and digits :: nat
  assumes build_frame: "build h b = h @ pad0 digits (dec_nat (length b)) @ b"
    and digits_pos: "0 < digits"
begin

definition frame_ok :: "string \<Rightarrow> string \<Rightarrow> bool" where
  "frame_ok h b \<longleftrightarrow> length h = head_len \<and> length b < 10 ^ digits"

lemma length_field:
  assumes "frame_ok h b"
  shows "length (pad0 digits (dec_nat (length b))) = digits"
  using assms digits_pos by (intro pad0_length length_dec_nat) (auto simp: frame_ok_def)

text \<open>The receiver finds the head, the announced length and the body at fixed positions.\<close>

lemma frame_parts:
  assumes "frame_ok h b"
  shows "take head_len (build h b) = h"
    and "nat_of_digits (take digits (drop head_len (build h b))) = length b"
    and "drop (head_len + digits) (build h b) = b"
    and "length (build h b) = head_len + digits + length b"
  using assms length_field[OF assms] by (simp_all add: build_frame frame_ok_def)

lemma frame_digits:
  assumes "frame_ok h b"
  shows "\<forall>c \<in> set (take digits (drop head_len (build h b))). is_digit c"
  using assms length_field[OF assms] pad0_digits[OF dec_nat_digits]
  by (simp add: build_frame frame_ok_def)

lemma build_inject:
  assumes "frame_ok h b" and "frame_ok h' b'" and "build h b = build h' b'"
  shows "h = h' \<and> b = b'"
  using frame_parts(1,3)[OF assms(1)] frame_parts(1,3)[OF assms(2)] assms(3) by simp

end

end
