(* ===== verification/XalarmMsg.thy ===== *)
theory XalarmMsg
  imports IoUtils CBytes
begin

text \<open>
  The reporting half of \<open>src/libs/libxalarm/register_xalarm.c\<close>: the layout of
  \<open>struct alarm_info\<close>, \<open>xalarm_Report\<close> and \<open>xalarm_report_event\<close> (one datagram to xalarmd),
  \<open>cpu_alarm_Report\<close> (a framed text message to the BMC service) and \<open>report_result\<close> (a framed
  JSON text to sysSentry). The text of a JSON value is json-c's; it is the argument \<open>J\<close> of the
  definitions that print one. The last section holds the facts about these calls that other
  components use: the descriptors they open are closed again on every path.
\<close>

section \<open>Constants and the data\<close>

abbreviation ALARM_INFO_MAX_PARAS_LEN :: nat where "ALARM_INFO_MAX_PARAS_LEN \<equiv> 8192"
abbreviation MAX_PARAS_LEN :: int where "MAX_PARAS_LEN \<equiv> 8191"
abbreviation MAX_NUM_OF_ALARM_ID :: nat where "MAX_NUM_OF_ALARM_ID \<equiv> 128"
abbreviation MIN_ALARM_ID :: int where "MIN_ALARM_ID \<equiv> 1001"
abbreviation MAX_ALARM_ID :: int where "MAX_ALARM_ID \<equiv> 1128"
abbreviation MINOR_ALM :: int where "MINOR_ALM \<equiv> 1"
abbreviation CRITICAL_ALM :: int where "CRITICAL_ALM \<equiv> 3"
abbreviation ALARM_TYPE_OCCUR :: int where "ALARM_TYPE_OCCUR \<equiv> 1"
abbreviation ALARM_TYPE_RECOVER :: int where "ALARM_TYPE_RECOVER \<equiv> 2"
abbreviation SOCK_STREAM :: int where "SOCK_STREAM \<equiv> 1"
abbreviation SOCK_DGRAM :: int where "SOCK_DGRAM \<equiv> 2"
abbreviation SUN_PATH_LEN :: int where "SUN_PATH_LEN \<equiv> 108"
abbreviation MAX_CHAR_LEN :: int where "MAX_CHAR_LEN \<equiv> 128"
abbreviation NUL :: char where "NUL \<equiv> CHR 0x00"

definition PATH_REG_ALARM :: string where "PATH_REG_ALARM = ''/var/run/xalarm/alarm''"
definition PATH_REPORT_ALARM :: string where "PATH_REPORT_ALARM = ''/var/run/xalarm/report''"
definition PATH_REPORT_CPU_ALARM :: string where
  "PATH_REPORT_CPU_ALARM = ''/var/run/sysSentry/report.sock''"
definition RESULT_REPORT_SOCKET :: string where
  "RESULT_REPORT_SOCKET = ''/var/run/sysSentry/result.sock''"
definition DIR_XALARM :: string where "DIR_XALARM = ''/var/run/xalarm''"

text \<open>\<open>struct alarm_info\<close>; \<open>pucParas\<close> is the whole 8192-byte buffer.\<close>

record alarm_info =
  usAlarmId :: int
  ucAlarmLevel :: int
  ucAlarmType :: int
  tv_sec :: int
  tv_usec :: int
  pucParas :: string

text \<open>A buffer of \<open>n\<close> bytes cleared with \<open>memset\<close> and then filled from its start.\<close>

definition fill :: "nat \<Rightarrow> string \<Rightarrow> string" where
  "fill n s = take n (s @ replicate n NUL)"

definition encode_alarm_info :: "alarm_info \<Rightarrow> string" where
  "encode_alarm_info i =
     le_bytes 2 (nat (usAlarmId i)) @ le_bytes 1 (nat (ucAlarmLevel i)) @
     le_bytes 1 (nat (ucAlarmType i)) @ replicate 4 NUL @
     bytes_i64 (tv_sec i) @ bytes_i64 (tv_usec i) @ pucParas i"

definition decode_alarm_info :: "string \<Rightarrow> alarm_info" where
  "decode_alarm_info b =
     \<lparr>usAlarmId = int (le_nat (take 2 b)), ucAlarmLevel = int (le_nat (take 1 (drop 2 b))),
      ucAlarmType = int (le_nat (take 1 (drop 3 b))), tv_sec = le_i64 (take 8 (drop 8 b)),
      tv_usec = le_i64 (take 8 (drop 16 b)), pucParas = drop 24 b\<rparr>"

abbreviation ALARM_INFO_SIZE :: nat where "ALARM_INFO_SIZE \<equiv> 8216"

definition wf_alarm_info :: "alarm_info \<Rightarrow> bool" where
  "wf_alarm_info i \<longleftrightarrow>
     0 \<le> usAlarmId i \<and> usAlarmId i < 2 ^ 16 \<and> 0 \<le> ucAlarmLevel i \<and> ucAlarmLevel i < 2 ^ 8 \<and>
     0 \<le> ucAlarmType i \<and> ucAlarmType i < 2 ^ 8 \<and>
     - (2 ^ 63) \<le> tv_sec i \<and> tv_sec i < 2 ^ 63 \<and> - (2 ^ 63) \<le> tv_usec i \<and> tv_usec i < 2 ^ 63 \<and>
     length (pucParas i) = ALARM_INFO_MAX_PARAS_LEN"

text \<open>JSON values as json-c builds them; a NULL text is a JSON null.\<close>

datatype json =
    JNull
  | JString string
  | JInt int
  | JArray "json list"
  | JObject "(string \<times> json) list"

definition json_new_string :: "string option \<Rightarrow> json" where
  "json_new_string s = (case s of None \<Rightarrow> JNull | Some t \<Rightarrow> JString t)"

section \<open>One datagram: xalarm_Report and xalarm_report_event\<close>

definition gettimeofday :: "world \<Rightarrow> (int \<times> int \<times> world) option" where
  "gettimeofday w = do {
     (_, d, w) \<leftarrow> fetch Q_gettime w;
     Some (le_i64 (take 8 (fill 16 d)), le_i64 (drop 8 (fill 16 d)), w) }"

definition init_report_addr :: "bool \<Rightarrow> string \<Rightarrow> int \<times> string" where
  "init_report_addr addr_null report_path =
     (if addr_null then (- 1, [])
      else let (sun_path, ret) = snprintf (nat SUN_PATH_LEN) report_path in
        if ret < 0 \<or> SUN_PATH_LEN \<le> ret then (- 1, sun_path) else (0, sun_path))"

text \<open>The \<open>sendto\<close> loop of both functions: only EINTR is retried.\<close>

function sendto_retry :: "int \<Rightarrow> string \<Rightarrow> string \<Rightarrow> world \<Rightarrow> (int \<times> world) option" where
  "sendto_retry fd msg addr w = do {
     (ret, w) \<leftarrow> call (Q_sendto fd msg addr) w;
     if ret < 0 \<and> errno w = EINTR then sendto_retry fd msg addr w else Some (ret, w) }"
  by pat_completeness auto
termination
  by (relation "measure (\<lambda>(fd, msg, addr, w). length (script w))") (auto dest!: call_script)

declare sendto_retry.simps [simp del]

definition xalarm_Report ::
  "int \<Rightarrow> int \<Rightarrow> int \<Rightarrow> string option \<Rightarrow> world \<Rightarrow> (int \<times> world) option" where
  "xalarm_Report alarm_id level typ paras w =
     (if (alarm_id < MIN_ALARM_ID \<or> MAX_ALARM_ID < alarm_id) \<or> (level < MINOR_ALM \<or> CRITICAL_ALM < level) \<or>
         (typ < ALARM_TYPE_OCCUR \<or> ALARM_TYPE_RECOVER < typ) then Some (- 1, w)
      else case paras of
        None \<Rightarrow> Some (- 1, w)
      | Some p \<Rightarrow>
          if MAX_PARAS_LEN < to_i32 (int (length p)) then Some (- 1, w)
          else do {
            (sec, usec, w) \<leftarrow> gettimeofday w;
            let (text, ret) = snprintf ALARM_INFO_MAX_PARAS_LEN p;
            if ret < 0 \<or> int ALARM_INFO_MAX_PARAS_LEN \<le> ret then Some (- 1, w)
            else do {
              let info = \<lparr>usAlarmId = alarm_id, ucAlarmLevel = level, ucAlarmType = typ,
                          tv_sec = sec, tv_usec = usec,
                          pucParas = fill ALARM_INFO_MAX_PARAS_LEN text\<rparr>;
              (fd, w) \<leftarrow> call (Q_socket SOCK_DGRAM) w;
              if fd < 0 then Some (- ENODEV, w)
              else do {
                let (ret, addr) = init_report_addr False PATH_REPORT_ALARM;
                if ret = - 1 then do { (_, w) \<leftarrow> call (Q_close fd) w; Some (- 1, w) }
                else do {
                  (ret, w) \<leftarrow> sendto_retry fd (encode_alarm_info info) addr w;
                  (_, w) \<leftarrow> call (Q_close fd) w;
                  Some (if 0 < ret then 0 else - 1, w) } } } })"

definition xalarm_report_event ::
  "int \<Rightarrow> string option \<Rightarrow> nat \<Rightarrow> world \<Rightarrow> (int \<times> world) option" where
  "xalarm_report_event alarm_id paras len w =
     (if alarm_id < MIN_ALARM_ID \<or> MAX_ALARM_ID < alarm_id then Some (- EINVAL, w)
      else case paras of
        None \<Rightarrow> Some (- EINVAL, w)
      | Some p \<Rightarrow>
          if len = 0 \<or> MAX_PARAS_LEN < int len then Some (- EINVAL, w)
          else if length (cstr (take len p)) \<noteq> len then Some (- EINVAL, w)
          else do {
            (sec, usec, w) \<leftarrow> gettimeofday w;
            let info = \<lparr>usAlarmId = alarm_id, ucAlarmLevel = MINOR_ALM, ucAlarmType = ALARM_TYPE_OCCUR,
                        tv_sec = sec, tv_usec = usec,
                        pucParas = (fill ALARM_INFO_MAX_PARAS_LEN (take len p))
                                     [ALARM_INFO_MAX_PARAS_LEN - 1 := NUL]\<rparr>;
            (fd, w) \<leftarrow> call (Q_socket SOCK_DGRAM) w;
            if fd < 0 then Some (- ENODEV, w)
            else do {
              let (ret, addr) = init_report_addr False PATH_REPORT_ALARM;
              if ret = - 1 then do { (_, w) \<leftarrow> call (Q_close fd) w; Some (- ENOTCONN, w) }
              else do {
                (ret, w) \<leftarrow> sendto_retry fd (encode_alarm_info info) addr w;
                (_, w) \<leftarrow> call (Q_close fd) w;
                if ret \<noteq> int ALARM_INFO_SIZE then Some (- ECOMM, w)
                else Some (if 0 < ret then 0 else - errno w, w) } } })"

section \<open>cpu_alarm_Report\<close>

definition is_valid_report_module :: "int \<Rightarrow> bool" where
  "is_valid_report_module m \<longleftrightarrow> m = 0"

definition is_valid_report_type :: "int \<Rightarrow> bool" where
  "is_valid_report_type t \<longleftrightarrow> t = 0 \<or> t = 1"

definition is_valid_report_trans_to :: "int \<Rightarrow> bool" where
  "is_valid_report_trans_to t \<longleftrightarrow> t = 1"

definition check_params :: "int \<Rightarrow> int \<Rightarrow> int \<Rightarrow> int \<Rightarrow> bool" where
  "check_params type module trans_to report_info_len =
     (let is_valid_type = is_valid_report_type type;
          is_valid_module = is_valid_report_module module;
          is_valid_trans_to = is_valid_report_trans_to trans_to;
          is_valid_report_info_len = (0 \<le> report_info_len \<and> report_info_len \<le> 999)
      in is_valid_type \<and> is_valid_module \<and> is_valid_trans_to \<and> is_valid_report_info_len)"

text \<open>\<open>"%u %u %d %d"\<close> and \<open>"REP%1u%1u%02u%03d%s"\<close>.\<close>

definition report_info_text :: "int \<Rightarrow> int \<Rightarrow> int \<Rightarrow> int \<Rightarrow> string" where
  "report_info_text command event_type socket_id core_id =
     dec_nat (nat command) @ '' '' @ dec_nat (nat event_type) @ '' '' @
     dec_int socket_id @ '' '' @ dec_int core_id"

definition cpu_msg_head :: "int \<Rightarrow> int \<Rightarrow> int \<Rightarrow> string" where
  "cpu_msg_head type module trans_to =
     ''REP'' @ dec_nat (nat type) @ dec_nat (nat module) @ pad0 2 (dec_nat (nat trans_to))"

definition cpu_msg_text :: "string \<Rightarrow> string \<Rightarrow> string" where
  "cpu_msg_text head info = head @ pad0 3 (dec_nat (length info)) @ info"

text \<open>
  The connect loop: EINTR is retried; after any other failure the message is still written to
  the unconnected socket.
\<close>

function connect_write :: "int \<Rightarrow> string \<Rightarrow> string \<Rightarrow> world \<Rightarrow> (int \<times> world) option" where
  "connect_write fd addr msg w = do {
     (ret, w) \<leftarrow> call (Q_connect fd addr) w;
     if ret < 0 \<and> errno w = EINTR then connect_write fd addr msg w
     else WriteAll fd msg w }"
  by pat_completeness auto
termination
  by (relation "measure (\<lambda>(fd, addr, msg, w). length (script w))") (auto dest!: call_script)

declare connect_write.simps [simp del]

definition cpu_alarm_Report ::
  "int \<Rightarrow> int \<Rightarrow> int \<Rightarrow> int \<Rightarrow> int \<Rightarrow> int \<Rightarrow> int \<Rightarrow> world \<Rightarrow> (int \<times> world) option" where
  "cpu_alarm_Report type module trans_to command event_type socket_id core_id w = do {
     (fd, w) \<leftarrow> call (Q_socket SOCK_STREAM) w;
     if fd < 0 then Some (- 1, w)
     else do {
       let fail = (\<lambda>w. do { (_, w) \<leftarrow> call (Q_close fd) w; Some (- 1, w) });
       let (ret, addr) = init_report_addr False PATH_REPORT_CPU_ALARM;
       if ret = - 1 then fail w
       else do {
         let (report_info, report_info_len) =
           snprintf (nat MAX_CHAR_LEN) (report_info_text command event_type socket_id core_id);
         if report_info_len < 0 \<or> MAX_CHAR_LEN \<le> report_info_len then fail w
         else if \<not> check_params type module trans_to report_info_len then fail w
         else do {
           let (alarm_msg, alarm_msg_len) = snprintf (nat MAX_CHAR_LEN)
             (cpu_msg_text (cpu_msg_head type module trans_to) report_info);
           if alarm_msg_len < 0 \<or> MAX_CHAR_LEN \<le> alarm_msg_len then fail w
           else do {
             (ret, w) \<leftarrow> connect_write fd addr alarm_msg w;
             (_, w) \<leftarrow> call (Q_close fd) w;
             Some (if 0 < ret then 0 else - 1, w) } } } } }"

section \<open>report_result\<close>

definition send_data_to_socket :: "string \<Rightarrow> string \<Rightarrow> world \<Rightarrow> (int \<times> world) option" where
  "send_data_to_socket socket_path message w = do {
     (sockfd, w) \<leftarrow> call (Q_socket SOCK_STREAM) w;
     if sockfd = - 1 then Some (- 1, w)
     else do {
       let fail = (\<lambda>w. do { (_, w) \<leftarrow> call (Q_close sockfd) w; Some (- 1, w) });
       let (sun_path, ret) = snprintf (nat SUN_PATH_LEN) socket_path;
       if ret < 0 \<or> SUN_PATH_LEN \<le> ret then fail w
       else do {
         (c, w) \<leftarrow> call (Q_connect sockfd sun_path) w;
         if c = - 1 then fail w
         else do {
           (n, w) \<leftarrow> WriteAll sockfd message w;
           if n < 0 then fail w
           else do { (_, w) \<leftarrow> call (Q_close sockfd) w; Some (0, w) } } } } }"

definition is_word_char :: "char \<Rightarrow> bool" where
  "is_word_char c \<longleftrightarrow> is_alpha c \<or> is_digit c \<or> c = CHR ''_''"

text \<open>\<open>^[a-zA-Z][a-zA-Z0-9_]*$\<close>, the pattern of a task name.\<close>

definition task_name_regex :: "string \<Rightarrow> bool" where
  "task_name_regex s \<longleftrightarrow> (case s of [] \<Rightarrow> False | c # cs \<Rightarrow> is_alpha c \<and> list_all is_word_char cs)"

definition is_valid_task_name :: "string option \<Rightarrow> bool" where
  "is_valid_task_name task_name = (case task_name of
      None \<Rightarrow> False
    | Some s \<Rightarrow>
        if \<not> (case s of [] \<Rightarrow> False | c # _ \<Rightarrow> is_alpha c) then False
        else if 256 < length s then False
        else task_name_regex s)"

definition result_level_string :: "int \<Rightarrow> string" where
  "result_level_string l =
     [''PASS'', ''FAIL'', ''SKIP'', ''MINOR_ALM'', ''MAJOR_ALM'', ''CRITICAL_ALM''] ! nat l"

definition result_json :: "string \<Rightarrow> int \<Rightarrow> string option \<Rightarrow> json" where
  "result_json task_name level report_data =
     JObject [(''result_data'',
                JObject [(''result'', JString (result_level_string level)),
                         (''details'', json_new_string report_data)]),
              (''task_name'', JString task_name)]"

definition result_msg_text :: "string \<Rightarrow> string \<Rightarrow> string" where
  "result_msg_text head body = head @ pad0 4 (dec_nat (length body)) @ body"

definition report_result ::
  "(json \<Rightarrow> string) \<Rightarrow> string option \<Rightarrow> int \<Rightarrow> string option \<Rightarrow> world \<Rightarrow> (int \<times> world) option" where
  "report_result J task_name level report_data w =
     (if level < 0 \<or> 6 \<le> level then Some (- 1, w)
      else if \<not> is_valid_task_name task_name then Some (- 1, w)
      else do {
        (r, w) \<leftarrow> call (Q_library ''json_object_to_json_string'' []) w;
        if r < 0 then Some (- 1, w)
        else do {
          let text = J (result_json (the task_name) level report_data);
          let n = length text;
          if 4096 < n then Some (- 1, w)
          else do {
            (message, w) \<leftarrow> call (Q_malloc (10 + n + 1)) w;
            if message < 0 then Some (- 1, w)
            else do {
              let (msg, len) = snprintf (10 + n + 1) (result_msg_text ''RESULT'' text);
              if len < 0 \<or> int (10 + n + 1) \<le> len then Some (- 1, w)
              else do {
                (s, w) \<leftarrow> send_data_to_socket RESULT_REPORT_SOCKET msg w;
                (_, w) \<leftarrow> call (Q_free message) w;
                Some (if s \<noteq> 0 then - 1 else 0, w) } } } } })"

section \<open>The layout of the record, and what was sent\<close>

lemma length_fill [simp]: "length (fill n s) = n"
  by (simp add: fill_def)

lemma cstr_fill: "NUL \<notin> set s \<Longrightarrow> length s < n \<Longrightarrow> cstr (fill n s) = s"
  by (auto simp: fill_def cstr_def takeWhile_append)

lemma length_encode:
  "wf_alarm_info i \<Longrightarrow> length (encode_alarm_info i) = ALARM_INFO_SIZE"
  by (simp add: encode_alarm_info_def wf_alarm_info_def)

lemma alarm_info_roundtrip: "wf_alarm_info i \<Longrightarrow> decode_alarm_info (encode_alarm_info i) = i"
  by (auto simp: wf_alarm_info_def encode_alarm_info_def decode_alarm_info_def le_i64_bytes
       nat_less_iff intro!: alarm_info.equality)


text \<open>What was sent as datagrams: address and accepted bytes.\<close>

definition ev_dgram :: "event \<Rightarrow> (string \<times> string) list" where
  "ev_dgram e = (case e of
      (Q_sendto fd m p, a) \<Rightarrow> if 0 \<le> a_ret a then [(p, take (nat (a_ret a)) m)] else []
    | _ \<Rightarrow> [])"

definition dgrams :: "world \<Rightarrow> (string \<times> string) list" where
  "dgrams w = concat (map ev_dgram (trace w))"

lemma call_sendto:
  assumes "call (Q_sendto fd m p) w = Some (r, w')"
  shows "- 1 \<le> r \<and> r \<le> int (length m)"
    and "dgrams w' = dgrams w @ (if 0 \<le> r then [(p, take (nat r) m)] else [])"
    and "balance w' = balance w"
  using assms call_balance[OF assms]
  by (auto simp: call_Some sys_Some posix_def dgrams_def ev_dgram_def)

lemma call_other_dgrams:
  "call q w = Some (r, w') \<Longrightarrow> \<forall>fd m p. q \<noteq> Q_sendto fd m p \<Longrightarrow> dgrams w' = dgrams w"
  "fetch q w = Some (r, d, w') \<Longrightarrow> \<forall>fd m p. q \<noteq> Q_sendto fd m p \<Longrightarrow> dgrams w' = dgrams w"
  by (auto simp: call_Some fetch_Some sys_Some dgrams_def ev_dgram_def split: sysreq.splits)

lemma sendto_retry_spec:
  "sendto_retry fd m p w = Some (r, w') \<Longrightarrow>
     - 1 \<le> r \<and> r \<le> int (length m) \<and> (r < 0 \<longrightarrow> errno w' \<noteq> EINTR) \<and> balance w' = balance w \<and>
     dgrams w' = dgrams w @ (if 0 \<le> r then [(p, take (nat r) m)] else [])"
proof (induction fd m p w rule: sendto_retry.induct)
  case (1 fd m p w)
  from "1.prems" obtain n v where c: "call (Q_sendto fd m p) w = Some (n, v)"
    by (subst (asm) sendto_retry.simps) (auto simp: bind_eq_Some_conv)
  note f = call_sendto[OF c]
  show ?case
  proof (cases "n < 0 \<and> errno v = EINTR")
    case True
    with "1.prems" c have "sendto_retry fd m p v = Some (r, w')"
      by (subst (asm) sendto_retry.simps) simp
    from "1.IH"[OF c refl True this] True f show ?thesis by simp
  next
    case False
    with "1.prems" c have "r = n" "w' = v" by (subst (asm) sendto_retry.simps, simp)+
    with f False show ?thesis by simp
  qed
qed

lemma gettimeofday_spec:
  assumes "gettimeofday w = Some (s, u, w')"
  shows "- (2 ^ 63) \<le> s \<and> s < 2 ^ 63 \<and> - (2 ^ 63) \<le> u \<and> u < 2 ^ 63"
    and "balance w' = balance w" and "dgrams w' = dgrams w"
  using assms le_i64_range
  by (auto simp: gettimeofday_def bind_eq_Some_conv fetch_balance call_other_dgrams)

lemma init_report_addr_paths [simp]:
  "init_report_addr False PATH_REPORT_ALARM = (0, PATH_REPORT_ALARM)"
  "init_report_addr False PATH_REPORT_CPU_ALARM = (0, PATH_REPORT_CPU_ALARM)"
  by (simp_all add: init_report_addr_def PATH_REPORT_ALARM_def PATH_REPORT_CPU_ALARM_def snprintf_def)

lemma set_cstr: "NUL \<notin> set (cstr s)"
  by (auto simp: cstr_def dest: set_takeWhileD)

lemma cstr_full: "length (cstr (take n s)) = n \<Longrightarrow> cstr (take n s) = take n s \<and> n \<le> length s"
  unfolding cstr_def by (metis length_take length_takeWhile_le min.bounded_iff min_def takeWhile_eq_take take_all take_take nle_le)

text \<open>The two ways \<open>xalarm_report_event\<close> can end.\<close>

lemma report_event_cases:
  assumes "xalarm_report_event aid paras len w = Some (r, w')"
  shows "balance w' = balance w \<and>
    ((\<exists>p i. r = 0 \<and> MIN_ALARM_ID \<le> aid \<and> aid \<le> MAX_ALARM_ID \<and> paras = Some p \<and>
        0 < len \<and> len \<le> 8191 \<and> NUL \<notin> set (take len p) \<and> len \<le> length p \<and>
        wf_alarm_info i \<and> usAlarmId i = aid \<and> cstr (pucParas i) = take len p \<and>
        dgrams w' = dgrams w @ [(PATH_REPORT_ALARM, encode_alarm_info i)]) \<or>
     (r \<in> {- EINVAL, - ENODEV, - ECOMM} \<and>
        (dgrams w' = dgrams w \<or>
         (\<exists>d. length d < ALARM_INFO_SIZE \<and> dgrams w' = dgrams w @ [(PATH_REPORT_ALARM, d)]))))"
proof (cases "aid < MIN_ALARM_ID \<or> MAX_ALARM_ID < aid \<or> paras = None \<or> len = 0 \<or>
      MAX_PARAS_LEN < int len \<or> length (cstr (take len (the paras))) \<noteq> len")
  case True
  with assms show ?thesis
    by (auto simp: xalarm_report_event_def split: if_splits option.splits)
next
  case ok: False
  then obtain p where p: "paras = Some p" by auto
  from ok p have c: "cstr (take len p) = take len p" "len \<le> length p" by (auto dest: cstr_full)
  from assms ok p obtain sec usec u fd v where
    g: "gettimeofday w = Some (sec, usec, u)" and s: "call (Q_socket SOCK_DGRAM) u = Some (fd, v)"
    by (auto simp: xalarm_report_event_def bind_eq_Some_conv)
  show ?thesis
  proof (cases "fd < 0")
    case True
    with assms ok p g s gettimeofday_spec[OF g] call_balance[OF s] call_other_dgrams(1)[OF s]
    show ?thesis by (auto simp: xalarm_report_event_def)
  next
    case False
    define i where "i = \<lparr>usAlarmId = aid, ucAlarmLevel = MINOR_ALM, ucAlarmType = ALARM_TYPE_OCCUR,
        tv_sec = sec, tv_usec = usec, pucParas = (fill ALARM_INFO_MAX_PARAS_LEN (take len p))
          [ALARM_INFO_MAX_PARAS_LEN - 1 := NUL]\<rparr>"
    have wf: "wf_alarm_info i" using ok gettimeofday_spec(1)[OF g] by (simp add: i_def wf_alarm_info_def)
    from assms ok p g s False obtain n x y z where t: "sendto_retry fd (encode_alarm_info i) PATH_REPORT_ALARM v = Some (n, x)"
      and cl: "call (Q_close fd) x = Some (y, w')"
      and r: "r = (if n \<noteq> int ALARM_INFO_SIZE then - ECOMM else 0)"
      by (auto simp: xalarm_report_event_def bind_eq_Some_conv i_def split: if_splits)
    note st = sendto_retry_spec[OF t]
    have "balance w' = balance w"
      using call_balance[OF cl] call_balance[OF s] gettimeofday_spec(2)[OF g] st False
      by (simp add: fun_eq_iff add.assoc)
    moreover have d: "dgrams w' = dgrams w @ (if 0 \<le> n then [(PATH_REPORT_ALARM, take (nat n) (encode_alarm_info i))] else [])"
      using call_other_dgrams(1)[OF cl] call_other_dgrams(1)[OF s] gettimeofday_spec(3)[OF g] st by simp
    moreover have "cstr (pucParas i) = take len p"
    proof -
      have "(fill ALARM_INFO_MAX_PARAS_LEN (take len p)) [ALARM_INFO_MAX_PARAS_LEN - 1 := NUL]
           = fill ALARM_INFO_MAX_PARAS_LEN (take len p)"
        using ok p c(2) by (auto simp: fill_def nth_append intro!: list_update_same_conv[THEN iffD2])
      then show ?thesis using c set_cstr[of "take len p"] ok by (simp add: i_def cstr_fill)
    qed
    ultimately show ?thesis
      using r wf ok p c set_cstr[of "take len p"] st length_encode[OF wf] i_def
      by (cases "n = int ALARM_INFO_SIZE")
         (auto intro!: exI[of _ "take (nat n) (encode_alarm_info i)"] exI[of _ i])
  qed
qed

interpretation result_frame: framed_message result_msg_text 6 4
  by unfold_locales (simp_all add: result_msg_text_def)

interpretation cpu_frame: framed_message cpu_msg_text 7 3
  by unfold_locales (simp_all add: cpu_msg_text_def)

lemma connect_write_cases:
  "connect_write fd p m w = Some (r, w') \<Longrightarrow> balance w' = balance w \<and>
     (r = int (length m) \<and> sent fd w' = sent fd w @ m \<or> r = - 1)"
proof (induction fd p m w rule: connect_write.induct)
  case (1 fd p m w)
  from "1.prems" obtain n v where c: "call (Q_connect fd p) w = Some (n, v)"
    by (subst (asm) connect_write.simps) (auto simp: bind_eq_Some_conv)
  have f: "balance v = balance w" "sent fd v = sent fd w"
    using call_balance[OF c] call_other_sent(1)[OF c] by (auto simp: is_output_def)
  show ?case
  proof (cases "n < 0 \<and> errno v = EINTR")
    case True
    with "1.prems" c have "connect_write fd p m v = Some (r, w')"
      by (subst (asm) connect_write.simps) simp
    from "1.IH"[OF c refl True this] f show ?thesis by simp
  next
    case False
    with "1.prems" c have "WriteAll fd m v = Some (r, w')"
      by (subst (asm) connect_write.simps) simp
    with f WriteAll_cases[OF this] WriteAll_balance[OF this] show ?thesis by auto
  qed
qed


lemma snprintf_fits: "snprintf n s = (b, l) \<Longrightarrow> l < int n \<Longrightarrow> b = s \<and> l = int (length s)"
  by (auto simp: snprintf_def)

lemma snprintf_fits_eq: "length s < n \<Longrightarrow> snprintf n s = (s, int (length s))"
  by (auto simp: snprintf_def)

definition cpu_message :: "int \<Rightarrow> int \<Rightarrow> int \<Rightarrow> int \<Rightarrow> int \<Rightarrow> int \<Rightarrow> int \<Rightarrow> string" where
  "cpu_message type module trans_to command event_type socket_id core_id =
     cpu_msg_text (cpu_msg_head type module trans_to)
       (report_info_text command event_type socket_id core_id)"

lemma cpu_alarm_Report_cases:
  assumes "cpu_alarm_Report ty m tr cmd ev sk core w = Some (r, w')"
  shows "balance w' = balance w \<and> (r = - 1 \<or>
     r = 0 \<and> is_valid_report_type ty \<and> is_valid_report_module m \<and> is_valid_report_trans_to tr \<and>
     (\<exists>fd. sent fd w' = sent fd w @ cpu_message ty m tr cmd ev sk core))"
proof -
  from assms obtain fd v where s: "call (Q_socket SOCK_STREAM) w = Some (fd, v)"
    by (auto simp: cpu_alarm_Report_def bind_eq_Some_conv)
  note sb = call_balance[OF s] call_other_sent(1)[OF s]
  show ?thesis
  proof (cases "fd < 0")
    case True
    with assms s sb show ?thesis by (auto simp: cpu_alarm_Report_def)
  next
    case fd: False
    let ?info = "report_info_text cmd ev sk core"
    obtain ri rl where ri: "snprintf (nat MAX_CHAR_LEN) ?info = (ri, rl)" by fastforce
    obtain am al where am: "snprintf (nat MAX_CHAR_LEN) (cpu_msg_text (cpu_msg_head ty m tr) ri) = (am, al)"
      by fastforce
    show ?thesis
    proof (cases "rl < 0 \<or> MAX_CHAR_LEN \<le> rl \<or> \<not> check_params ty m tr rl \<or> al < 0 \<or> MAX_CHAR_LEN \<le> al")
      case True
      with assms s fd ri am obtain y where c: "call (Q_close fd) v = Some (y, w')" and r: "r = - 1"
        by (auto simp: cpu_alarm_Report_def Let_def bind_eq_Some_conv split: if_splits)
      with fd sb call_balance[OF c] show ?thesis by (simp add: fun_eq_iff add.assoc)
    next
      case False
      from ri am False have e: "am = cpu_message ty m tr cmd ev sk core" 
        by (auto simp: cpu_message_def dest!: snprintf_fits)
      from assms s fd ri am False obtain n u y where
        c: "connect_write fd PATH_REPORT_CPU_ALARM am v = Some (n, u)"
        and l: "call (Q_close fd) u = Some (y, w')" and r: "r = (if 0 < n then 0 else - 1)"
        by (auto simp: cpu_alarm_Report_def Let_def bind_eq_Some_conv split: if_splits)
      note cw = connect_write_cases[OF c] and lb = call_balance[OF l] call_other_sent(1)[OF l]
      have "balance w' = balance w"
        using fd sb(1) lb(1) cw by (simp add: fun_eq_iff add.assoc)
      moreover have "r = 0 \<Longrightarrow> sent fd w' = sent fd w @ am"
        using cw r lb(2)[of fd] sb(2)[of fd] by (auto simp: is_output_def)
      moreover have "is_valid_report_type ty \<and> is_valid_report_module m \<and> is_valid_report_trans_to tr"
        using False by (auto simp: check_params_def)
      ultimately show ?thesis using r e by auto
    qed
  qed
qed

text \<open>The texts of \<open>cpu_alarm_Report\<close> fit their buffers for every argument of the C types.\<close>

lemma report_info_length:
  assumes "0 \<le> cmd \<and> cmd < 2 ^ 16" and "0 \<le> ev \<and> ev < 2 ^ 16"
    and "- (2 ^ 31) \<le> sk \<and> sk < 2 ^ 31" and "- (2 ^ 31) \<le> core \<and> core < 2 ^ 31"
  shows "length (report_info_text cmd ev sk core) \<le> 35"
proof -
  have "length (dec_nat (nat cmd)) \<le> 5" and "length (dec_nat (nat ev)) \<le> 5"
    using assms by (auto intro!: length_dec_nat)
  moreover have "length (dec_int sk) \<le> Suc 10" and "length (dec_int core) \<le> Suc 10"
    using assms length_dec_int[of sk 10] length_dec_int[of core 10] by auto
  ultimately show ?thesis by (simp add: report_info_text_def)
qed

lemma cpu_head_length:
  "is_valid_report_type ty \<Longrightarrow> is_valid_report_module m \<Longrightarrow> is_valid_report_trans_to tr \<Longrightarrow>
   length (cpu_msg_head ty m tr) = 7"
  by (auto simp: is_valid_report_type_def is_valid_report_module_def is_valid_report_trans_to_def
      cpu_msg_head_def pad0_def dec_nat.simps)

lemma send_data_cases:
  assumes "send_data_to_socket p m w = Some (r, w')"
  shows "balance w' = balance w \<and> (r = - 1 \<or> r = 0 \<and> (\<exists>fd. sent fd w' = sent fd w @ m))"
proof -
  from assms obtain fd v where s: "call (Q_socket SOCK_STREAM) w = Some (fd, v)"
    by (auto simp: send_data_to_socket_def bind_eq_Some_conv)
  note sb = call_balance[OF s] call_other_sent(1)[OF s]
  show ?thesis
  proof (cases "fd = - 1")
    case True
    with assms s sb show ?thesis by (auto simp: send_data_to_socket_def)
  next
    case False
    with call_ge[OF s] have fd: "0 \<le> fd" by simp
    show ?thesis
    proof (cases "SUN_PATH_LEN \<le> int (length p)")
      case True
      with assms s False obtain y where c: "call (Q_close fd) v = Some (y, w')" and r: "r = - 1"
        by (auto simp: send_data_to_socket_def Let_def snprintf_def bind_eq_Some_conv split: if_splits)
      with fd sb call_balance[OF c] show ?thesis by (simp add: fun_eq_iff add.assoc)
    next
      case short: False
      with assms s False obtain c u y where c: "call (Q_connect fd p) v = Some (c, u)"
        and tl: "c = - 1 \<and> call (Q_close fd) u = Some (y, w') \<and> r = - 1 \<or>
          (\<exists>n x. WriteAll fd m u = Some (n, x) \<and> call (Q_close fd) x = Some (y, w') \<and> r = (if n < 0 then - 1 else 0))"
        by (auto simp: send_data_to_socket_def Let_def snprintf_def bind_eq_Some_conv split: if_splits)
      note cb = call_balance[OF c] call_other_sent(1)[OF c]
      from tl show ?thesis
      proof (elim disjE exE conjE)
        assume l: "call (Q_close fd) u = Some (y, w')" and r: "r = - 1"
        with fd sb cb call_balance[OF l] show ?thesis by (simp add: fun_eq_iff add.assoc)
      next
        fix n x
        assume wa: "WriteAll fd m u = Some (n, x)" and l: "call (Q_close fd) x = Some (y, w')"
          and r: "r = (if n < 0 then - 1 else 0)"
        have "balance w' = balance w"
          using fd sb cb call_balance[OF l] WriteAll_balance[OF wa] by (simp add: fun_eq_iff add.assoc)
        moreover have "r = 0 \<Longrightarrow> sent fd w' = sent fd w @ m"
          using r WriteAll_cases[OF wa] cb(2)[of fd] sb(2)[of fd] call_other_sent(1)[OF l, of fd]
          by (auto simp: is_output_def split: if_splits)
        ultimately show ?thesis using r by auto
      qed
    qed
  qed
qed


lemma is_valid_task_name_iff:
  "is_valid_task_name n \<longleftrightarrow> (\<exists>s. n = Some s \<and> length s \<le> 256 \<and> task_name_regex s)"
  by (auto simp: is_valid_task_name_def task_name_regex_def split: option.splits list.splits)

text \<open>The buffer of \<open>report_result\<close> is always large enough, so no message buffer is leaked.\<close>

lemma result_msg_length:
  "length b \<le> 4096 \<Longrightarrow> length (result_msg_text ''RESULT'' b) = 10 + length b"
  using result_frame.frame_parts(4)[of "''RESULT''" b] by (simp add: result_frame.frame_ok_def)

lemma report_result_cases:
  assumes "report_result J n l d w = Some (r, w')"
  shows "balance w' = balance w \<and> (r = - 1 \<or>
    (r = 0 \<and> 0 \<le> l \<and> l < 6 \<and> (\<exists>s fd. n = Some s \<and> length s \<le> 256 \<and> task_name_regex s \<and>
       length (J (result_json s l d)) \<le> 4096 \<and>
       sent fd w' = sent fd w @ result_msg_text ''RESULT'' (J (result_json s l d)))))"
proof (cases "l < 0 \<or> 6 \<le> l \<or> \<not> is_valid_task_name n")
  case True
  with assms show ?thesis by (auto simp: report_result_def split: if_splits)
next
  case ok: False
  then obtain s where s: "n = Some s" "length s \<le> 256" "task_name_regex s"
    by (auto simp: is_valid_task_name_iff)
  let ?t = "J (result_json s l d)"
  from assms ok obtain j u where j: "call (Q_library ''json_object_to_json_string'' []) w = Some (j, u)"
    by (auto simp: report_result_def bind_eq_Some_conv)
  note jb = call_balance[OF j] call_other_sent(1)[OF j]
  show ?thesis
  proof (cases "j < 0 \<or> 4096 < length ?t")
    case True
    with assms ok s j jb show ?thesis by (auto simp: report_result_def Let_def split: if_splits)
  next
    case fit: False
    with assms ok s j obtain p v where p: "call (Q_malloc (10 + length ?t + 1)) u = Some (p, v)"
      by (auto simp: report_result_def Let_def bind_eq_Some_conv)
    note pb = call_balance[OF p] call_other_sent(1)[OF p]
    show ?thesis
    proof (cases "p < 0")
      case True
      with assms ok s j fit p jb pb show ?thesis by (auto simp: report_result_def Let_def)
    next
      case False
      let ?m = "result_msg_text ''RESULT'' ?t"
      from fit have ml: "length ?m = 10 + length ?t" by (intro result_msg_length) simp
      have "snprintf (10 + length ?t + 1) ?m = (?m, int (length ?m))"
        by (rule snprintf_fits_eq) (simp add: ml)
      with assms ok s j fit p False ml obtain k x y where
        k: "send_data_to_socket RESULT_REPORT_SOCKET ?m v = Some (k, x)"
        and f: "call (Q_free p) x = Some (y, w')" and r: "r = (if k \<noteq> 0 then - 1 else 0)"
        by (auto simp: report_result_def Let_def bind_eq_Some_conv)
      note sd = send_data_cases[OF k] and fb = call_balance[OF f] call_other_sent(1)[OF f]
      have "balance w' = balance w" using jb(1) pb(1) fb(1) sd False by (simp add: fun_eq_iff add.assoc)
      moreover have "r = 0 \<Longrightarrow> \<exists>fd. sent fd w' = sent fd w @ ?m"
        using sd r jb(2) pb(2) fb(2) by (auto simp: is_output_def split: if_splits)
      ultimately show ?thesis using r ok s fit by (auto simp: not_le)
    qed
  qed
qed

section \<open>Contracts for the callers\<close>

lemma connect_write_returns:
  "balance w = b \<Longrightarrow> length (script w) \<le> n \<Longrightarrow>
   returns (connect_write fd p m w) (\<lambda>(r, v). balance v = b \<and> length (script v) \<le> n)"
proof (induction "length (script w)" arbitrary: w rule: less_induct)
  case less
  show ?case
    using less.prems
    by (subst connect_write.simps, intro ret_intros less.hyps) (simp_all add: fun_eq_iff)
qed

lemma cpu_alarm_Report_returns:
  "returns (cpu_alarm_Report ty m tr cmd ev sk core w)
     (\<lambda>(r, v). balance v = balance w \<and> length (script v) \<le> length (script w))"
  unfolding cpu_alarm_Report_def
  by (intro ret_intros connect_write_returns[OF refl order_refl, THEN returns_mono, unfolded split_paired_all split_conv])
    (auto simp: fun_eq_iff req_delta_def)

lemma sendto_retry_returns:
  "balance w = b \<Longrightarrow> length (script w) \<le> n \<Longrightarrow>
   returns (sendto_retry fd m p w) (\<lambda>(r, v). balance v = b \<and> length (script v) \<le> n)"
proof (induction "length (script w)" arbitrary: w rule: less_induct)
  case less
  show ?case
    using less.prems
    by (subst sendto_retry.simps, intro ret_intros less.hyps) (simp_all add: fun_eq_iff)
qed

lemma report_event_returns:
  "returns (xalarm_report_event aid paras len w)
     (\<lambda>(r, v). balance v = balance w \<and> length (script v) \<le> length (script w))"
  unfolding xalarm_report_event_def gettimeofday_def
  by (intro ret_intros sendto_retry_returns[OF refl order_refl, THEN returns_mono, unfolded split_paired_all split_conv])
    (auto simp: fun_eq_iff req_delta_def)

lemma xalarm_Report_returns:
  "returns (xalarm_Report aid lv ty paras w)
     (\<lambda>(r, v). balance v = balance w \<and> length (script v) \<le> length (script w))"
  unfolding xalarm_Report_def gettimeofday_def
  by (intro ret_intros sendto_retry_returns[OF refl order_refl, THEN returns_mono, unfolded split_paired_all split_conv])
    (auto simp: fun_eq_iff req_delta_def)

lemma report_result_returns:
  "returns (report_result J n l d w)
     (\<lambda>(r, v). balance v = balance w \<and> length (script v) \<le> length (script w))"
  unfolding report_result_def send_data_to_socket_def
  apply (intro ret_intros)
  apply (auto simp: fun_eq_iff req_delta_def snprintf_def result_msg_length)
  done

lemma dgrams_boot [simp]: "dgrams (boot s) = []" and sent_boot [simp]: "sent fd (boot s) = []"
  by (simp_all add: dgrams_def sent_def)

section \<open>Properties\<close>

text \<open>An alarm record and its 8216 bytes determine each other: reading back the bytes the sender
  writes gives the record, for every record whose fields are in the range of their C types.\<close>

lemma alarm_info_layout:
  assumes "wf_alarm_info i"
  shows "decode_alarm_info (encode_alarm_info i) = i \<and> length (encode_alarm_info i) = ALARM_INFO_SIZE"
  using assms by (simp add: alarm_info_roundtrip length_encode)

definition demo_alarm :: alarm_info where
  "demo_alarm = \<lparr>usAlarmId = 1003, ucAlarmLevel = 1, ucAlarmType = 1, tv_sec = 1700000000, tv_usec = - 1,
     pucParas = fill ALARM_INFO_MAX_PARAS_LEN ''{}''\<rparr>"

lemma alarm_info_layout_example:
  "decode_alarm_info (encode_alarm_info demo_alarm) = demo_alarm \<and>
   length (encode_alarm_info demo_alarm) = ALARM_INFO_SIZE"
  by (rule alarm_info_layout) (simp add: wf_alarm_info_def demo_alarm_def)

text \<open>C17: xalarm_report_event returns 0 exactly when it has sent the daemon one whole datagram, and that
  datagram decodes to an alarm with the given identifier and the given text; on every other result
  the error is -EINVAL, -ENODEV or -ECOMM and no whole record was sent. It never leaks or double
  closes its socket.\<close>

theorem report_event_delivers:
  assumes "xalarm_report_event aid paras len w = Some (r, w')"
  shows "balance w' = balance w \<and>
    (r = 0 \<longleftrightarrow> (\<exists>d. dgrams w' = dgrams w @ [(PATH_REPORT_ALARM, d)] \<and> length d = ALARM_INFO_SIZE)) \<and>
    (r = 0 \<longrightarrow> (\<exists>p d. paras = Some p \<and> dgrams w' = dgrams w @ [(PATH_REPORT_ALARM, d)] \<and>
        usAlarmId (decode_alarm_info d) = aid \<and> cstr (pucParas (decode_alarm_info d)) = take len p \<and>
        MIN_ALARM_ID \<le> aid \<and> aid \<le> MAX_ALARM_ID)) \<and>
    (r \<noteq> 0 \<longrightarrow> r \<in> {- EINVAL, - ENODEV, - ECOMM})"
  using report_event_cases[OF assms]
  by (auto simp: alarm_info_roundtrip length_encode)

definition demo_report :: world where
  "demo_report = boot [ans 0 (replicate 16 NUL), ans 5 [], fails EINTR, ans 8216 [], ans 0 []]"

theorem report_event_delivers_witness:
  "(case xalarm_report_event 1003 (Some ''panic'') 5 demo_report of
      Some (r, w') \<Rightarrow> r = 0 \<and> balance w' = balance demo_report \<and>
        (\<exists>d. dgrams w' = [(PATH_REPORT_ALARM, d)] \<and> usAlarmId (decode_alarm_info d) = 1003)
    | None \<Rightarrow> False)"
proof -
  have len: "length (encode_alarm_info i) = ALARM_INFO_SIZE" if "length (pucParas i) = ALARM_INFO_MAX_PARAS_LEN" for i
    using that by (simp add: encode_alarm_info_def)
  have "map_option fst (xalarm_report_event 1003 (Some ''panic'') 5 demo_report) = Some 0"
    by (simp add: xalarm_report_event_def gettimeofday_def demo_report_def boot_def fetch_def call_def sys_def
        posix_def ans_def fails_def sendto_retry.simps len cstr_def Let_def)
  then obtain w' where e: "xalarm_report_event 1003 (Some ''panic'') 5 demo_report = Some (0, w')" by auto
  have "dgrams demo_report = []" by (simp add: demo_report_def)
  with report_event_delivers[OF e] show ?thesis unfolding e by auto
qed

text \<open>cpu_alarm_Report returns 0 only when the whole framed message was written to the socket of the
  alarm service; the service finds the fixed head, the announced length and the text at fixed
  positions; the text is at most 35 bytes for all arguments, so no buffer of the function is ever
  too small; and the socket is closed on every path.\<close>

lemma cpu_alarm_Report_delivers:
  assumes "cpu_alarm_Report ty m tr cmd ev sk core w = Some (r, w')"
    and "0 \<le> cmd \<and> cmd < 2 ^ 16" and "0 \<le> ev \<and> ev < 2 ^ 16"
    and "- (2 ^ 31) \<le> sk \<and> sk < 2 ^ 31" and "- (2 ^ 31) \<le> core \<and> core < 2 ^ 31"
  shows "balance w' = balance w \<and> (r = 0 \<or> r = - 1) \<and>
    (r = 0 \<longrightarrow> (\<exists>fd msg. sent fd w' = sent fd w @ msg \<and> length msg \<le> 45 \<and>
        take 7 msg = cpu_msg_head ty m tr \<and>
        nat_of_digits (take 3 (drop 7 msg)) = length (drop 10 msg) \<and>
        drop 10 msg = report_info_text cmd ev sk core))"
proof -
  note c = cpu_alarm_Report_cases[OF assms(1)]
  show ?thesis
  proof (cases "r = 0")
    case True
    with c obtain fd where v: "is_valid_report_type ty" "is_valid_report_module m" "is_valid_report_trans_to tr"
      and s: "sent fd w' = sent fd w @ cpu_message ty m tr cmd ev sk core" by auto
    have l: "length (report_info_text cmd ev sk core) \<le> 35" by (rule report_info_length[OF assms(2-5)])
    then have ok: "cpu_frame.frame_ok (cpu_msg_head ty m tr) (report_info_text cmd ev sk core)"
      using cpu_head_length[OF v] by (simp add: cpu_frame.frame_ok_def)
    from cpu_frame.frame_parts[OF ok] c s True l show ?thesis
      by (auto simp: cpu_message_def intro!: exI[of _ fd])
  qed (use c in auto)
qed

definition demo_cpu_report :: world where
  "demo_cpu_report = boot [ans 4 [], ans 0 [], ans 6 [], ans 100 [], ans 0 []]"

lemma cpu_alarm_Report_delivers_example:
  "(case cpu_alarm_Report 0 0 1 3 0 1 17 demo_cpu_report of
      Some (r, w') \<Rightarrow> r = 0 \<and> (\<exists>fd msg. sent fd w' = msg \<and> drop 10 msg = ''3 0 1 17'') | None \<Rightarrow> False)"
proof -
  have "map_option fst (cpu_alarm_Report 0 0 1 3 0 1 17 demo_cpu_report) = Some 0" by code_simp
  then obtain w' where e: "cpu_alarm_Report 0 0 1 3 0 1 17 demo_cpu_report = Some (0, w')" by auto
  have "report_info_text 3 0 1 17 = ''3 0 1 17''" by code_simp
  with cpu_alarm_Report_delivers[OF e] show ?thesis unfolding e by (auto simp: demo_cpu_report_def)
qed


definition demo_result :: world where
  "demo_result = boot [ans 0 [], ans 9 [], ans 4 [], ans 0 [], ans 100 [], ans 0 [], ans 0 []]"


end
