(* ===== verification/XalarmLib.thy ===== *)
theory XalarmLib
  imports XalarmMsg
begin

text \<open>
  The subscribing half of \<open>src/libs/libxalarm/register_xalarm.c\<close>. The first interface keeps one
  subscription in the global \<open>g_register_info\<close> and a receiver thread: \<open>xalarm_Register\<close>,
  \<open>xalarm_Upgrade\<close>, \<open>xalarm_UnRegister\<close> and \<open>alarm_recv\<close>. The second hands out a handle:
  \<open>xalarm_register_event\<close>, \<open>xalarm_get_event\<close>, \<open>xalarm_unregister_event\<close>.

  The client's calls and the iterations of the receiver thread interleave in the step relation
  \<open>rstep\<close>. A call of \<open>xalarm_UnRegister\<close> is two steps: up to \<open>pthread_join\<close>, and from its return
  on, which waits until the thread has left \<open>alarm_recv\<close>.
\<close>

section \<open>Subscriptions\<close>

abbreviation ALARM_ENABLED :: int where "ALARM_ENABLED \<equiv> 1"
abbreviation ULONG_MAX :: int where "ULONG_MAX \<equiv> 18446744073709551615"
abbreviation O_NONBLOCK :: int where "O_NONBLOCK \<equiv> 2048"
abbreviation F_GETFL :: int where "F_GETFL \<equiv> 3"
abbreviation F_SETFL :: int where "F_SETFL \<equiv> 4"
abbreviation SYSSENTRY_DOWN_ALARM_ID :: int where "SYSSENTRY_DOWN_ALARM_ID \<equiv> 1128"

text \<open>\<open>struct alarm_subscription_info\<close>: 128 slots, of which the first \<open>len\<close> are used.\<close>

record alarm_subscription_info =
  id_list :: "int list"
  sub_len :: nat

definition wf_subscription :: "alarm_subscription_info \<Rightarrow> bool" where
  "wf_subscription f \<longleftrightarrow> length (id_list f) = MAX_NUM_OF_ALARM_ID"

definition alarm_subscription_verify :: "alarm_subscription_info \<Rightarrow> bool" where
  "alarm_subscription_verify f =
     (if MAX_NUM_OF_ALARM_ID < sub_len f then False
      else \<not> list_ex (\<lambda>i. id_list f ! i < MIN_ALARM_ID \<or> MAX_ALARM_ID < id_list f ! i) [0..<sub_len f])"

definition enable_ids :: "alarm_subscription_info \<Rightarrow> int list \<Rightarrow> int list" where
  "enable_ids f bitmap =
     foldl (\<lambda>b i. b[nat (id_list f ! i - MIN_ALARM_ID) := ALARM_ENABLED]) bitmap [0..<sub_len f]"

definition empty_bitmap :: "int list" where
  "empty_bitmap = replicate MAX_NUM_OF_ALARM_ID 0"

section \<open>The connection to xalarmd\<close>

definition create_unix_socket :: "string option \<Rightarrow> world \<Rightarrow> (int \<times> world) option" where
  "create_unix_socket path w =
     (case path of
        None \<Rightarrow> Some (- 1, w)
      | Some [] \<Rightarrow> Some (- 1, w)
      | Some (c # cs) \<Rightarrow> do {
          (fd, w) \<leftarrow> call (Q_socket SOCK_STREAM) w;
          if fd < 0 then Some (- 1, w)
          else do {
            let release_socket = (\<lambda>w. do { (_, w) \<leftarrow> call (Q_close fd) w; Some (- 1, w) });
            (flags, w) \<leftarrow> call (Q_fcntl fd F_GETFL 0) w;
            (ret, w) \<leftarrow> call (Q_fcntl fd F_SETFL (flags OR O_NONBLOCK)) w;
            if ret = - 1 then release_socket w
            else do {
              (ret, w) \<leftarrow> call (Q_access DIR_XALARM) w;
              if ret = - 1 then release_socket w
              else do {
                let (sun_path, ret) = snprintf (nat SUN_PATH_LEN) (c # cs);
                if ret < 0 \<or> SUN_PATH_LEN \<le> ret then release_socket w
                else do {
                  (ret, w) \<leftarrow> call (Q_connect fd sun_path) w;
                  if ret = - 1 then release_socket w else Some (fd, w) } } } } })"

text \<open>The identifiers \<open>send_event_message\<close> announces to xalarmd.\<close>

definition event_ids :: "alarm_subscription_info \<Rightarrow> int list" where
  "event_ids f =
     filter (\<lambda>i. i = 1003 \<or> i = 1005 \<or> i = 1007 \<or> i = 1009 \<or> i = 1013 \<or> i = 1016)
       (map (\<lambda>i. id_list f ! i) [0..<sub_len f])"

definition event_json :: "string \<Rightarrow> alarm_subscription_info \<Rightarrow> json" where
  "event_json action f =
     JObject [(''action'', JString action), (''event_ids'', JArray (map JInt (event_ids f)))]"

definition send_event_message ::
  "(json \<Rightarrow> string) \<Rightarrow> int \<Rightarrow> alarm_subscription_info \<Rightarrow> string \<Rightarrow> world \<Rightarrow> (int \<times> world) option" where
  "send_event_message J fd f action w = do {
     (root, w) \<leftarrow> call (Q_library ''json_object_new_object'' []) w;
     (ids_array, w) \<leftarrow> call (Q_library ''json_object_new_array'' []) w;
     if root < 0 \<or> ids_array < 0 then Some (- 1, w)
     else do {
       let json_str = J (event_json action f);
       (ret, w) \<leftarrow> SendAll fd json_str w;
       if ret < 0 then Some (- 1, w) else Some (0, w) } }"

definition send_event_registration ::
  "(json \<Rightarrow> string) \<Rightarrow> int \<Rightarrow> alarm_subscription_info \<Rightarrow> world \<Rightarrow> (int \<times> world) option" where
  "send_event_registration J fd f w = send_event_message J fd f ''register_events'' w"

section \<open>The global subscription\<close>

text \<open>\<open>struct alarm_register_info\<close>; a callback is a number standing for the function pointer.\<close>

record alarm_register_info =
  alarm_enable_bitmap :: "int list"
  register_fd :: int
  register_tid :: int
  is_registered :: bool
  callback :: "nat option"
  thread_should_stop :: int

definition g_register_info :: alarm_register_info where
  "g_register_info =
     \<lparr>alarm_enable_bitmap = empty_bitmap, register_fd = - 1, register_tid = ULONG_MAX,
      is_registered = False, callback = None, thread_should_stop = 1\<rparr>"

definition id_is_registered :: "alarm_register_info \<Rightarrow> int \<Rightarrow> bool" where
  "id_is_registered g alarm_id =
     (if alarm_id < MIN_ALARM_ID \<or> MAX_ALARM_ID < alarm_id then False
      else alarm_enable_bitmap g ! nat (alarm_id - MIN_ALARM_ID) = ALARM_ENABLED)"

text \<open>The calls of the callback an alarm causes.\<close>

definition put_alarm_info :: "alarm_register_info \<Rightarrow> alarm_info option \<Rightarrow> (nat \<times> alarm_info) list" where
  "put_alarm_info g info = (case (callback g, info) of
      (Some cb, Some i) \<Rightarrow> if id_is_registered g (usAlarmId i) then [(cb, i)] else []
    | _ \<Rightarrow> [])"

definition create_thread :: "world \<Rightarrow> (int \<times> world) option" where
  "create_thread w = do {
     (t, w) \<leftarrow> call (Q_thread_create ''alarm_recv'') w;
     Some (if t < 0 then ULONG_MAX else t, w) }"

definition set_alarm_id :: "alarm_subscription_info \<Rightarrow> alarm_register_info \<Rightarrow> alarm_register_info" where
  "set_alarm_id f g = g\<lparr>alarm_enable_bitmap := enable_ids f empty_bitmap\<rparr>"

definition xalarm_Upgrade ::
  "alarm_subscription_info \<Rightarrow> int \<Rightarrow> alarm_register_info \<Rightarrow> bool \<times> alarm_register_info" where
  "xalarm_Upgrade f client_id g =
     (if \<not> is_registered g then (False, g)
      else if \<not> alarm_subscription_verify f \<or> client_id \<noteq> 0 then (False, g)
      else if thread_should_stop g \<noteq> 0 then (False, g)
      else (True, set_alarm_id f g))"

definition xalarm_Register ::
  "(json \<Rightarrow> string) \<Rightarrow> nat option \<Rightarrow> alarm_subscription_info \<Rightarrow> alarm_register_info \<times> world
     \<Rightarrow> (int \<times> alarm_register_info \<times> world) option" where
  "xalarm_Register J cb f = (\<lambda>(g, w).
     if is_registered g \<or> register_fd g \<noteq> - 1 \<or> register_tid g \<noteq> ULONG_MAX then Some (- 1, g, w)
     else if \<not> alarm_subscription_verify f \<or> cb = None then Some (- 1, g, w)
     else do {
       (fd, w) \<leftarrow> create_unix_socket (Some PATH_REG_ALARM) w;
       let g = g\<lparr>register_fd := fd\<rparr>;
       if register_fd g = - 1 then Some (- 1, g, w)
       else do {
         (ret, w) \<leftarrow> send_event_registration J (register_fd g) f w;
         if ret < 0 then do {
           (_, w) \<leftarrow> call (Q_close (register_fd g)) w;
           Some (- 1, g\<lparr>register_fd := - 1\<rparr>, w) }
         else do {
           let g = g\<lparr>thread_should_stop := 0\<rparr>;
           (tid, w) \<leftarrow> create_thread w;
           let g = g\<lparr>register_tid := tid\<rparr>;
           if register_tid g = ULONG_MAX then do {
             (_, w) \<leftarrow> call (Q_close (register_fd g)) w;
             Some (- 1, g\<lparr>register_fd := - 1, thread_should_stop := 1\<rparr>, w) }
           else
             Some (0, (set_alarm_id f g)\<lparr>callback := cb, is_registered := True\<rparr>, w) } } })"

text \<open>
  \<open>xalarm_UnRegister\<close> before \<open>pthread_join\<close> (whether it goes on, and the state it leaves), and
  from the return of \<open>pthread_join\<close> on.
\<close>

definition UnRegister_begin :: "int \<Rightarrow> alarm_register_info \<Rightarrow> bool \<times> alarm_register_info" where
  "UnRegister_begin client_id g =
     (if \<not> is_registered g then (False, g)
      else if client_id \<noteq> 0 then (False, g)
      else (True, if register_tid g \<noteq> ULONG_MAX then g\<lparr>thread_should_stop := 1\<rparr> else g))"

definition UnRegister_finish ::
  "alarm_register_info \<times> world \<Rightarrow> (alarm_register_info \<times> world) option" where
  "UnRegister_finish = (\<lambda>(g, w). do {
     let g = (if register_tid g \<noteq> ULONG_MAX then g\<lparr>register_tid := ULONG_MAX\<rparr> else g);
     (g, w) \<leftarrow> (if register_fd g \<noteq> - 1 then do {
                   (_, w) \<leftarrow> call (Q_close (register_fd g)) w;
                   Some (g\<lparr>register_fd := - 1\<rparr>, w) }
                 else Some (g, w));
     Some (g\<lparr>alarm_enable_bitmap := empty_bitmap, callback := None, is_registered := False\<rparr>, w) })"

text \<open>
  One iteration of the loop of \<open>alarm_recv\<close> (the caller has tested \<open>thread_should_stop\<close>): whether
  the loop goes on, the calls of the callback, the state.
\<close>

definition alarm_recv_iter ::
  "alarm_register_info \<times> world \<Rightarrow> (bool \<times> (nat \<times> alarm_info) list \<times> alarm_register_info \<times> world) option" where
  "alarm_recv_iter = (\<lambda>(g, w). do {
     (recvlen, d, w) \<leftarrow> fetch (Q_recv (register_fd g) ALARM_INFO_SIZE) w;
     if recvlen = int ALARM_INFO_SIZE then
       Some (True, put_alarm_info g (Some (decode_alarm_info d)), g, w)
     else if recvlen < 0 then
       (if retryable (errno w) then do {
          (_, w) \<leftarrow> call (Q_usleep RECV_DELAY_US) w;
          Some (True, [], g, w) }
        else Some (True, [], g, w))
     else if recvlen = 0 then Some (False, [], g\<lparr>thread_should_stop := 1\<rparr>, w)
     else Some (True, [], g, w) })"

definition xalarm_getid :: "alarm_info option \<Rightarrow> int" where
  "xalarm_getid p = (case p of None \<Rightarrow> 0 | Some i \<Rightarrow> usAlarmId i)"

definition xalarm_getlevel :: "alarm_info option \<Rightarrow> int" where
  "xalarm_getlevel p = (case p of None \<Rightarrow> 0 | Some i \<Rightarrow> ucAlarmLevel i)"

definition xalarm_gettype :: "alarm_info option \<Rightarrow> int" where
  "xalarm_gettype p = (case p of None \<Rightarrow> 0 | Some i \<Rightarrow> ucAlarmType i)"

definition xalarm_gettime :: "alarm_info option \<Rightarrow> int" where
  "xalarm_gettime p =
     (case p of None \<Rightarrow> 0 | Some i \<Rightarrow> tv_sec i * 1000 + tv_usec i sdiv 1000)"

definition xalarm_getdesc :: "alarm_info option \<Rightarrow> string option" where
  "xalarm_getdesc p = (case p of None \<Rightarrow> None | Some i \<Rightarrow> Some (pucParas i))"

section \<open>The handle interface\<close>

record alarm_register =
  ar_fd :: int
  ar_bitmap :: "int list"
  ar_mem :: int

record alarm_msg =
  msg_id :: int
  msg_time :: "int \<times> int"
  msg_paras :: string

text \<open>
  \<open>xalarm_register_event\<close>: the argument is \<open>False\<close> for a NULL \<open>register_info\<close>; the second result
  is what \<open>*register_info\<close> points to (\<open>None\<close> for NULL or, after -EINVAL, for no assignment).
\<close>

definition xalarm_register_event ::
  "(json \<Rightarrow> string) \<Rightarrow> bool \<Rightarrow> alarm_subscription_info \<Rightarrow> world
     \<Rightarrow> (int \<times> alarm_register option \<times> world) option" where
  "xalarm_register_event J nonnull f w =
     (if \<not> nonnull \<or> \<not> alarm_subscription_verify f then Some (- EINVAL, None, w)
      else do {
        (m, w) \<leftarrow> call (Q_malloc 132) w;
        if m < 0 then Some (- ENOMEM, None, w)
        else do {
          let bitmap = enable_ids f empty_bitmap;
          (fd, w) \<leftarrow> create_unix_socket (Some PATH_REG_ALARM) w;
          let r = \<lparr>ar_fd = fd, ar_bitmap = bitmap, ar_mem = m\<rparr>;
          if ar_fd r = - 1 then do {
            (_, w) \<leftarrow> call (Q_free (ar_mem r)) w;
            Some (- ENOTCONN, None, w) }
          else do {
            (ret, w) \<leftarrow> send_event_registration J (ar_fd r) f w;
            if ret < 0 then do {
              (_, w) \<leftarrow> call (Q_close (ar_fd r)) w;
              (_, w) \<leftarrow> call (Q_free (ar_mem r)) w;
              Some (- ECOMM, None, w) }
            else Some (0, Some r, w) } } })"

definition xalarm_unregister_event :: "alarm_register option \<Rightarrow> world \<Rightarrow> world option" where
  "xalarm_unregister_event p w =
     (case p of
        None \<Rightarrow> Some w
      | Some r \<Rightarrow> do {
          w \<leftarrow> (if ar_fd r \<noteq> - 1 then do { (_, w) \<leftarrow> call (Q_close (ar_fd r)) w; Some w } else Some w);
          (_, w) \<leftarrow> call (Q_free (ar_mem r)) w;
          Some w })"

lemma RecvAll_measure:
  "RecvAll fd len w = Some a \<Longrightarrow> (x, y) = a \<Longrightarrow> (d, v) = y \<Longrightarrow> 0 < len \<Longrightarrow>
     ((r, v), q, w) \<in> measure (\<lambda>(r, w). length (script w))"
  using RecvAll_script[of fd len w x d v] by auto

text \<open>
  \<open>xalarm_get_event\<close>; the third result is \<open>*msg\<close> when the call fills it. A \<open>pucParas\<close> without a
  terminating NUL makes \<open>snprintf\<close> report at least 8192, so the message is skipped.
\<close>

function get_event_loop :: "alarm_register \<Rightarrow> world \<Rightarrow> (int \<times> alarm_msg option \<times> world) option" where
  "get_event_loop reg w = do {
     (recvlen, d, w) \<leftarrow> RecvAll (ar_fd reg) ALARM_INFO_SIZE w;
     let info = decode_alarm_info d;
     if recvlen < 0 then do {
       (_, w) \<leftarrow> call (Q_close (ar_fd reg)) w;
       Some (- errno w, None, w) }
     else if recvlen = 0 then do {
       (_, w) \<leftarrow> call (Q_close (ar_fd reg)) w;
       Some (- ENOTCONN, None, w) }
     else if usAlarmId info = SYSSENTRY_DOWN_ALARM_ID then do {
       (_, w) \<leftarrow> call (Q_close (ar_fd reg)) w;
       Some (- EBADF, None, w) }
     else if usAlarmId info < MIN_ALARM_ID \<or> MAX_ALARM_ID < usAlarmId info \<or>
             ar_bitmap reg ! nat (usAlarmId info - MIN_ALARM_ID) \<noteq> ALARM_ENABLED
     then get_event_loop reg w
     else do {
       let (paras, ret) = snprintf ALARM_INFO_MAX_PARAS_LEN (cstr (pucParas info));
       if ret < 0 \<or> int ALARM_INFO_MAX_PARAS_LEN \<le> ret then get_event_loop reg w
       else Some (0, Some \<lparr>msg_id = usAlarmId info, msg_time = (tv_sec info, tv_usec info),
                          msg_paras = paras\<rparr>, w) } }"
  by pat_completeness auto
termination
  by (relation "measure (\<lambda>(r, w). length (script w))")
     (rule wf_measure | erule (2) RecvAll_measure, rule zero_less_numeral)+

declare get_event_loop.simps [simp del]

definition xalarm_get_event ::
  "bool \<Rightarrow> alarm_register option \<Rightarrow> world \<Rightarrow> (int \<times> alarm_msg option \<times> world) option" where
  "xalarm_get_event msg_nonnull register_info w =
     (case register_info of
        None \<Rightarrow> Some (- EINVAL, None, w)
      | Some r \<Rightarrow> if \<not> msg_nonnull then Some (- EINVAL, None, w) else get_event_loop r w)"

section \<open>The client and the receiver thread\<close>

datatype thread_state = T_none | T_running | T_exited

datatype client_state = C_idle | C_joining

text \<open>
  The process: the global, the kernel, the receiver thread, where the client is in
  \<open>xalarm_UnRegister\<close>, and the calls the callback received.
\<close>

record reg_sys =
  rg :: alarm_register_info
  rw :: world
  rthread :: thread_state
  rclient :: client_state
  delivered :: "(nat \<times> alarm_info) list"

definition reg_init :: "world \<Rightarrow> reg_sys" where
  "reg_init w = \<lparr>rg = g_register_info, rw = w, rthread = T_none, rclient = C_idle, delivered = []\<rparr>"

inductive rstep :: "(json \<Rightarrow> string) \<Rightarrow> reg_sys \<Rightarrow> reg_sys \<Rightarrow> bool" for J where
  register:
    "rclient s = C_idle \<Longrightarrow> wf_subscription f \<Longrightarrow> xalarm_Register J cb f (rg s, rw s) = Some (r, g, w) \<Longrightarrow>
     rstep J s (s\<lparr>rg := g, rw := w, rthread := (if r = 0 then T_running else rthread s)\<rparr>)"
| upgrade:
    "rclient s = C_idle \<Longrightarrow> wf_subscription f \<Longrightarrow> xalarm_Upgrade f cid (rg s) = (b, g) \<Longrightarrow>
     rstep J s (s\<lparr>rg := g\<rparr>)"
| unregister:
    "rclient s = C_idle \<Longrightarrow> UnRegister_begin cid (rg s) = (go, g) \<Longrightarrow>
     rstep J s (s\<lparr>rg := g, rclient := (if go then C_joining else C_idle)\<rparr>)"
| joined:
    "rclient s = C_joining \<Longrightarrow> rthread s = T_exited \<or> register_tid (rg s) = ULONG_MAX \<Longrightarrow>
     UnRegister_finish (rg s, rw s) = Some (g, w) \<Longrightarrow>
     rstep J s (s\<lparr>rg := g, rw := w, rthread := T_none, rclient := C_idle\<rparr>)"
| receive:
    "rthread s = T_running \<Longrightarrow> thread_should_stop (rg s) = 0 \<Longrightarrow>
     alarm_recv_iter (rg s, rw s) = Some (go, calls, g, w) \<Longrightarrow>
     rstep J s (s\<lparr>rg := g, rw := w, rthread := (if go then T_running else T_exited),
                 delivered := delivered s @ calls\<rparr>)"
| stopped:
    "rthread s = T_running \<Longrightarrow> thread_should_stop (rg s) \<noteq> 0 \<Longrightarrow>
     rstep J s (s\<lparr>rthread := T_exited\<rparr>)"

inductive reachable :: "(json \<Rightarrow> string) \<Rightarrow> world \<Rightarrow> reg_sys \<Rightarrow> bool" for J w where
  init: "reachable J w (reg_init w)"
| step: "reachable J w s \<Longrightarrow> rstep J s t \<Longrightarrow> reachable J w t"

section \<open>Subscriptions as sets of identifiers\<close>

definition subscribed :: "alarm_subscription_info \<Rightarrow> int set" where
  "subscribed f = set (map (\<lambda>i. id_list f ! i) [0..<sub_len f])"

definition enabled_ids :: "int list \<Rightarrow> int set" where
  "enabled_ids b = {i. MIN_ALARM_ID \<le> i \<and> i \<le> MAX_ALARM_ID \<and> b ! nat (i - MIN_ALARM_ID) = ALARM_ENABLED}"

lemma verify_iff:
  "alarm_subscription_verify f \<longleftrightarrow>
     sub_len f \<le> MAX_NUM_OF_ALARM_ID \<and> subscribed f \<subseteq> {MIN_ALARM_ID..MAX_ALARM_ID}"
  by (auto simp: alarm_subscription_verify_def subscribed_def list_ex_iff not_less)

lemma length_enable_ids [simp]: "length (enable_ids f b) = length b"
proof -
  have "length (foldl (\<lambda>b i. b[nat (id_list f ! i - MIN_ALARM_ID) := ALARM_ENABLED]) b is) = length b"
    for "is" by (induction "is" arbitrary: b) auto
  then show ?thesis by (simp add: enable_ids_def)
qed

lemma length_empty_bitmap [simp]: "length empty_bitmap = MAX_NUM_OF_ALARM_ID"
  by (simp add: empty_bitmap_def)

lemma foldl_enable_nth:
  assumes "k < length b"
  shows "foldl (\<lambda>b i. b[g i := e]) b [0..<n] ! k = (if \<exists>i<n. g i = k then e else b ! k) \<and>
         length (foldl (\<lambda>b i. b[g i := e]) b [0..<n]) = length b"
proof (induction n)
  case 0
  then show ?case by simp
next
  case (Suc n)
  let ?l = "foldl (\<lambda>b i. b[g i := e]) b [0..<n]"
  have "?l[g n := e] ! k = (if g n = k then e else ?l ! k)"
    using Suc assms by (cases "g n = k") auto
  with Suc show ?case by (auto simp: less_Suc_eq)
qed

lemma enabled_enable_ids:
  assumes "alarm_subscription_verify f"
  shows "enabled_ids (enable_ids f empty_bitmap) = subscribed f"
proof -
  have "enable_ids f empty_bitmap ! nat (i - MIN_ALARM_ID) = ALARM_ENABLED \<longleftrightarrow> i \<in> subscribed f"
    if i: "MIN_ALARM_ID \<le> i \<and> i \<le> MAX_ALARM_ID" for i
  proof -
    have "nat (i - MIN_ALARM_ID) < length empty_bitmap" using i by (simp add: nat_less_iff)
    then have "enable_ids f empty_bitmap ! nat (i - MIN_ALARM_ID) = ALARM_ENABLED \<longleftrightarrow>
        (\<exists>k < sub_len f. nat (id_list f ! k - MIN_ALARM_ID) = nat (i - MIN_ALARM_ID))"
      unfolding enable_ids_def
      by (subst foldl_enable_nth[THEN conjunct1]) (use i in \<open>auto simp: empty_bitmap_def nth_replicate\<close>)
    also have "\<dots> \<longleftrightarrow> (\<exists>k < sub_len f. id_list f ! k = i)"
      using i assms by (auto simp: verify_iff subscribed_def image_subset_iff eq_nat_nat_iff)
    finally show ?thesis by (auto simp: subscribed_def)
  qed
  moreover have "subscribed f \<subseteq> {MIN_ALARM_ID..MAX_ALARM_ID}" using assms by (simp add: verify_iff)
  ultimately show ?thesis by (auto simp: enabled_ids_def)
qed

lemma enabled_empty [simp]: "enabled_ids empty_bitmap = {}"
  by (auto simp: enabled_ids_def empty_bitmap_def nth_replicate)

lemma id_is_registered_iff: "id_is_registered g i \<longleftrightarrow> i \<in> enabled_ids (alarm_enable_bitmap g)"
  by (auto simp: id_is_registered_def enabled_ids_def)

section \<open>Descriptors\<close>

lemma create_unix_socket_returns:
  "returns (create_unix_socket p w) (\<lambda>(r, v).
     (r = - 1 \<and> balance v = balance w \<or>
      0 \<le> r \<and> balance v = (\<lambda>x. balance w x + of_bool (x = Fd r))) \<and>
     (\<forall>fd. sent fd v = sent fd w))"
  unfolding create_unix_socket_def
  by (intro ret_intros) (auto simp: fun_eq_iff req_delta_def is_output_def)

lemma send_event_message_returns:
  "returns (send_event_message J fd f a w) (\<lambda>(r, v). balance v = balance w \<and>
     (r = - 1 \<or> r = 0 \<and> sent fd v = sent fd w @ J (event_json a f)))"
  unfolding send_event_message_def
  by (intro ret_intros) (auto simp: fun_eq_iff is_output_def)

lemmas conn_intros = ret_intros
  create_unix_socket_returns[THEN returns_mono, unfolded split_paired_all split_conv]
  send_event_message_returns[THEN returns_mono, unfolded split_paired_all split_conv]

lemma xalarm_Register_returns:
  "returns (xalarm_Register J cb f (g, w)) (\<lambda>(r, g', v).
     r = - 1 \<and> g' = g \<and> balance v = balance w \<or>
     r = - 1 \<and> \<not> is_registered g \<and> \<not> is_registered g' \<and> register_fd g' = - 1 \<and>
       register_tid g' = ULONG_MAX \<and> callback g' = callback g \<and>
       alarm_enable_bitmap g' = alarm_enable_bitmap g \<and> balance v = balance w \<or>
     r = 0 \<and> register_fd g = - 1 \<and> register_tid g = ULONG_MAX \<and> \<not> is_registered g \<and>
       alarm_subscription_verify f \<and> cb \<noteq> None \<and>
       0 \<le> register_fd g' \<and> register_tid g' \<noteq> ULONG_MAX \<and>
       balance v = (\<lambda>x. balance w x + of_bool (x = Fd (register_fd g'))) \<and>
       sent (register_fd g') v = sent (register_fd g') w @ J (event_json ''register_events'' f) \<and>
       alarm_enable_bitmap g' = enable_ids f empty_bitmap \<and> is_registered g' \<and>
       callback g' = cb \<and> thread_should_stop g' = 0)"
  unfolding xalarm_Register_def send_event_registration_def create_thread_def set_alarm_id_def
  by (intro conn_intros) (auto simp: fun_eq_iff is_output_def req_delta_def)

lemma verify_subscribed:
  "alarm_subscription_verify f \<Longrightarrow> x \<in> subscribed f \<Longrightarrow> MIN_ALARM_ID \<le> x \<and> x \<le> MAX_ALARM_ID"
  by (auto simp: verify_iff)

section \<open>The client and the receiver thread: invariant and abstract subscription\<close>

definition reg_inv :: "world \<Rightarrow> reg_sys \<Rightarrow> bool" where
  "reg_inv w0 s \<longleftrightarrow>
     length (alarm_enable_bitmap (rg s)) = MAX_NUM_OF_ALARM_ID \<and>
     (if is_registered (rg s)
      then 0 \<le> register_fd (rg s) \<and> register_tid (rg s) \<noteq> ULONG_MAX \<and> callback (rg s) \<noteq> None \<and>
           rthread s \<noteq> T_none \<and> (rthread s = T_exited \<longrightarrow> thread_should_stop (rg s) \<noteq> 0) \<and>
           (rclient s = C_joining \<longrightarrow> thread_should_stop (rg s) \<noteq> 0) \<and>
           balance (rw s) = (\<lambda>x. balance w0 x + of_bool (x = Fd (register_fd (rg s))))
      else register_fd (rg s) = - 1 \<and> register_tid (rg s) = ULONG_MAX \<and> callback (rg s) = None \<and>
           rthread s = T_none \<and> rclient s = C_idle \<and> balance (rw s) = balance w0)"

lemma reg_inv_init: "reg_inv w (reg_init w)"
  by (simp add: reg_inv_def reg_init_def g_register_info_def)

lemma Upgrade_result:
  "xalarm_Upgrade f cid g = (b, g') \<Longrightarrow>
     g' = (if b then g\<lparr>alarm_enable_bitmap := enable_ids f empty_bitmap\<rparr> else g) \<and>
     (b \<longrightarrow> is_registered g \<and> alarm_subscription_verify f \<and> cid = 0 \<and> thread_should_stop g = 0)"
  by (auto simp: xalarm_Upgrade_def set_alarm_id_def split: if_splits)

lemma UnRegister_begin_result:
  "UnRegister_begin cid g = (go, g') \<Longrightarrow>
     g' = (if go \<and> register_tid g \<noteq> ULONG_MAX then g\<lparr>thread_should_stop := 1\<rparr> else g) \<and>
     (go \<longrightarrow> is_registered g \<and> cid = 0)"
  by (auto simp: UnRegister_begin_def split: if_splits)

lemma UnRegister_finish_returns:
  "returns (UnRegister_finish (g, w)) (\<lambda>(g', v).
     \<not> is_registered g' \<and> register_fd g' = - 1 \<and> register_tid g' = ULONG_MAX \<and> callback g' = None \<and>
     alarm_enable_bitmap g' = empty_bitmap \<and>
     (\<forall>x. balance v x = balance w x - of_bool (register_fd g \<noteq> - 1 \<and> x = Fd (register_fd g))))"
  unfolding UnRegister_finish_def
  by (intro ret_intros) (auto simp: req_delta_def)

lemma alarm_recv_iter_returns:
  "returns (alarm_recv_iter (g, w)) (\<lambda>(go, calls, g', v).
     balance v = balance w \<and> g' = (if go then g else g\<lparr>thread_should_stop := 1\<rparr>) \<and>
     (calls = [] \<or> (\<exists>i. go \<and> calls = put_alarm_info g (Some i))))"
  unfolding alarm_recv_iter_def
  by (intro ret_intros) (auto simp: fun_eq_iff)

lemma reg_inv_step:
  assumes "rstep J s t" and "reg_inv w0 s"
  shows "reg_inv w0 t"
  using assms
proof (induction rule: rstep.induct)
  case (register s f cb r g w)
  from returnsD[OF xalarm_Register_returns register(3)] register(1,4) show ?case
    by (auto simp: reg_inv_def split: if_splits)
next
  case (upgrade s f cid b g)
  with Upgrade_result[OF upgrade(3)] show ?case by (auto simp: reg_inv_def)
next
  case (unregister s cid go g)
  with UnRegister_begin_result[OF unregister(2)] show ?case by (auto simp: reg_inv_def)
next
  case (joined s g w)
  from returnsD[OF UnRegister_finish_returns joined(3)] joined(1,4) show ?case
    by (auto simp: reg_inv_def fun_eq_iff split: if_splits)
next
  case (receive s go calls g w)
  from returnsD[OF alarm_recv_iter_returns receive(3)] receive(1,2,4) show ?case
    by (auto simp: reg_inv_def split: if_splits)
next
  case (stopped s)
  then show ?case by (auto simp: reg_inv_def split: if_splits)
qed

lemma reg_inv_reachable: "reachable J w s \<Longrightarrow> reg_inv w s"
  by (induction rule: reachable.induct) (auto intro: reg_inv_init reg_inv_step)

text \<open>
  What the client sees: at most one subscription, a callback with the set of identifiers it
  asked for last, and the calls the callback received.
\<close>

type_synonym subscription = "(nat \<times> int set) option"

inductive astep :: "subscription \<times> (nat \<times> alarm_info) list \<Rightarrow> subscription \<times> (nat \<times> alarm_info) list \<Rightarrow> bool" where
  a_stay: "astep (S, d) (S, d)"
| a_register: "ids \<subseteq> {MIN_ALARM_ID..MAX_ALARM_ID} \<Longrightarrow> astep (None, d) (Some (cb, ids), d)"
| a_upgrade: "ids \<subseteq> {MIN_ALARM_ID..MAX_ALARM_ID} \<Longrightarrow> astep (Some (cb, old), d) (Some (cb, ids), d)"
| a_unregister: "astep (Some (cb, ids), d) (None, d)"
| a_deliver: "usAlarmId i \<in> ids \<Longrightarrow> astep (Some (cb, ids), d) (Some (cb, ids), d @ [(cb, i)])"

definition abs_sys :: "reg_sys \<Rightarrow> subscription \<times> (nat \<times> alarm_info) list" where
  "abs_sys s =
     (if is_registered (rg s)
      then Some (the (callback (rg s)), enabled_ids (alarm_enable_bitmap (rg s))) else None,
      delivered s)"

lemma put_alarm_info_cases:
  "put_alarm_info g (Some i) = [] \<or>
   (\<exists>cb. callback g = Some cb \<and> usAlarmId i \<in> enabled_ids (alarm_enable_bitmap g) \<and>
      put_alarm_info g (Some i) = [(cb, i)])"
  by (auto simp: put_alarm_info_def id_is_registered_iff split: option.splits)

lemma rstep_refines:
  assumes "rstep J s t" and "reg_inv w0 s"
  shows "astep (abs_sys s) (abs_sys t)"
  using assms
proof (induction rule: rstep.induct)
  case (register s f cb r g w)
  from returnsD[OF xalarm_Register_returns register(3)] show ?case
    by (auto simp: abs_sys_def enabled_enable_ids intro!: astep.intros dest: verify_subscribed)
next
  case (upgrade s f cid b g)
  with Upgrade_result[OF upgrade(3)] show ?case
    by (auto simp: abs_sys_def reg_inv_def enabled_enable_ids intro!: astep.intros dest: verify_subscribed)
next
  case (unregister s cid go g)
  with UnRegister_begin_result[OF unregister(2)] show ?case
    by (auto simp: abs_sys_def intro!: astep.intros)
next
  case (joined s g w)
  from returnsD[OF UnRegister_finish_returns joined(3)] joined(1,4) show ?case
    by (auto simp: abs_sys_def reg_inv_def intro!: astep.intros split: if_splits)
next
  case (receive s go calls g w)
  note r = returnsD[OF alarm_recv_iter_returns receive(3), unfolded split_conv]
  show ?case
  proof (cases "calls = []")
    case True
    with r show ?thesis by (auto simp: abs_sys_def intro!: astep.intros split: if_splits)
  next
    case False
    with r obtain i where i: "calls = put_alarm_info (rg s) (Some i)" and g: "g = rg s" by auto
    with False put_alarm_info_cases[of "rg s" i] obtain cb where
      "callback (rg s) = Some cb" "usAlarmId i \<in> enabled_ids (alarm_enable_bitmap (rg s))"
      "calls = [(cb, i)]" by auto
    with g receive(4) show ?thesis
      by (auto simp: abs_sys_def reg_inv_def intro!: astep.intros split: if_splits)
  qed
next
  case (stopped s)
  then show ?case by (auto simp: abs_sys_def intro!: astep.intros)
qed

section \<open>The handle interface\<close>

lemma register_event_returns:
  "returns (xalarm_register_event J b f w) (\<lambda>(r, p, v).
     (r \<in> {- EINVAL, - ENOMEM, - ENOTCONN, - ECOMM} \<and> p = None \<and> balance v = balance w) \<or>
     (r = 0 \<and> alarm_subscription_verify f \<and>
       (\<exists>h. p = Some h \<and> 0 \<le> ar_fd h \<and> enabled_ids (ar_bitmap h) = subscribed f \<and>
         balance v = (\<lambda>x. balance w x + of_bool (x = Fd (ar_fd h)) + of_bool (x = Mem (ar_mem h))) \<and>
         sent (ar_fd h) v = sent (ar_fd h) w @ J (event_json ''register_events'' f))))"
  unfolding xalarm_register_event_def send_event_registration_def
  by (intro conn_intros)
     (auto simp: fun_eq_iff is_output_def req_delta_def enabled_enable_ids)

lemma unregister_event_returns:
  "returns (xalarm_unregister_event p w) (\<lambda>v.
     (p = None \<longrightarrow> v = w) \<and>
     (\<forall>h. p = Some h \<longrightarrow> ar_fd h \<noteq> - 1 \<longrightarrow>
        balance v = (\<lambda>x. balance w x - of_bool (x = Fd (ar_fd h)) - of_bool (x = Mem (ar_mem h)))))"
  unfolding xalarm_unregister_event_def
  by (intro ret_intros) (auto simp: fun_eq_iff req_delta_def)

text \<open>
  The two ways \<open>xalarm_get_event\<close> ends: with a message of a subscribed identifier and the
  descriptor still open, or with an error and the descriptor closed.
\<close>

lemma get_event_loop_returns:
  "balance w = b \<Longrightarrow> returns (get_event_loop h w) (\<lambda>(r, m, v).
     (r = 0 \<and> balance v = b \<and>
        (\<exists>x. m = Some x \<and> msg_id x \<in> enabled_ids (ar_bitmap h) \<and> msg_id x \<noteq> SYSSENTRY_DOWN_ALARM_ID)) \<or>
     (m = None \<and> balance v = (\<lambda>x. b x - of_bool (x = Fd (ar_fd h)))))"
proof (induction "length (script w)" arbitrary: w rule: less_induct)
  case less
  show ?case
    using less.prems
    by (subst get_event_loop.simps, intro ret_intros less.hyps)
       (simp_all add: fun_eq_iff req_delta_def enabled_ids_def)
qed

text \<open>A failed \<open>xalarm_get_event\<close> has already closed the descriptor the handle still names.\<close>

lemma get_event_closes:
  assumes "xalarm_get_event True (Some h) w = Some (r, None, w')"
  shows "balance w' = (\<lambda>x. balance w x - of_bool (x = Fd (ar_fd h)))"
  using returnsD[OF get_event_loop_returns[OF refl]] assms
  by (fastforce simp: xalarm_get_event_def)

section \<open>Properties\<close>

text \<open>C1: In every interleaving of register, upgrade, unregister, the receiver thread and the join, a
  registered client holds exactly one descriptor more than at the start, has a callback and a
  receiver thread; an unregistered one holds none, has no thread and no callback; and a receiver
  that has ended has always asked the client to stop.\<close>

theorem registration_invariant:
  assumes "reachable J w s"
  shows "if is_registered (rg s)
    then 0 \<le> register_fd (rg s) \<and> callback (rg s) \<noteq> None \<and> rthread s \<noteq> T_none \<and>
         (rthread s = T_exited \<longrightarrow> thread_should_stop (rg s) \<noteq> 0) \<and>
         balance (rw s) = (\<lambda>x. balance w x + of_bool (x = Fd (register_fd (rg s))))
    else register_fd (rg s) = - 1 \<and> rthread s = T_none \<and> callback (rg s) = None \<and> balance (rw s) = balance w"
  using reg_inv_reachable[OF assms] by (simp add: reg_inv_def split: if_splits)

definition demo_sub :: alarm_subscription_info where
  "demo_sub = \<lparr>id_list = [1003, 1005] @ replicate 126 0, sub_len = 2\<rparr>"

definition demo_reg :: "world" where
  "demo_reg = boot [ans 4 [], ans 0 [], ans 0 [], ans 0 [], ans 0 [], ans 0 [], ans 0 [], ans 2 [], ans 7 []]"

lemma demo_registered:
  "\<exists>g v. xalarm_Register (\<lambda>_. ''{}'') (Some 1) demo_sub (g_register_info, demo_reg) = Some (0, g, v) \<and>
     is_registered g"
proof -
  have "map_option (\<lambda>(r, g, v). (r, is_registered g))
      (xalarm_Register (\<lambda>_. ''{}'') (Some 1) demo_sub (g_register_info, demo_reg)) = Some (0, True)"
    by code_simp
  then show ?thesis by force
qed

lemma demo_wf: "wf_subscription demo_sub"
  by (simp add: wf_subscription_def demo_sub_def)

theorem registration_invariant_witness:
  "\<exists>s. reachable (\<lambda>_. ''{}'') demo_reg s \<and> is_registered (rg s) \<and> 0 \<le> register_fd (rg s) \<and>
     balance (rw s) = (\<lambda>x. balance demo_reg x + of_bool (x = Fd (register_fd (rg s))))"
proof -
  obtain g v where e: "xalarm_Register (\<lambda>_. ''{}'') (Some 1) demo_sub (g_register_info, demo_reg) = Some (0, g, v)"
    and g: "is_registered g" using demo_registered by blast
  let ?s = "(reg_init demo_reg)\<lparr>rg := g, rw := v, rthread := T_running\<rparr>"
  have "reachable (\<lambda>_. ''{}'') demo_reg ?s"
    using rstep.register[of "reg_init demo_reg" demo_sub "\<lambda>_. ''{}''" "Some 1" 0 g v] demo_wf e
    by (intro reachable.step[OF reachable.init]) (simp add: reg_init_def)
  with registration_invariant[OF this] g show ?thesis by (intro exI[of _ ?s]) simp
qed



text \<open>A registered handle has enabled exactly the identifiers asked for, the daemon was sent the
  registration, and unregistering it gives back the descriptor and the memory it took.\<close>

lemma register_unregister:
  assumes "xalarm_register_event J b f w = Some (0, p, v)"
  shows "\<exists>h. p = Some h \<and> enabled_ids (ar_bitmap h) = subscribed f \<and>
    sent (ar_fd h) v = sent (ar_fd h) w @ J (event_json ''register_events'' f) \<and>
    (\<forall>u. xalarm_unregister_event (Some h) v = Some u \<longrightarrow> balance u = balance w)"
proof -
  from returnsD[OF register_event_returns assms] obtain h where h: "p = Some h" "0 \<le> ar_fd h"
    "enabled_ids (ar_bitmap h) = subscribed f"
    "balance v = (\<lambda>x. balance w x + of_bool (x = Fd (ar_fd h)) + of_bool (x = Mem (ar_mem h)))"
    "sent (ar_fd h) v = sent (ar_fd h) w @ J (event_json ''register_events'' f)" by auto
  moreover have "balance u = balance w" if "xalarm_unregister_event (Some h) v = Some u" for u
    using returnsD[OF unregister_event_returns that] h by (auto simp: fun_eq_iff)
  ultimately show ?thesis by blast
qed

definition demo_handle :: "world" where
  "demo_handle = boot [ans 8 [], ans 4 [], ans 0 [], ans 0 [], ans 0 [], ans 0 [], ans 0 [], ans 0 [], ans 2 [], fails EIO, ans 0 [], ans 0 [], ans 0 []]"

lemma demo_handle_run:
  "\<exists>h v. xalarm_register_event (\<lambda>_. ''{}'') True demo_sub demo_handle = Some (0, Some h, v) \<and> ar_fd h = 4 \<and>
     ar_mem h = 8 \<and> script v = [fails EIO, ans 0 [], ans 0 [], ans 0 []] \<and>
     balance v = (\<lambda>x. of_bool (x = Fd 4) + of_bool (x = Mem 8))"
proof -
  have "map_option (\<lambda>(r, p, v). (r, map_option ar_fd p, map_option ar_mem p, script v))
      (xalarm_register_event (\<lambda>_. ''{}'') True demo_sub demo_handle) =
    Some (0, Some 4, Some 8, [fails EIO, ans 0 [], ans 0 [], ans 0 []])" by code_simp
  then obtain h v where e: "xalarm_register_event (\<lambda>_. ''{}'') True demo_sub demo_handle = Some (0, Some h, v)"
    "ar_fd h = 4" "ar_mem h = 8" "script v = [fails EIO, ans 0 [], ans 0 [], ans 0 []]" by force
  moreover from returnsD[OF register_event_returns e(1)] e have
    "balance v = (\<lambda>x. of_bool (x = Fd 4) + of_bool (x = Mem 8))"
    by (auto simp: demo_handle_def)
  ultimately show ?thesis by blast
qed

lemma register_unregister_example:
  "\<exists>h v. xalarm_register_event (\<lambda>_. ''{}'') True demo_sub demo_handle = Some (0, Some h, v) \<and>
     enabled_ids (ar_bitmap h) = subscribed demo_sub \<and> sent (ar_fd h) v = ''{}''"
proof -
  obtain h v where e: "xalarm_register_event (\<lambda>_. ''{}'') True demo_sub demo_handle = Some (0, Some h, v)"
    using demo_handle_run by blast
  from register_unregister[OF e] e show ?thesis by (auto simp: demo_handle_def)
qed



text \<open>C40: A client that registers, waits for an event, gets an error and unregisters has closed its
  descriptor twice: afterwards the descriptor has been closed once more than it was opened, so a
  descriptor another thread has opened meanwhile under the same number is closed.\<close>

theorem error_then_unregister_double_close:
  assumes "xalarm_register_event J b f w = Some (0, Some h, v)"
    and "xalarm_get_event True (Some h) v = Some (r, None, x)"
    and "xalarm_unregister_event (Some h) x = Some u"
  shows "balance u = (\<lambda>y. balance w y - of_bool (y = Fd (ar_fd h)))"
proof -
  from returnsD[OF register_event_returns assms(1)] have r: "0 \<le> ar_fd h"
    "balance v = (\<lambda>x. balance w x + of_bool (x = Fd (ar_fd h)) + of_bool (x = Mem (ar_mem h)))" by auto
  note c = get_event_closes[OF assms(2)]
  from returnsD[OF unregister_event_returns assms(3)] r c show ?thesis by (auto simp: fun_eq_iff)
qed

theorem error_then_unregister_double_close_witness:
  "\<exists>h v x u. xalarm_register_event (\<lambda>_. ''{}'') True demo_sub demo_handle = Some (0, Some h, v) \<and>
     xalarm_get_event True (Some h) v = Some (- EIO, None, x) \<and>
     xalarm_unregister_event (Some h) x = Some u \<and> balance u (Fd 4) = - 1"
proof -
  obtain h v where e: "xalarm_register_event (\<lambda>_. ''{}'') True demo_sub demo_handle = Some (0, Some h, v)"
    and h: "ar_fd h = 4" "ar_mem h = 8" and v: "script v = [fails EIO, ans 0 [], ans 0 [], ans 0 []]"
    using demo_handle_run by blast
  have c: "\<exists>w'. call q w0 = Some (a_ret (posix q a), w') \<and> script w' = as" if "script w0 = a # as" for q w0 a as
    using that by (simp add: call_def sys_def Let_def)
  have "\<exists>x. xalarm_get_event True (Some h) v = Some (- EIO, None, x) \<and> script x = [ans 0 [], ans 0 []]"
    by (simp add: xalarm_get_event_def get_event_loop.simps[of h] RecvAll_def recv_loop.simps[of "ar_fd h"]
        fetch_def call_def sys_def v posix_def fails_def ans_def Let_def retryable_def)
  then obtain x where x: "xalarm_get_event True (Some h) v = Some (- EIO, None, x)" "script x = [ans 0 [], ans 0 []]"
    by blast
  have "\<exists>u. xalarm_unregister_event (Some h) x = Some u"
    by (simp add: xalarm_unregister_event_def call_def sys_def x(2) h Let_def)
  then obtain u where u: "xalarm_unregister_event (Some h) x = Some u" by blast
  from error_then_unregister_double_close[OF e x(1) u] e x(1) u h show ?thesis
    by (auto simp: demo_handle_def fun_eq_iff)
qed

end
