(* ===== verification/CpuPatrolResult.thy ===== *)
theory CpuPatrolResult
  imports XalarmMsg
begin

text \<open>
  \<open>cpu_sentry/catlib/plugin/cpu_patrol/cpu_patrol_result.c\<close>: the sorted array of core numbers,
  the parser of the kernel's report (\<open>"1-3,7,9"\<close>), and the isolation of the faulty cores. The
  array is kept as the code keeps it, 4096 slots and a fill count; the lemmas relate it to the
  sorted set of the cores inserted.
\<close>

section \<open>The core list\<close>

datatype cat_return_t =
    CAT_OK | CAT_ERR | CAT_NOT_SUPPORTED | CAT_GENERIC_ERROR | CAT_LOAD_LIBRARY_FAIL
  | CAT_ALREADY_RUNNING | CAT_INVALID_PARAMETER

abbreviation MAX_CPU_CORES :: nat where "MAX_CPU_CORES \<equiv> 4096"

record core_list_st =
  order_list :: "int list"
  current_nums :: nat

definition empty_core_list :: core_list_st where
  "empty_core_list = \<lparr>order_list = replicate MAX_CPU_CORES 0, current_nums = 0\<rparr>"

text \<open>The inner loop: \<open>for (j = current_nums - 1; j >= i; j--)\<close>, left by \<open>break\<close> at 0.\<close>

function shift_right :: "int list \<Rightarrow> nat \<Rightarrow> nat \<Rightarrow> int list" where
  "shift_right l i j =
     (if j < i then l
      else let l = l[j + 1 := l ! j] in if j = 0 then l else shift_right l i (j - 1))"
  by pat_completeness auto
termination
  by (relation "measure (\<lambda>(l, i, j). j)") auto

declare shift_right.simps [simp del]

text \<open>The outer loop, from index \<open>i\<close> on: the list and \<open>if_insert\<close>.\<close>

function insert_loop :: "core_list_st \<Rightarrow> int \<Rightarrow> nat \<Rightarrow> core_list_st \<times> bool" where
  "insert_loop cl coreid i =
     (if i < current_nums cl then
        if order_list cl ! i < coreid then insert_loop cl coreid (i + 1)
        else if order_list cl ! i = coreid then (cl, True)
        else (\<lparr>order_list = (shift_right (order_list cl) i (current_nums cl - 1))[i := coreid],
               current_nums = current_nums cl + 1\<rparr>, True)
      else (cl, False))"
  by pat_completeness auto
termination
  by (relation "measure (\<lambda>(cl, c, i). current_nums cl - i)") auto

declare insert_loop.simps [simp del]

definition insert_core_to_list :: "core_list_st \<Rightarrow> int \<Rightarrow> cat_return_t \<times> core_list_st" where
  "insert_core_to_list cl coreid =
     (if coreid = 0 then (CAT_OK, cl)
      else if coreid < 0 then (CAT_ERR, cl)
      else if MAX_CPU_CORES \<le> current_nums cl then (CAT_OK, cl)
      else let (cl, if_insert) = insert_loop cl coreid 0 in
        if \<not> if_insert
        then (CAT_OK, \<lparr>order_list = (order_list cl)[current_nums cl := coreid],
                       current_nums = current_nums cl + 1\<rparr>)
        else (CAT_OK, cl))"

section \<open>The report of the kernel\<close>

abbreviation INT_MAX :: int where "INT_MAX \<equiv> 2147483647"

text \<open>
  One comma-separated part. \<open>None\<close> is the crash of \<open>strtol (NULL)\<close>: a part made of dashes only
  has no first token.
\<close>

definition parse_part :: "string \<Rightarrow> core_list_st \<Rightarrow> (cat_return_t \<times> core_list_st) option" where
  "parse_part split fault_list = (case strtok (CHR ''-'') split of
      None \<Rightarrow> None
    | Some (subSplit, sub_save_ptr) \<Rightarrow>
        (let coreid_before = to_i32 (fst (strtol subSplit));
             coreid_after = (if sub_save_ptr = [] then - 1 else to_i32 (fst (strtol sub_save_ptr)))
         in if coreid_after < 0 then Some (CAT_OK, snd (insert_core_to_list fault_list coreid_before))
            else if coreid_after < coreid_before \<or> coreid_before < 0 \<or> coreid_after < 0 \<or>
                    coreid_after = INT_MAX then Some (CAT_ERR, fault_list)
            else Some (CAT_OK, foldl (\<lambda>l i. snd (insert_core_to_list l i)) fault_list
                                 [coreid_before..coreid_after])))"

function parse_patrol_result ::
  "string \<Rightarrow> core_list_st \<Rightarrow> (cat_return_t \<times> core_list_st) option" where
  "parse_patrol_result buf fault_list = (case strtok (CHR '','') buf of
      None \<Rightarrow> Some (CAT_OK, fault_list)
    | Some (split, rest) \<Rightarrow> do {
        (ret, fault_list) \<leftarrow> parse_part split fault_list;
        if ret = CAT_ERR then Some (CAT_ERR, fault_list) else parse_patrol_result rest fault_list })"
  by pat_completeness auto
termination
  by (relation "measure (\<lambda>(b, f). length b)") (auto dest: strtok_shorter)

declare parse_patrol_result.simps [simp del]

section \<open>Files under /sys\<close>

abbreviation O_RDONLY :: int where "O_RDONLY \<equiv> 0"
abbreviation O_WRONLY :: int where "O_WRONLY \<equiv> 1"
abbreviation O_RDWR :: int where "O_RDWR \<equiv> 2"
abbreviation PATROL_RESULT_LEN :: nat where "PATROL_RESULT_LEN \<equiv> 512"
abbreviation CPU_STATE_OFFLINE :: char where "CPU_STATE_OFFLINE \<equiv> CHR ''0''"
abbreviation CPU_STATE_ONLINE :: char where "CPU_STATE_ONLINE \<equiv> CHR ''1''"
abbreviation CPU_STATE_UNKNOWN :: char where "CPU_STATE_UNKNOWN \<equiv> CHR ''2''"

definition get_result :: "world \<Rightarrow> (cat_return_t \<times> string \<times> world) option" where
  "get_result w = do {
     (fd, w) \<leftarrow> call (Q_open ''/sys/devices/system/cpu/cpuinspect/result'' O_RDONLY) w;
     if fd < 0 then Some (CAT_ERR, [], w)
     else do {
       (count, d, w) \<leftarrow> fetch (Q_read fd PATROL_RESULT_LEN) w;
       if count \<le> 0 then do { (_, w) \<leftarrow> call (Q_close fd) w; Some (CAT_ERR, [], w) }
       else do {
         let buf = cstr (d[nat count - 1 := NUL]);
         (_, w) \<leftarrow> call (Q_close fd) w;
         Some (CAT_OK, buf, w) } } }"

definition open_cpu_sys_file :: "int \<Rightarrow> int \<Rightarrow> world \<Rightarrow> (int \<times> world) option" where
  "open_cpu_sys_file cpu oflag w =
     (let (path, ret) = snprintf 256 (''/sys/devices/system/cpu/cpu'' @ dec_int (to_i32 cpu) @ ''/online'')
      in if ret \<le> 0 then Some (- 1, w)
         else do {
           (fd, w) \<leftarrow> call (Q_open path oflag) w;
           if fd < 0 then Some (- 1, w) else Some (fd, w) })"

definition get_cpu_core_status :: "int \<Rightarrow> world \<Rightarrow> (char \<times> world) option" where
  "get_cpu_core_status cpu w = do {
     (fd, w) \<leftarrow> open_cpu_sys_file cpu O_RDONLY w;
     if fd = - 1 then Some (CPU_STATE_UNKNOWN, w)
     else do {
       (n, d, w) \<leftarrow> fetch (Q_read fd 1) w;
       if n \<le> 0 then do { (_, w) \<leftarrow> call (Q_close fd) w; Some (CPU_STATE_UNKNOWN, w) }
       else do { (_, w) \<leftarrow> call (Q_close fd) w; Some (hd d, w) } } }"

definition do_cpu_core_offline :: "int \<Rightarrow> world \<Rightarrow> (cat_return_t \<times> world) option" where
  "do_cpu_core_offline cpu w = do {
     (fd, w) \<leftarrow> open_cpu_sys_file cpu O_RDWR w;
     if fd = - 1 then Some (CAT_ERR, w)
     else do {
       (rc, w) \<leftarrow> WriteAll fd [CPU_STATE_OFFLINE] w;
       (_, w) \<leftarrow> call (Q_close fd) w;
       if rc < 0 then Some (CAT_ERR, w)
       else do {
         (st, w) \<leftarrow> get_cpu_core_status cpu w;
         Some (if st = CPU_STATE_OFFLINE then CAT_OK else CAT_ERR, w) } } }"

section \<open>Sockets of cores\<close>

text \<open>\<open>parse_string\<close>: at most \<open>sz\<close> numbers; slots without a token keep what they held.\<close>

function parse_string :: "string \<Rightarrow> int list \<Rightarrow> nat \<Rightarrow> nat \<Rightarrow> int list" where
  "parse_string str arr i sz =
     (if sz \<le> i then arr
      else case strtok (CHR '','') str of
          None \<Rightarrow> arr
        | Some (token, rest) \<Rightarrow> parse_string rest (arr[i := atoi token]) (i + 1) sz)"
  by pat_completeness auto
termination
  by (relation "measure (\<lambda>(s, a, i, n). n - i)") auto

declare parse_string.simps [simp del]

abbreviation MAX_LINE_LEN :: nat where "MAX_LINE_LEN \<equiv> 256"

function socket_lines :: "int \<Rightarrow> int \<Rightarrow> int list \<Rightarrow> world \<Rightarrow> (int \<times> world) option" where
  "socket_lines file core_id id_pair w = do {
     (r, line, w) \<leftarrow> fetch (Q_fgets file MAX_LINE_LEN) w;
     if r < 0 then do { (_, w) \<leftarrow> call (Q_pclose file) w; Some (- 1, w) }
     else do {
       let id_pair = parse_string (cstr (take (MAX_LINE_LEN - 1) line)) id_pair 0 2;
       if id_pair ! 0 = core_id then do { (_, w) \<leftarrow> call (Q_pclose file) w; Some (id_pair ! 1, w) }
       else socket_lines file core_id id_pair w } }"
  by pat_completeness auto
termination
  by (relation "measure (\<lambda>(f, c, p, w). length (script w))") (auto dest!: fetch_script)

declare socket_lines.simps [simp del]

text \<open>\<open>junk\<close> is what the uninitialised \<open>id_pair\<close> holds.\<close>

definition get_socket_id :: "int list \<Rightarrow> int \<Rightarrow> world \<Rightarrow> (int \<times> world) option" where
  "get_socket_id junk core_id w = do {
     (file, w) \<leftarrow> call (Q_popen (''lscpu -p=cpu,socket | grep '' @ [CHR 0x27] @ ''[0-9]'' @ [CHR 0x5C] @
       ''+,[0-9]'' @ [CHR 0x5C] @ ''+'' @ [CHR 0x27])) w;
     if file < 0 then Some (- 1, w) else socket_lines file core_id junk w }"

section \<open>Isolation\<close>

abbreviation SC_NPROCESSORS_CONF :: int where "SC_NPROCESSORS_CONF \<equiv> 83"
abbreviation BMC_COMMAND :: int where "BMC_COMMAND \<equiv> 1"

text \<open>The loop of \<open>isolate_cpu_core\<close> from index \<open>i\<close> on.\<close>

fun isolate_loop ::
  "int list \<Rightarrow> int \<Rightarrow> int list \<Rightarrow> core_list_st \<Rightarrow> world \<Rightarrow> (core_list_st \<times> world) option" where
  "isolate_loop junk total_core [] isolated w = Some (isolated, w)"
| "isolate_loop junk total_core (c # cores) isolated w = do {
     let core_id = to_i32 c;
     (socket_id, w) \<leftarrow> get_socket_id junk core_id w;
     if total_core \<le> to_u32 core_id \<or> core_id = 0 then isolate_loop junk total_core cores isolated w
     else do {
       (st, w) \<leftarrow> get_cpu_core_status core_id w;
       if st \<noteq> CPU_STATE_ONLINE then isolate_loop junk total_core cores isolated w
       else do {
         (_, w) \<leftarrow> (if socket_id = - 1 then Some (0, w)
                    else cpu_alarm_Report 1 0 1 BMC_COMMAND 0 socket_id core_id w);
         (ret, w) \<leftarrow> do_cpu_core_offline core_id w;
         isolate_loop junk total_core cores
           (if ret = CAT_OK then snd (insert_core_to_list isolated core_id) else isolated) w } } }"

definition isolate_cpu_core ::
  "int list \<Rightarrow> core_list_st \<Rightarrow> core_list_st \<Rightarrow> world \<Rightarrow> (core_list_st \<times> world) option" where
  "isolate_cpu_core junk isolated fault_list w = do {
     (n, w) \<leftarrow> call (Q_sysconf SC_NPROCESSORS_CONF) w;
     let total_core = to_u32 n;
     if total_core = 2 ^ 32 - 1 then Some (isolated, w)
     else isolate_loop junk total_core (take (current_nums fault_list) (order_list fault_list)) isolated w }"

text \<open>\<open>CPU_SET\<close> on a \<open>cpu_set_t\<close>: numbers beyond its 1024 bits are ignored.\<close>

definition CPU_SET :: "int \<Rightarrow> int set \<Rightarrow> int set" where
  "CPU_SET cpu s = (if 0 \<le> cpu \<and> cpu < 1024 then insert cpu s else s)"

definition get_core_list :: "core_list_st \<Rightarrow> int set \<Rightarrow> cat_return_t \<times> int set" where
  "get_core_list core_list cpu_set =
     (if current_nums core_list = 0 then (CAT_OK, cpu_set)
      else (CAT_OK, foldl (\<lambda>s i. CPU_SET (order_list core_list ! i) s) cpu_set [0..<current_nums core_list]))"

definition get_cpu_count :: "world \<Rightarrow> (int \<times> world) option" where
  "get_cpu_count w = do {
     (n, w) \<leftarrow> call (Q_sysconf SC_NPROCESSORS_CONF) w;
     Some (if n \<le> 0 then 4096 else to_i32 n, w) }"

text \<open>\<open>handle_patrol_result\<close>: the global list and the kernel; \<open>None\<close> also for the crash above.\<close>

definition handle_patrol_result ::
  "int list \<Rightarrow> core_list_st \<Rightarrow> world \<Rightarrow> (core_list_st \<times> world) option" where
  "handle_patrol_result junk isolated w = do {
     (ret, buf, w) \<leftarrow> get_result w;
     if ret \<noteq> CAT_OK then Some (isolated, w)
     else if buf = [] then Some (isolated, w)
     else do {
       (_, w) \<leftarrow> get_cpu_count w;
       (ret, fault_list) \<leftarrow> parse_patrol_result buf empty_core_list;
       if ret \<noteq> CAT_OK then Some (isolated, w)
       else isolate_cpu_core junk isolated fault_list w } }"

definition get_patrol_result :: "core_list_st \<Rightarrow> int set \<Rightarrow> cat_return_t \<times> int set" where
  "get_patrol_result isolated cpu_set = get_core_list isolated cpu_set"

definition clear_patrol_result :: "core_list_st \<Rightarrow> core_list_st" where
  "clear_patrol_result isolated = empty_core_list"

section \<open>The core list is a sorted set\<close>

definition cores :: "core_list_st \<Rightarrow> int list" where
  "cores cl = take (current_nums cl) (order_list cl)"

definition wf_cores :: "core_list_st \<Rightarrow> bool" where
  "wf_cores cl \<longleftrightarrow> length (order_list cl) = MAX_CPU_CORES \<and> current_nums cl \<le> MAX_CPU_CORES \<and>
     sorted_wrt (<) (cores cl) \<and> (\<forall>c \<in> set (cores cl). 0 < c)"

lemma length_cores: "wf_cores cl \<Longrightarrow> length (cores cl) = current_nums cl"
  by (simp add: wf_cores_def cores_def)

lemma wf_empty [simp]: "wf_cores empty_core_list" "cores empty_core_list = []"
  by (simp_all add: wf_cores_def cores_def empty_core_list_def)

text \<open>The inner loop moves the slots \<open>i .. j\<close> up by one.\<close>

lemma shift_right_spec:
  "j + 1 < length l \<Longrightarrow> i \<le> j + 1 \<Longrightarrow>
   length (shift_right l i j) = length l \<and>
   (\<forall>k < length l. shift_right l i j ! k = (if i < k \<and> k \<le> j + 1 then l ! (k - 1) else l ! k))"
proof (induction l i j rule: shift_right.induct)
  case (1 l i j)
  show ?case
  proof (cases "j < i")
    case True
    with "1.prems" show ?thesis by (subst (1 2) shift_right.simps) auto
  next
    case False
    let ?l = "l[j + 1 := l ! j]"
    show ?thesis
    proof (cases "j = 0")
      case True
      with False "1.prems" show ?thesis by (subst (1 2) shift_right.simps) (auto simp: nth_list_update)
    next
      case pos: False
      have "length (shift_right ?l i (j - 1)) = length ?l \<and>
        (\<forall>k < length ?l. shift_right ?l i (j - 1) ! k =
          (if i < k \<and> k \<le> (j - 1) + 1 then ?l ! (k - 1) else ?l ! k))"
        using False pos "1.prems" by (intro "1.IH") auto
      then show ?thesis
        using False pos "1.prems"
        by (subst (1 2) shift_right.simps) (auto simp: nth_list_update Let_def le_Suc_eq)
    qed
  qed
qed

lemma shift_right_insert:
  assumes "n < length l" "i < n"
  shows "take (Suc n) ((shift_right l i (n - 1))[i := c]) = take i l @ c # drop i (take n l)"
proof (rule nth_equalityI)
  have s: "length (shift_right l i (n - 1)) = length l"
    "\<forall>k < length l. shift_right l i (n - 1) ! k = (if i < k \<and> k \<le> n then l ! (k - 1) else l ! k)"
    using shift_right_spec[of "n - 1" l i] assms by auto
  show "length (take (Suc n) ((shift_right l i (n - 1))[i := c])) = length (take i l @ c # drop i (take n l))"
    using s assms by simp
  fix k assume "k < length (take (Suc n) ((shift_right l i (n - 1))[i := c]))"
  then have k: "k < Suc n" "k < length l" using s assms by auto
  show "take (Suc n) ((shift_right l i (n - 1))[i := c]) ! k = (take i l @ c # drop i (take n l)) ! k"
    using k s assms by (auto simp: nth_append nth_list_update nth_Cons')
qed

text \<open>The outer loop inserts before the first larger element.\<close>

lemma insert_loop_spec:
  assumes "wf_cores cl" "i \<le> current_nums cl" "current_nums cl < MAX_CPU_CORES"
    and "\<forall>k < i. order_list cl ! k < c" "insert_loop cl c i = (cl', f)"
  shows "length (order_list cl') = MAX_CPU_CORES \<and>
    (if f then cores cl' = (if c \<in> set (cores cl) then cores cl
        else filter (\<lambda>x. x < c) (cores cl) @ c # filter (\<lambda>x. c < x) (cores cl)) \<and>
        current_nums cl' = length (cores cl')
     else cl' = cl \<and> (\<forall>x \<in> set (cores cl). x < c))"
  using assms
proof (induction cl c i rule: insert_loop.induct)
  case (1 cl c i)
  let ?l = "order_list cl" and ?n = "current_nums cl"
  have len: "length ?l = MAX_CPU_CORES" and srt: "sorted_wrt (<) (cores cl)"
    using "1.prems"(1) by (auto simp: wf_cores_def)
  have nth: "cores cl ! k = ?l ! k" if "k < ?n" for k using that by (simp add: cores_def)
  show ?case
  proof (cases "i < ?n")
    case False
    with "1.prems" have "i = ?n" by simp
    have "x < c" if "x \<in> set (cores cl)" for x
      using that "1.prems"(4) \<open>i = ?n\<close> nth length_cores[OF "1.prems"(1)] by (metis in_set_conv_nth)
    with False "1.prems"(5) len show ?thesis by (subst (asm) insert_loop.simps) simp
  next
    case lt: True
    consider (less) "?l ! i < c" | (eq) "?l ! i = c" | (gt) "c < ?l ! i" by linarith
    then show ?thesis
    proof cases
      case less
      with lt "1.prems"(5) have r: "insert_loop cl c (i + 1) = (cl', f)"
        by (subst (asm) insert_loop.simps) simp
      have "\<forall>k < i + 1. ?l ! k < c" using less "1.prems"(4) by (auto simp: less_Suc_eq)
      from "1.IH"(1)[OF lt less "1.prems"(1) _ "1.prems"(3) this r] lt show ?thesis by simp
    next
      case eq
      with lt "1.prems"(5) have "cl' = cl" "f" by (subst (asm) insert_loop.simps, simp)+
      moreover have "c \<in> set (cores cl)"
        using eq lt nth[OF lt] length_cores[OF "1.prems"(1)] by (metis nth_mem)
      ultimately show ?thesis using len length_cores[OF "1.prems"(1)] by simp
    next
      case gt
      with lt "1.prems"(5) have e: "f" "order_list cl' = (shift_right ?l i (?n - 1))[i := c]"
        "current_nums cl' = Suc ?n"
        by (subst (asm) insert_loop.simps, auto)+
      have ord: "cores cl = take i ?l @ drop i (take ?n ?l)"
        using lt by (simp add: cores_def) (metis append_take_drop_id less_imp_le min.absorb1 take_take)
      have lo: "x < c" if "x \<in> set (take i ?l)" for x
        using that "1.prems"(4) lt len "1.prems"(3) by (auto simp: in_set_conv_nth)
      have hi: "c < x" if "x \<in> set (drop i (take ?n ?l))" for x
      proof -
        obtain k where k: "k < ?n - i" "x = ?l ! (i + k)"
          using \<open>x \<in> set (drop i (take ?n ?l))\<close> len "1.prems"(3) by (auto simp: in_set_conv_nth)
        have "?l ! i \<le> ?l ! (i + k)"
          using sorted_wrt_nth_less[OF srt, of i "i + k"] k lt nth length_cores[OF "1.prems"(1)]
          by (cases "k = 0") fastforce+
        with gt k show ?thesis by simp
      qed
      have "cores cl' = take i ?l @ c # drop i (take ?n ?l)"
        using shift_right_insert[of ?n ?l i c] lt len "1.prems"(3) by (simp add: cores_def e)
      moreover have "c \<notin> set (cores cl)"
        unfolding ord using lo hi by fastforce
      moreover have "filter (\<lambda>x. x < c) (cores cl) = take i ?l"
        unfolding ord using lo hi by (simp add: filter_id_conv filter_empty_conv) (meson less_asym)
      moreover have "filter (\<lambda>x. c < x) (cores cl) = drop i (take ?n ?l)"
        unfolding ord using lo hi by (simp add: filter_id_conv filter_empty_conv) (meson less_asym)
      ultimately show ?thesis
        using e len lt "1.prems"(3) shift_right_spec[of "?n - 1" ?l i] by (auto simp: cores_def)
    qed
  qed
qed

text \<open>The whole operation: insertion into the set, and never beyond the capacity.\<close>

lemma insert_core_spec:
  assumes wf: "wf_cores cl" and e: "insert_core_to_list cl c = (r, cl')"
  shows "wf_cores cl' \<and> (r = CAT_ERR \<longleftrightarrow> c < 0) \<and>
    set (cores cl') = (if 0 < c \<and> current_nums cl < MAX_CPU_CORES then insert c (set (cores cl)) else set (cores cl))"
proof (cases "0 < c \<and> current_nums cl < MAX_CPU_CORES")
  case False
  with wf e show ?thesis by (auto simp: insert_core_to_list_def split: if_splits)
next
  case True
  obtain cl1 f where l: "insert_loop cl c 0 = (cl1, f)" by force
  note s = insert_loop_spec[OF wf _ _ _ l]
  have len: "length (order_list cl) = MAX_CPU_CORES" and srt: "sorted_wrt (<) (cores cl)"
    and pos: "\<forall>c \<in> set (cores cl). 0 < c"
    using wf by (auto simp: wf_cores_def)
  show ?thesis
  proof (cases f)
    case f: True
    from True f s have c1: "length (order_list cl1) = MAX_CPU_CORES" "current_nums cl1 = length (cores cl1)"
      "cores cl1 = (if c \<in> set (cores cl) then cores cl
        else filter (\<lambda>x. x < c) (cores cl) @ c # filter (\<lambda>x. c < x) (cores cl))" by auto
    have "r = CAT_OK" "cl' = cl1" using e True l f by (auto simp: insert_core_to_list_def)
    moreover have "sorted_wrt (<) (cores cl1)"
      using srt by (auto simp: c1(3) sorted_wrt_append sorted_wrt_filter)
    moreover have "set (cores cl1) = insert c (set (cores cl))"
      by (auto simp: c1(3))
    moreover have "current_nums cl1 \<le> MAX_CPU_CORES"
      using c1(1,2) by (metis cores_def length_take min.cobounded1)
    ultimately show ?thesis using True c1 pos by (auto simp: wf_cores_def)
  next
    case f: False
    from True f s have c1: "cl1 = cl" "\<forall>x \<in> set (cores cl). x < c" by auto
    with e True l f have r: "r = CAT_OK" "cl' = \<lparr>order_list = (order_list cl)[current_nums cl := c],
        current_nums = current_nums cl + 1\<rparr>" by (auto simp: insert_core_to_list_def)
    then have "cores cl' = cores cl @ [c]"
      using True len by (simp add: cores_def take_Suc_conv_app_nth)
    with r c1 True len srt pos show ?thesis by (auto simp: wf_cores_def sorted_wrt_append)
  qed
qed

section \<open>Reading a list of core ranges\<close>

text \<open>The text of ranges as the kernel prints a mask: \<open>"1-3,7"\<close>.\<close>

definition span_text :: "nat \<times> nat \<Rightarrow> string" where
  "span_text s = (if fst s = snd s then dec_nat (fst s) else dec_nat (fst s) @ ''-'' @ dec_nat (snd s))"

fun spans_text :: "(nat \<times> nat) list \<Rightarrow> string" where
  "spans_text [] = []"
| "spans_text [s] = span_text s"
| "spans_text (s # t # ss) = span_text s @ '','' @ spans_text (t # ss)"

definition span_ok :: "nat \<times> nat \<Rightarrow> bool" where
  "span_ok s \<longleftrightarrow> 0 < fst s \<and> fst s \<le> snd s \<and> snd s < MAX_CPU_CORES"

definition span_set :: "nat \<times> nat \<Rightarrow> int set" where
  "span_set s = {int (fst s)..int (snd s)}"

definition small_cores :: "core_list_st \<Rightarrow> bool" where
  "small_cores cl \<longleftrightarrow> wf_cores cl \<and> (\<forall>c \<in> set (cores cl). c < int MAX_CPU_CORES)"

lemma small_cores_room:
  assumes "small_cores cl"
  shows "current_nums cl < MAX_CPU_CORES"
proof -
  have d: "distinct (cores cl)"
    using assms by (auto simp: small_cores_def wf_cores_def strict_sorted_iff)
  have "set (cores cl) \<subseteq> {1..<int MAX_CPU_CORES}"
    using assms by (auto simp: small_cores_def wf_cores_def)
  from card_mono[OF _ this] have "card (set (cores cl)) \<le> 4095" by simp
  with d distinct_card[OF d] length_cores[of cl] assms show ?thesis by (simp add: small_cores_def)
qed

lemma insert_small:
  assumes "small_cores cl" "0 < c" "c < int MAX_CPU_CORES"
  shows "small_cores (snd (insert_core_to_list cl c)) \<and>
    set (cores (snd (insert_core_to_list cl c))) = insert c (set (cores cl))"
proof -
  obtain r cl' where e: "insert_core_to_list cl c = (r, cl')" by force
  from insert_core_spec[OF _ e] small_cores_room[OF assms(1)] assms e show ?thesis
    by (auto simp: small_cores_def)
qed

lemma inserts_small:
  assumes "small_cores cl" "\<forall>c \<in> set cs. 0 < c \<and> c < int MAX_CPU_CORES"
  shows "small_cores (foldl (\<lambda>l i. snd (insert_core_to_list l i)) cl cs) \<and>
    set (cores (foldl (\<lambda>l i. snd (insert_core_to_list l i)) cl cs)) = set (cores cl) \<union> set cs"
  using assms
proof (induction cs arbitrary: cl)
  case (Cons c cs)
  from insert_small[OF Cons.prems(1), of c] Cons.IH[of "snd (insert_core_to_list cl c)"] Cons.prems(2)
  show ?case by auto
qed simp

lemma no_sep_dec: "x \<in> set (dec_nat n) \<Longrightarrow> x \<noteq> CHR '','' \<and> x \<noteq> CHR ''-''"
  using dec_nat_digits[of n] by (auto simp: is_digit_def char_val_def)

lemma span_text_props: "span_text s \<noteq> []" "CHR '','' \<notin> set (span_text s)"
  using no_sep_dec by (auto simp: span_text_def)

lemma parse_part_span:
  assumes "span_ok s"
  shows "parse_part (span_text s) cl =
    Some (CAT_OK, foldl (\<lambda>l i. snd (insert_core_to_list l i)) cl [int (fst s)..int (snd s)])"
proof -
  have n: "no_digit_hd []" by (simp add: no_digit_hd_def)
  have a: "fst s < 2 ^ 31 - 1" "snd s < 2 ^ 31 - 1" "fst s \<le> snd s" using assms by (auto simp: span_ok_def)
  have v: "to_i32 (fst (strtol (dec_nat k))) = int k" if "k < 2 ^ 31 - 1" for k
    using strtol_dec_nat[of "[]" k] that n by (simp add: to_i32_id)
  show ?thesis
  proof (cases "fst s = snd s")
    case True
    have "strtok (CHR ''-'') (dec_nat (snd s)) = Some (dec_nat (snd s), [])"
      using strtok_first[of "dec_nat (snd s)" "CHR ''-''" "[]"] no_sep_dec by auto
    with True a v[of "snd s"] show ?thesis by (simp add: parse_part_def span_text_def)
  next
    case False
    have "strtok (CHR ''-'') (dec_nat (fst s) @ ''-'' @ dec_nat (snd s)) = Some (dec_nat (fst s), dec_nat (snd s))"
      using strtok_first[of "dec_nat (fst s)" "CHR ''-''" "''-'' @ dec_nat (snd s)"] no_sep_dec by auto
    with False a v[of "snd s"] v[of "fst s"] show ?thesis by (simp add: parse_part_def span_text_def Let_def)
  qed
qed

lemma parse_spans:
  assumes "small_cores cl" "\<forall>s \<in> set ss. span_ok s"
  shows "\<exists>cl'. parse_patrol_result (spans_text ss) cl = Some (CAT_OK, cl') \<and> small_cores cl' \<and>
    set (cores cl') = set (cores cl) \<union> (\<Union>s \<in> set ss. span_set s)"
  using assms
proof (induction ss arbitrary: cl rule: spans_text.induct)
  case 1
  then show ?case by (subst parse_patrol_result.simps) (simp add: strtok_def)
next
  case (2 s)
  let ?cl = "foldl (\<lambda>l i. snd (insert_core_to_list l i)) cl [int (fst s)..int (snd s)]"
  have ok: "span_ok s" using 2 by simp
  then have i: "small_cores ?cl \<and> set (cores ?cl) = set (cores cl) \<union> span_set s"
    using inserts_small[OF "2.prems"(1), of "[int (fst s)..int (snd s)]"] by (auto simp: span_ok_def span_set_def)
  have "strtok (CHR '','') (span_text s) = Some (span_text s, [])"
    using strtok_first[of "span_text s" "CHR '',''" "[]"] span_text_props by simp
  moreover have "parse_patrol_result [] ?cl = Some (CAT_OK, ?cl)"
    by (subst parse_patrol_result.simps) (simp add: strtok_def)
  ultimately have "parse_patrol_result (spans_text [s]) cl = Some (CAT_OK, ?cl)"
    by (subst parse_patrol_result.simps) (simp add: parse_part_span[OF ok])
  with i show ?case by auto
next
  case (3 s t ss)
  let ?cl = "foldl (\<lambda>l i. snd (insert_core_to_list l i)) cl [int (fst s)..int (snd s)]"
  have ok: "span_ok s" using 3 by simp
  then have i: "small_cores ?cl" "set (cores ?cl) = set (cores cl) \<union> span_set s"
    using inserts_small[OF "3.prems"(1), of "[int (fst s)..int (snd s)]"] by (auto simp: span_ok_def span_set_def)
  have "strtok (CHR '','') (span_text s @ '','' @ spans_text (t # ss)) = Some (span_text s, spans_text (t # ss))"
    using strtok_first[of "span_text s" "CHR '',''" "'','' @ spans_text (t # ss)"] span_text_props by simp
  then have "parse_patrol_result (spans_text (s # t # ss)) cl = parse_patrol_result (spans_text (t # ss)) ?cl"
    by (subst parse_patrol_result.simps) (simp add: parse_part_span[OF ok])
  with "3.IH"[OF i(1)] "3.prems"(2) i(2) show ?case by (auto simp: Un_assoc)
qed

text \<open>C3: The parser of the patrol result is the inverse of the kernel's printing: from the text of any
  ranges of cores between 1 and 4095 it builds a strictly sorted list, within the 4096 slots, of
  exactly the cores in the ranges, whatever their order and overlap.\<close>

theorem parse_patrol_result_correct:
  assumes "\<forall>s \<in> set ss. span_ok s"
  shows "\<exists>cl. parse_patrol_result (spans_text ss) empty_core_list = Some (CAT_OK, cl) \<and>
    wf_cores cl \<and> set (cores cl) = (\<Union>s \<in> set ss. span_set s)"
  using parse_spans[OF _ assms, of empty_core_list] by (auto simp: small_cores_def)

theorem parse_patrol_result_correct_witness:
  "\<exists>cl. parse_patrol_result (spans_text [(7, 9), (1, 3), (8, 12)]) empty_core_list = Some (CAT_OK, cl) \<and>
    wf_cores cl \<and> set (cores cl) = (\<Union>s \<in> {(7, 9), (1, 3), (8, 12)}. span_set s)"
  using parse_patrol_result_correct[of "[(7, 9), (1, 3), (8, 12)]"] by (simp add: span_ok_def)

text \<open>Inserting a core keeps the list strictly sorted, positive and within its 4096 slots, and
  inserts exactly that core into the set it holds; core 0 is left out, a negative number is an
  error that changes nothing, and a full list is left as it is.\<close>

lemma insert_core_correct:
  assumes "wf_cores cl" and "insert_core_to_list cl c = (r, cl')"
  shows "wf_cores cl' \<and> (r = CAT_ERR \<longleftrightarrow> c < 0) \<and>
    set (cores cl') = (if 0 < c \<and> current_nums cl < MAX_CPU_CORES then insert c (set (cores cl)) else set (cores cl))"
  using insert_core_spec[OF assms] .

lemma insert_core_correct_example:
  "set (cores (snd (insert_core_to_list (snd (insert_core_to_list empty_core_list 9)) 5))) = {5, 9}"
proof -
  obtain r cl where a: "insert_core_to_list empty_core_list 9 = (r, cl)" by force
  obtain r' cl' where b: "insert_core_to_list cl 5 = (r', cl')" by force
  have e: "wf_cores empty_core_list" "current_nums empty_core_list = 0" "set (cores empty_core_list) = {}"
    by (simp_all) (simp add: empty_core_list_def)
  from insert_core_correct[OF e(1) a] e have c: "wf_cores cl" "set (cores cl) = {9}" by auto
  then have "current_nums cl \<le> 1"
    using length_cores[OF c(1)] distinct_card[of "cores cl"] by (auto simp: wf_cores_def strict_sorted_iff)
  with insert_core_correct[OF c(1) b] c a b show ?thesis by auto
qed

end
