(* ===== verification/Regex.thy ===== *)
theory Regex
  imports CText
begin

text \<open>
  Extended regular expressions as \<open>regcomp\<close>/\<open>regexec\<close> and \<open>std::regex_match\<close> match them for the
  anchored patterns of the sources: the expression, the language it denotes, a matcher by
  derivatives, and the proof that the matcher decides the language.
\<close>

datatype rx =
    RNone
  | REps
  | RChar "char \<Rightarrow> bool"
  | RCat rx rx
  | RAlt rx rx
  | RStar rx

definition RPlus :: "rx \<Rightarrow> rx" where
  "RPlus r = RCat r (RStar r)"

definition ROpt :: "rx \<Rightarrow> rx" where
  "ROpt r = RAlt r REps"

fun RString :: "string \<Rightarrow> rx" where
  "RString [] = REps"
| "RString (c # cs) = RCat (RChar (\<lambda>x. x = c)) (RString cs)"

inductive matches :: "rx \<Rightarrow> string \<Rightarrow> bool" where
  m_eps: "matches REps []"
| m_char: "p c \<Longrightarrow> matches (RChar p) [c]"
| m_cat: "matches r s \<Longrightarrow> matches q t \<Longrightarrow> matches (RCat r q) (s @ t)"
| m_alt1: "matches r s \<Longrightarrow> matches (RAlt r q) s"
| m_alt2: "matches q s \<Longrightarrow> matches (RAlt r q) s"
| m_star0: "matches (RStar r) []"
| m_star: "matches r s \<Longrightarrow> s \<noteq> [] \<Longrightarrow> matches (RStar r) t \<Longrightarrow> matches (RStar r) (s @ t)"

inductive_cases m_noneE: "matches RNone s"
inductive_cases m_epsE: "matches REps s"
inductive_cases m_charE: "matches (RChar p) s"
inductive_cases m_catE: "matches (RCat r q) s"
inductive_cases m_altE: "matches (RAlt r q) s"
inductive_cases m_starE: "matches (RStar r) s"

fun nullable :: "rx \<Rightarrow> bool" where
  "nullable RNone = False"
| "nullable REps = True"
| "nullable (RChar p) = False"
| "nullable (RCat r q) = (nullable r \<and> nullable q)"
| "nullable (RAlt r q) = (nullable r \<or> nullable q)"
| "nullable (RStar r) = True"

fun deriv :: "char \<Rightarrow> rx \<Rightarrow> rx" where
  "deriv c RNone = RNone"
| "deriv c REps = RNone"
| "deriv c (RChar p) = (if p c then REps else RNone)"
| "deriv c (RCat r q) =
     (if nullable r then RAlt (RCat (deriv c r) q) (deriv c q) else RCat (deriv c r) q)"
| "deriv c (RAlt r q) = RAlt (deriv c r) (deriv c q)"
| "deriv c (RStar r) = RCat (deriv c r) (RStar r)"

fun rx_match :: "rx \<Rightarrow> string \<Rightarrow> bool" where
  "rx_match r [] = nullable r"
| "rx_match r (c # cs) = rx_match (deriv c r) cs"

lemma nullable_iff: "nullable r \<longleftrightarrow> matches r []"
proof (induction r)
  case (RCat r q)
  have "matches (RCat r q) [] \<longleftrightarrow> matches r [] \<and> matches q []"
  proof
    show "matches (RCat r q) [] \<Longrightarrow> matches r [] \<and> matches q []" by (erule m_catE) auto
    show "matches r [] \<and> matches q [] \<Longrightarrow> matches (RCat r q) []"
      using m_cat[of r "[]" q "[]"] by simp
  qed
  with RCat show ?case by simp
qed (auto intro: matches.intros elim: m_noneE m_epsE m_charE m_altE)

lemma deriv_iff: "matches (deriv c r) s \<longleftrightarrow> matches r (c # s)"
proof (induction r arbitrary: s)
  case (RCat r q)
  have cat: "matches (RCat r q) (c # s) \<longleftrightarrow>
      (matches r [] \<and> matches q (c # s)) \<or> (\<exists>u v. s = u @ v \<and> matches r (c # u) \<and> matches q v)" for s
  proof
    assume "matches (RCat r q) (c # s)"
    then show "(matches r [] \<and> matches q (c # s)) \<or> (\<exists>u v. s = u @ v \<and> matches r (c # u) \<and> matches q v)"
    proof (rule m_catE)
      fix x y assume "c # s = x @ y" "matches r x" "matches q y"
      then show ?thesis by (cases x) auto
    qed
  next
    assume "(matches r [] \<and> matches q (c # s)) \<or> (\<exists>u v. s = u @ v \<and> matches r (c # u) \<and> matches q v)"
    then show "matches (RCat r q) (c # s)"
      using m_cat[of r "[]" q "c # s"] m_cat[of r "c # _" q] by fastforce
  qed
  have dcat: "matches (RCat (deriv c r) q) s \<longleftrightarrow> (\<exists>u v. s = u @ v \<and> matches r (c # u) \<and> matches q v)"
    using RCat.IH(1) by (auto elim!: m_catE intro: m_cat)
  show ?case using cat dcat RCat.IH(2) by (auto simp: nullable_iff elim!: m_altE intro: matches.intros)
next
  case (RAlt r q)
  then show ?case by (auto elim!: m_altE intro: matches.intros)
next
  case (RStar r)
  show ?case
  proof
    assume "matches (deriv c (RStar r)) s"
    then obtain u v where "s = u @ v" "matches r (c # u)" "matches (RStar r) v"
      using RStar.IH by (auto elim!: m_catE)
    then show "matches (RStar r) (c # s)" using m_star[of r "c # u" v] by simp
  next
    assume "matches (RStar r) (c # s)"
    then show "matches (deriv c (RStar r)) s"
    proof (rule m_starE)
      fix x y assume h: "c # s = x @ y" "matches r x" "x \<noteq> []" "matches (RStar r) y"
      then obtain u where "x = c # u" "s = u @ y" by (cases x) auto
      with h show ?thesis using RStar.IH[of u] by (auto intro: m_cat)
    qed simp
  qed
qed (auto elim: m_noneE m_epsE m_charE intro: matches.intros split: if_splits)

theorem rx_match_iff: "rx_match r s \<longleftrightarrow> matches r s"
  by (induction s arbitrary: r) (simp_all add: nullable_iff deriv_iff)

end
