(* ===== verification/CpuPatrol.thy ===== *)
theory CpuPatrol
  imports CpuPatrolResult Regex
begin

text \<open>
  \<open>cpu_sentry/catlib/plugin/cpu_patrol/cpu_patrol.c\<close>: the patrol that \<open>lib_cpu_patrol_start\<close>
  runs against the kernel interface and the signal handler \<open>lib_cpu_patrol_stop\<close>. The state is
  the flag \<open>g_stop_flag\<close> and the list of isolated cores. The handler is asynchronous: the
  argument \<open>sig\<close> says before which tests of the flag a signal is delivered.
\<close>

record cpu_patrol_para =
  cpumask :: string
  cpu_utility :: int
  patrol_times :: int
  patrol_second :: int

record patrol_state =
  g_stop_flag :: bool
  g_isolated_core_list :: core_list_st

abbreviation PATROL_TIMES_PER_ITERATION :: int where "PATROL_TIMES_PER_ITERATION \<equiv> 200"
abbreviation g_CONVERT_TO_PERCENTAGE :: int where "g_CONVERT_TO_PERCENTAGE \<equiv> 100"
abbreviation MAX_CPU_UTILITY :: int where "MAX_CPU_UTILITY \<equiv> 100"
abbreviation SIGINT :: int where "SIGINT \<equiv> 2"
abbreviation SIGTERM :: int where "SIGTERM \<equiv> 15"

definition KERNEL_INTF_PATH_CPUMASK :: string where
  "KERNEL_INTF_PATH_CPUMASK = ''/sys/devices/system/cpu/cpuinspect/cpumask''"
definition KERNEL_INTF_PATH_PATROL_TIMES :: string where
  "KERNEL_INTF_PATH_PATROL_TIMES = ''/sys/devices/system/cpu/cpuinspect/patrol_times''"
definition KERNEL_INTF_PATH_CPU_UTILITY :: string where
  "KERNEL_INTF_PATH_CPU_UTILITY = ''/sys/devices/system/cpu/cpuinspect/cpu_utility''"

definition set_stop_flag :: "bool \<Rightarrow> patrol_state \<Rightarrow> patrol_state" where
  "set_stop_flag flag s = s\<lparr>g_stop_flag := flag\<rparr>"

section \<open>The kernel interface\<close>

definition write_patrol_config :: "string \<Rightarrow> string \<Rightarrow> world \<Rightarrow> (cat_return_t \<times> world) option" where
  "write_patrol_config path config w = do {
     (fd, w) \<leftarrow> call (Q_open path O_RDWR) w;
     if fd < 0 then Some (CAT_GENERIC_ERROR, w)
     else do {
       (ret, w) \<leftarrow> WriteAll fd config w;
       if ret < 0 then do {
         (_, w) \<leftarrow> call (Q_close fd) w;
         if errno w = EINVAL then Some (CAT_INVALID_PARAMETER, w) else Some (CAT_GENERIC_ERROR, w) }
       else do { (_, w) \<leftarrow> call (Q_close fd) w; Some (CAT_OK, w) } } }"

definition set_patrol_cpumask :: "string \<Rightarrow> world \<Rightarrow> (cat_return_t \<times> world) option" where
  "set_patrol_cpumask cpu_mask w = write_patrol_config KERNEL_INTF_PATH_CPUMASK cpu_mask w"

definition set_patrol_times :: "int \<Rightarrow> world \<Rightarrow> (cat_return_t \<times> world) option" where
  "set_patrol_times patrol_n w =
     (let (tmpstr, ret) = snprintf 11 (dec_nat (nat patrol_n)) in
      if ret \<le> 0 then Some (CAT_GENERIC_ERROR, w)
      else write_patrol_config KERNEL_INTF_PATH_PATROL_TIMES tmpstr w)"

definition set_patrol_cpu_utility :: "int \<Rightarrow> world \<Rightarrow> (cat_return_t \<times> world) option" where
  "set_patrol_cpu_utility utility w =
     (let (tmpstr, ret) = snprintf 11 (dec_nat (nat utility)) in
      if ret \<le> 0 then Some (CAT_GENERIC_ERROR, w)
      else write_patrol_config KERNEL_INTF_PATH_CPU_UTILITY tmpstr w)"

text \<open>\<open>^([0-9]+(-[0-9]+)*,?)+$\<close>\<close>

definition cpulist_rx :: rx where
  "cpulist_rx =
     RPlus (RCat (RPlus (RChar is_digit))
            (RCat (RStar (RCat (RChar (\<lambda>c. c = CHR ''-'')) (RPlus (RChar is_digit))))
                  (ROpt (RChar (\<lambda>c. c = CHR '','')))))"

definition check_cpumask :: "string \<Rightarrow> cat_return_t" where
  "check_cpumask cpu_mask = (if \<not> rx_match cpulist_rx cpu_mask then CAT_INVALID_PARAMETER else CAT_OK)"

definition start_patrol :: "bool \<Rightarrow> world \<Rightarrow> (cat_return_t \<times> world) option" where
  "start_patrol is_start w = do {
     (fd, w) \<leftarrow> call (Q_open ''/sys/devices/system/cpu/cpuinspect/start_patrol'' O_WRONLY) w;
     if fd < 0 then Some (CAT_GENERIC_ERROR, w)
     else do {
       let start_switch = (if is_start then CHR ''1'' else CHR ''0'');
       (ret, w) \<leftarrow> WriteAll fd [start_switch] w;
       if ret < 0 then do { (_, w) \<leftarrow> call (Q_close fd) w; Some (CAT_GENERIC_ERROR, w) }
       else do { (_, w) \<leftarrow> call (Q_close fd) w; Some (CAT_OK, w) } } }"

definition is_patrol_running :: "world \<Rightarrow> (bool \<times> world) option" where
  "is_patrol_running w = do {
     (fd, w) \<leftarrow> call (Q_open ''/sys/devices/system/cpu/cpuinspect/patrol_complete'' O_RDONLY) w;
     if fd < 0 then Some (False, w)
     else do {
       (n, d, w) \<leftarrow> fetch (Q_read fd 1) w;
       if 0 < n \<and> hd d = CHR ''1'' then do { (_, w) \<leftarrow> call (Q_close fd) w; Some (False, w) }
       else do { (_, w) \<leftarrow> call (Q_close fd) w; Some (True, w) } } }"

text \<open>The parameters on return; on an error the fields assigned so far are set.\<close>

definition fill_patrol_para ::
  "string \<Rightarrow> int \<Rightarrow> int \<Rightarrow> cpu_patrol_para \<Rightarrow> cat_return_t \<times> cpu_patrol_para" where
  "fill_patrol_para cpu_mask utility second p =
     (if check_cpumask cpu_mask \<noteq> CAT_OK then (CAT_INVALID_PARAMETER, p)
      else let p = p\<lparr>cpumask := cpu_mask\<rparr> in
        if second \<le> 0 then (CAT_INVALID_PARAMETER, p)
        else let p = p\<lparr>patrol_second := second\<rparr> in
          if MAX_CPU_UTILITY < utility \<or> utility < 0 then (CAT_INVALID_PARAMETER, p)
          else
            let p = p\<lparr>cpu_utility := utility\<rparr>;
                p = p\<lparr>patrol_times := PATROL_TIMES_PER_ITERATION * cpu_utility p div g_CONVERT_TO_PERCENTAGE\<rparr>;
                p = p\<lparr>patrol_times := (if patrol_times p = 0 then 1 else patrol_times p)\<rparr>
            in (CAT_OK, p))"

definition set_patrol_policy :: "cpu_patrol_para \<Rightarrow> world \<Rightarrow> (cat_return_t \<times> world) option" where
  "set_patrol_policy p w = do {
     (ret, w) \<leftarrow> set_patrol_cpumask (cpumask p) w;
     if ret \<noteq> CAT_OK then Some (ret, w)
     else do {
       (ret, w) \<leftarrow> set_patrol_times (patrol_times p) w;
       if ret \<noteq> CAT_OK then Some (ret, w)
       else do {
         (_, w) \<leftarrow> set_patrol_cpu_utility (cpu_utility p) w;
         Some (CAT_OK, w) } } }"

section \<open>Stopping\<close>

definition stop :: "patrol_state \<times> world \<Rightarrow> (cat_return_t \<times> patrol_state \<times> world) option" where
  "stop = (\<lambda>(s, w). do {
     let s = set_stop_flag True s;
     (ret, w) \<leftarrow> start_patrol False w;
     Some (ret, s, w) })"

definition lib_cpu_patrol_stop :: "patrol_state \<times> world \<Rightarrow> (patrol_state \<times> world) option" where
  "lib_cpu_patrol_stop = (\<lambda>(s, w). do {
     (busy, w) \<leftarrow> call (Q_trylock ''g_stop_mutex'') w;
     if busy \<noteq> 0 then Some (s, w)
     else do {
       (_, s, w) \<leftarrow> stop (s, w);
       (_, w) \<leftarrow> call (Q_unlock ''g_stop_mutex'') w;
       Some (s, w) } })"

section \<open>The patrol\<close>

lemma is_patrol_running_script:
  "is_patrol_running w = Some (b, v) \<Longrightarrow> length (script v) < length (script w)"
proof -
  have "returns (is_patrol_running w) (\<lambda>(b, v). length (script v) < length (script w))"
    unfolding is_patrol_running_def by (intro script_intros) auto
  then show "is_patrol_running w = Some (b, v) \<Longrightarrow> length (script v) < length (script w)"
    by (auto dest: returnsD)
qed

text \<open>The inner loop: ask every 500 ms whether the kernel has finished.\<close>

function wait_patrol :: "nat \<Rightarrow> world \<Rightarrow> world option" where
  "wait_patrol wait_time w = do {
     (running, w) \<leftarrow> is_patrol_running w;
     if \<not> running then Some w
     else do { (_, w) \<leftarrow> call (Q_usleep wait_time) w; wait_patrol wait_time w } }"
  by pat_completeness auto
termination
  by (relation "measure (\<lambda>(n, w). length (script w))")
     (auto dest!: is_patrol_running_script call_script)

declare wait_patrol.simps [simp del]

text \<open>
  The outer loop of \<open>run\<close>; \<open>k\<close> counts the tests of the flag. \<open>monotonic\<close> is \<open>clock_gettime\<close>
  followed by \<open>localtime_r\<close> and \<open>mktime\<close>: seconds, or \<open>None\<close> when one of them fails.
\<close>

definition monotonic :: "world \<Rightarrow> (int option \<times> world) option" where
  "monotonic w = do {
     (r, d, w) \<leftarrow> fetch Q_gettime w;
     if r = - 1 then Some (None, w)
     else do {
       (r, w) \<leftarrow> call (Q_library ''localtime_r'' []) w;
       if r < 0 then Some (None, w)
       else Some (Some (le_i64 (take 8 (fill 16 d))), w) } }"

lemma monotonic_script: "monotonic w = Some (t, v) \<Longrightarrow> length (script v) < length (script w)"
proof -
  have "returns (monotonic w) (\<lambda>(b, v). length (script v) < length (script w))"
    unfolding monotonic_def by (intro script_intros) auto
  then show "monotonic w = Some (t, v) \<Longrightarrow> length (script v) < length (script w)"
    by (auto dest: returnsD)
qed

partial_function (option) run_loop ::
  "(nat \<Rightarrow> bool) \<Rightarrow> int list \<Rightarrow> cpu_patrol_para \<Rightarrow> int \<Rightarrow> nat \<Rightarrow> patrol_state \<Rightarrow> world
     \<Rightarrow> (cat_return_t \<times> patrol_state \<times> world) option" where
  "run_loop sig junk p start_time k s w = do {
     (s, w) \<leftarrow> (if sig k then lib_cpu_patrol_stop (s, w) else Some (s, w));
     if g_stop_flag s then Some (CAT_OK, s, w)
     else do {
       (t, w) \<leftarrow> monotonic w;
       case t of
         None \<Rightarrow> Some (CAT_ERR, s, w)
       | Some end_time \<Rightarrow>
           if patrol_second p \<le> end_time - start_time then Some (CAT_OK, s, w)
           else do {
             (ret, w) \<leftarrow> start_patrol True w;
             if ret \<noteq> CAT_OK then Some (CAT_OK, s, w)
             else do {
               (_, w) \<leftarrow> call (Q_usleep (500 * 1000)) w;
               w \<leftarrow> wait_patrol (500 * 1000) w;
               (l, w) \<leftarrow> handle_patrol_result junk (g_isolated_core_list s) w;
               run_loop sig junk p start_time (k + 1) (s\<lparr>g_isolated_core_list := l\<rparr>) w } } } }"

definition run ::
  "(nat \<Rightarrow> bool) \<Rightarrow> int list \<Rightarrow> cpu_patrol_para \<Rightarrow> patrol_state \<Rightarrow> world
     \<Rightarrow> (cat_return_t \<times> patrol_state \<times> world) option" where
  "run sig junk p s w = do {
     (ret, w) \<leftarrow> set_patrol_policy p w;
     if ret \<noteq> CAT_OK then Some (ret, s, w)
     else do {
       (_, w) \<leftarrow> call (Q_signal SIGTERM 0) w;
       (_, w) \<leftarrow> call (Q_signal SIGINT 0) w;
       (t, w) \<leftarrow> monotonic w;
       case t of
         None \<Rightarrow> Some (CAT_ERR, s, w)
       | Some start_time \<Rightarrow> run_loop sig junk p start_time 0 s w } }"

definition start ::
  "(nat \<Rightarrow> bool) \<Rightarrow> int list \<Rightarrow> string \<Rightarrow> int \<Rightarrow> int \<Rightarrow> int set \<Rightarrow> patrol_state \<Rightarrow> world
     \<Rightarrow> (cat_return_t \<times> int set \<times> patrol_state \<times> world) option" where
  "start sig junk cpu_mask utility second cpu_set s w = do {
     (running, w) \<leftarrow> is_patrol_running w;
     if running then Some (CAT_ALREADY_RUNNING, cpu_set, s, w)
     else do {
       let s = set_stop_flag False s;
       let s = s\<lparr>g_isolated_core_list := clear_patrol_result (g_isolated_core_list s)\<rparr>;
       let (ret, p) = fill_patrol_para cpu_mask utility second
             \<lparr>cpumask = [], cpu_utility = 0, patrol_times = PATROL_TIMES_PER_ITERATION, patrol_second = 0\<rparr>;
       if ret \<noteq> CAT_OK then Some (ret, cpu_set, s, w)
       else do {
         (ret, s, w) \<leftarrow> run sig junk p s w;
         if ret \<noteq> CAT_OK then Some (ret, cpu_set, s, w)
         else do {
           let (ret, cpu_set) = get_patrol_result (g_isolated_core_list s) cpu_set;
           Some (ret, cpu_set, s, w) } } } }"

definition lib_cpu_patrol_start ::
  "(nat \<Rightarrow> bool) \<Rightarrow> int list \<Rightarrow> string \<Rightarrow> int \<Rightarrow> int \<Rightarrow> int set \<Rightarrow> patrol_state \<Rightarrow> world
     \<Rightarrow> (cat_return_t \<times> int set \<times> patrol_state \<times> world) option" where
  "lib_cpu_patrol_start sig junk cpu_mask utility second cpu_set s w = do {
     (busy, w) \<leftarrow> call (Q_trylock ''g_start_mutex'') w;
     if busy \<noteq> 0 then Some (CAT_ALREADY_RUNNING, cpu_set, s, w)
     else do {
       (ret, cpu_set, s, w) \<leftarrow> start sig junk cpu_mask utility second cpu_set s w;
       (_, w) \<leftarrow> call (Q_unlock ''g_start_mutex'') w;
       Some (ret, cpu_set, s, w) } }"

section \<open>Resources and the list of isolated cores\<close>

lemma socket_lines_returns:
  "balance w = b \<Longrightarrow> length (script w) \<le> n \<Longrightarrow>
   returns (socket_lines file core pair w)
     (\<lambda>(r, v). balance v = (\<lambda>x. b x - of_bool (x = File file)) \<and> length (script v) \<le> n)"
proof (induction "length (script w)" arbitrary: pair w rule: less_induct)
  case less
  show ?case
    using less.prems
    by (subst socket_lines.simps, intro ret_intros less.hyps) (simp_all add: fun_eq_iff req_delta_def)
qed

lemma get_socket_id_returns:
  "returns (get_socket_id junk core w) (\<lambda>(r, v). balance v = balance w \<and> length (script v) \<le> length (script w))"
  unfolding get_socket_id_def
  by (intro ret_intros socket_lines_returns[OF refl order_refl, THEN returns_mono, unfolded split_paired_all split_conv])
    (auto simp: fun_eq_iff req_delta_def)

lemma open_cpu_sys_file_returns:
  "returns (open_cpu_sys_file cpu fl w) (\<lambda>(fd, v).
     (fd = - 1 \<and> balance v = balance w \<or> 0 \<le> fd \<and> balance v = (\<lambda>x. balance w x + of_bool (x = Fd fd))) \<and>
     length (script v) \<le> length (script w))"
  unfolding open_cpu_sys_file_def
  by (intro ret_intros) (auto simp: fun_eq_iff req_delta_def)

lemma get_cpu_core_status_returns:
  "returns (get_cpu_core_status cpu w) (\<lambda>(s, v). balance v = balance w \<and> length (script v) \<le> length (script w))"
  unfolding get_cpu_core_status_def
  by (intro ret_intros open_cpu_sys_file_returns[THEN returns_mono, unfolded split_paired_all split_conv])
    (auto simp: fun_eq_iff req_delta_def)

lemma do_cpu_core_offline_returns:
  "returns (do_cpu_core_offline cpu w) (\<lambda>(r, v). balance v = balance w \<and> length (script v) \<le> length (script w))"
  unfolding do_cpu_core_offline_def
  by (intro ret_intros open_cpu_sys_file_returns[THEN returns_mono, unfolded split_paired_all split_conv]
      get_cpu_core_status_returns[THEN returns_mono, unfolded split_paired_all split_conv])
    (auto simp: fun_eq_iff req_delta_def)

lemmas patrol_intros = ret_intros
  get_socket_id_returns[THEN returns_mono, unfolded split_paired_all split_conv]
  get_cpu_core_status_returns[THEN returns_mono, unfolded split_paired_all split_conv]
  do_cpu_core_offline_returns[THEN returns_mono, unfolded split_paired_all split_conv]
  cpu_alarm_Report_returns[THEN returns_mono, unfolded split_paired_all split_conv]

lemma insert_wf: "wf_cores l \<Longrightarrow> wf_cores (snd (insert_core_to_list l c)) \<and>
    set (cores (snd (insert_core_to_list l c))) \<subseteq> set (cores l) \<union> {c}"
  by (cases "insert_core_to_list l c") (auto dest: insert_core_spec split: if_splits)

lemma isolate_loop_returns:
  "wf_cores l \<Longrightarrow> balance w = b \<Longrightarrow> length (script w) \<le> n \<Longrightarrow> \<forall>c \<in> set cs. 0 < c \<and> c < 2 ^ 31 \<Longrightarrow>
   \<forall>c \<in> set cs. c < ncores \<longrightarrow> c \<in> M \<Longrightarrow> set (cores l) \<subseteq> M \<Longrightarrow>
   returns (isolate_loop junk ncores cs l w) (\<lambda>(l', v). balance v = b \<and> length (script v) \<le> n \<and>
     wf_cores l' \<and> set (cores l') \<subseteq> M)"
proof (induction cs arbitrary: l w)
  case (Cons c cs)
  have c: "to_i32 c = c" "to_u32 c = c" using Cons.prems by (auto simp: to_i32_id to_u32_id)
  have ins: "wf_cores (snd (insert_core_to_list l c))"
    "c \<in> M \<Longrightarrow> set (cores (snd (insert_core_to_list l c))) \<subseteq> M"
    using insert_wf[OF Cons.prems(1), of c] Cons.prems(6) by auto
  show ?case
    unfolding isolate_loop.simps Let_def c
    by (intro patrol_intros Cons.IH) (use Cons.prems ins in \<open>auto simp: fun_eq_iff\<close>)
qed (auto simp: returns_def)

definition int_cores :: "core_list_st \<Rightarrow> bool" where
  "int_cores l \<longleftrightarrow> wf_cores l \<and> (\<forall>c \<in> set (cores l). c < 2 ^ 31)"

lemma int_cores_empty [simp]: "int_cores empty_core_list"
  by (simp add: int_cores_def)

lemma isolate_returns:
  assumes "wf_cores l" "int_cores fl" "balance w = b" "length (script w) \<le> n"
  shows "returns (isolate_cpu_core junk l fl w) (\<lambda>(l', v). balance v = b \<and> length (script v) \<le> n \<and>
     wf_cores l' \<and> set (cores l') \<subseteq> set (cores l) \<union> set (cores fl))"
  unfolding isolate_cpu_core_def cores_def[symmetric] Let_def
  by (intro ret_intros isolate_loop_returns)
    (use assms in \<open>auto simp: fun_eq_iff int_cores_def wf_cores_def\<close>)

lemma insert_int: "int_cores l \<Longrightarrow> c < 2 ^ 31 \<Longrightarrow> int_cores (snd (insert_core_to_list l c))"
  using insert_wf[of l c] by (auto simp: int_cores_def)

lemma parse_part_int: "int_cores l \<Longrightarrow> parse_part t l = Some (r, l') \<Longrightarrow> int_cores l'"
proof -
  have "int_cores l \<Longrightarrow> \<forall>c \<in> set cs. c < 2 ^ 31 \<Longrightarrow> int_cores (foldl (\<lambda>l i. snd (insert_core_to_list l i)) l cs)" for cs
    by (induction cs arbitrary: l) (auto simp: insert_int)
  then have "int_cores l \<Longrightarrow> int_cores (foldl (\<lambda>l i. snd (insert_core_to_list l i)) l [a..to_i32 b])" for a b
    using to_i32_range[of b] by simp
  moreover have "to_i32 x < 2147483648" for x using to_i32_range[of x] by simp
  ultimately show "int_cores l \<Longrightarrow> parse_part t l = Some (r, l') \<Longrightarrow> int_cores l'"
    by (auto simp: parse_part_def Let_def insert_int not_less split: option.splits if_splits)
qed

lemma parse_int: "int_cores l \<Longrightarrow> parse_patrol_result t l = Some (r, l') \<Longrightarrow> int_cores l'"
proof (induction t l rule: parse_patrol_result.induct)
  case (1 t l)
  show ?case
  proof (cases "strtok (CHR '','') t")
    case None
    with 1 show ?thesis by (subst (asm) parse_patrol_result.simps) simp
  next
    case (Some a)
    obtain s rest where a: "a = (s, rest)" by force
    from "1.prems"(2) Some a obtain r0 l0 where p: "parse_part s l = Some (r0, l0)"
      by (subst (asm) parse_patrol_result.simps) (auto simp: bind_eq_Some_conv)
    show ?thesis
    proof (cases "r0 = CAT_ERR")
      case True
      with "1.prems" Some a p show ?thesis
        by (subst (asm) parse_patrol_result.simps) (auto intro: parse_part_int)
    next
      case False
      with "1.prems" Some a p have "parse_patrol_result rest l0 = Some (r, l')"
        by (subst (asm) parse_patrol_result.simps) simp
      from "1.IH"[OF Some a[symmetric] p refl False parse_part_int[OF "1.prems"(1) p] this] show ?thesis .
    qed
  qed
qed


lemma parse_returns: "returns (parse_patrol_result t empty_core_list) (\<lambda>(r, l). int_cores l)"
  by (rule returnsI) (auto dest: parse_int[OF int_cores_empty])

lemma handle_returns:
  assumes "wf_cores l" "balance w = b" "length (script w) \<le> n"
  shows "returns (handle_patrol_result junk l w) (\<lambda>(l', v). balance v = b \<and> length (script v) \<le> n \<and> wf_cores l')"
  unfolding handle_patrol_result_def get_result_def get_cpu_count_def
  by (intro ret_intros isolate_returns[OF _ _ refl order_refl, THEN returns_mono, unfolded split_paired_all split_conv]
      parse_returns[THEN returns_mono, unfolded split_paired_all split_conv])
    (insert assms, simp_all add: fun_eq_iff req_delta_def)

lemma is_patrol_running_returns:
  "returns (is_patrol_running w) (\<lambda>(r, v). balance v = balance w \<and> length (script v) < length (script w))"
  unfolding is_patrol_running_def
  by (intro ret_intros) (auto simp: fun_eq_iff req_delta_def)

lemma wait_patrol_returns:
  "balance w = b \<Longrightarrow> length (script w) \<le> n \<Longrightarrow>
   returns (wait_patrol k w) (\<lambda>v. balance v = b \<and> length (script v) \<le> n)"
proof (induction "length (script w)" arbitrary: w rule: less_induct)
  case less
  show ?case
    using less.prems
    by (subst wait_patrol.simps, intro ret_intros less.hyps
        is_patrol_running_returns[THEN returns_mono, unfolded split_paired_all split_conv])
      (simp_all add: fun_eq_iff)
qed

lemma start_patrol_returns:
  "returns (start_patrol b w) (\<lambda>(r, v). balance v = balance w \<and> length (script v) \<le> length (script w))"
  unfolding start_patrol_def
  by (intro ret_intros) (auto simp: fun_eq_iff req_delta_def)

lemma stop_returns:
  "returns (lib_cpu_patrol_stop (s, w)) (\<lambda>(s', v). balance v = balance w \<and> length (script v) \<le> length (script w) \<and>
     g_isolated_core_list s' = g_isolated_core_list s)"
  unfolding lib_cpu_patrol_stop_def stop_def set_stop_flag_def
  by (intro ret_intros start_patrol_returns[THEN returns_mono, unfolded split_paired_all split_conv])
    (auto simp: fun_eq_iff)

lemma monotonic_returns:
  "returns (monotonic w) (\<lambda>(t, v). balance v = balance w \<and> length (script v) < length (script w))"
  unfolding monotonic_def by (intro ret_intros) (auto simp: fun_eq_iff)

lemma write_config_returns:
  "returns (write_patrol_config p c w) (\<lambda>(r, v). balance v = balance w \<and> length (script v) \<le> length (script w))"
  unfolding write_patrol_config_def by (intro ret_intros) (auto simp: fun_eq_iff req_delta_def)

lemmas run_intros = ret_intros
  is_patrol_running_returns[THEN returns_mono, unfolded split_paired_all split_conv]
  wait_patrol_returns[OF refl order_refl, THEN returns_mono]
  start_patrol_returns[THEN returns_mono, unfolded split_paired_all split_conv]
  stop_returns[THEN returns_mono, unfolded split_paired_all split_conv]
  monotonic_returns[THEN returns_mono, unfolded split_paired_all split_conv]
  write_config_returns[THEN returns_mono, unfolded split_paired_all split_conv]
  handle_returns[OF _ refl order_refl, THEN returns_mono, unfolded split_paired_all split_conv]

lemma run_loop_returns:
  "balance w = b \<Longrightarrow> wf_cores (g_isolated_core_list s) \<Longrightarrow>
   returns (run_loop sig junk p t0 k s w) (\<lambda>(r, s', v). balance v = b \<and> wf_cores (g_isolated_core_list s'))"
proof (induction "length (script w)" arbitrary: k s w rule: less_induct)
  case less
  show ?case
    using less.prems
    by (subst run_loop.simps, intro run_intros less.hyps) (simp_all add: fun_eq_iff)
qed

lemma run_returns:
  "wf_cores (g_isolated_core_list s) \<Longrightarrow>
   returns (run sig junk p s w) (\<lambda>(r, s', v). balance v = balance w \<and> wf_cores (g_isolated_core_list s'))"
  unfolding run_def set_patrol_policy_def set_patrol_cpumask_def set_patrol_times_def set_patrol_cpu_utility_def
  by (intro run_intros run_loop_returns) (simp_all add: fun_eq_iff)

lemma get_core_list_set:
  assumes "wf_cores l" "get_core_list l S = (r, S')"
  shows "r = CAT_OK \<and> S' = S \<union> {c \<in> set (cores l). c < 1024}"
proof -
  have "foldl (\<lambda>s c. CPU_SET c s) S cs = S \<union> {c \<in> set cs. 0 \<le> c \<and> c < 1024}" for cs
    by (induction cs arbitrary: S) (auto simp: CPU_SET_def)
  note f = this[of "cores l"]
  have n: "current_nums l \<le> length (order_list l)" using assms(1) by (simp add: wf_cores_def)
  have "map (\<lambda>i. order_list l ! i) [0..<current_nums l] = cores l"
    unfolding cores_def by (rule nth_equalityI) (use n in simp_all)
  from this[symmetric] have "foldl (\<lambda>s i. CPU_SET (order_list l ! i) s) S [0..<current_nums l] = foldl (\<lambda>s c. CPU_SET c s) S (cores l)"
    by (simp only: foldl_map)
  moreover have "{c \<in> set (cores l). 0 \<le> c \<and> c < 1024} = {c \<in> set (cores l). c < 1024}"
    using assms(1) by (auto simp: wf_cores_def)
  ultimately have "foldl (\<lambda>s i. CPU_SET (order_list l ! i) s) S [0..<current_nums l] = S \<union> {c \<in> set (cores l). c < 1024}"
    using f by simp
  moreover have "current_nums l = 0 \<Longrightarrow> cores l = []" by (simp add: cores_def)
  ultimately show ?thesis
    using assms(2) by (cases "current_nums l = 0") (simp_all add: get_core_list_def)
qed

lemma start_returns:
  "returns (start sig junk m u sec S s w) (\<lambda>(r, S', s', v). balance v = balance w \<and>
    (if r = CAT_OK then wf_cores (g_isolated_core_list s') \<and>
        S' = S \<union> {c \<in> set (cores (g_isolated_core_list s')). c < 1024} else S' = S))"
  unfolding start_def set_stop_flag_def clear_patrol_result_def get_patrol_result_def
  by (intro run_intros run_returns[THEN returns_mono, unfolded split_paired_all split_conv])
    (auto simp: fun_eq_iff dest!: get_core_list_set)

lemma lib_start_returns:
  "returns (lib_cpu_patrol_start sig junk m u sec S s w) (\<lambda>(r, S', s', v). balance v = balance w \<and>
    (if r = CAT_OK then wf_cores (g_isolated_core_list s') \<and>
        S' = S \<union> {c \<in> set (cores (g_isolated_core_list s')). c < 1024} else S' = S))"
  unfolding lib_cpu_patrol_start_def
  by (intro ret_intros start_returns[THEN returns_mono, unfolded split_paired_all split_conv])
    (auto simp: fun_eq_iff)

section \<open>Properties\<close>

text \<open>C22: A patrol that returns, whatever signals arrive and whatever the kernel, lscpu and the alarm
  service answer, has released every descriptor and pipe; on success the caller's set has gained
  exactly the isolated cores below 1024, and on every error it is unchanged.\<close>

theorem patrol_result:
  assumes "lib_cpu_patrol_start sig junk m u sec S s w = Some (r, S', s', w')"
  shows "balance w' = balance w \<and>
    (if r = CAT_OK then wf_cores (g_isolated_core_list s') \<and>
        S' = S \<union> {c \<in> set (cores (g_isolated_core_list s')). c < 1024}
     else S' = S)"
  using returnsD[OF lib_start_returns assms] by simp

definition demo_patrol :: world where
  "demo_patrol = boot [ans 0 [], ans (- 1) [], ans 0 []]"

theorem patrol_result_witness:
  "(case lib_cpu_patrol_start (\<lambda>_. False) [] ''x'' 50 1 {7} \<lparr>g_stop_flag = False, g_isolated_core_list = empty_core_list\<rparr>
        demo_patrol of
      Some (r, S', s', w') \<Rightarrow> r = CAT_INVALID_PARAMETER \<and> S' = {7} \<and> balance w' = (\<lambda>_. 0) | None \<Rightarrow> False)"
proof -
  let ?s = "\<lparr>g_stop_flag = False, g_isolated_core_list = empty_core_list\<rparr>"
  have "\<not> rx_match cpulist_rx ''x''" by code_simp
  then have "\<exists>S' s' w'. lib_cpu_patrol_start (\<lambda>_. False) [] ''x'' 50 1 {7} ?s demo_patrol =
      Some (CAT_INVALID_PARAMETER, S', s', w')"
    by (simp add: lib_cpu_patrol_start_def start_def is_patrol_running_def fill_patrol_para_def check_cpumask_def
        call_def sys_def demo_patrol_def posix_def ans_def Let_def)
  then obtain S' s' w' where e: "lib_cpu_patrol_start (\<lambda>_. False) [] ''x'' 50 1 {7} ?s demo_patrol =
      Some (CAT_INVALID_PARAMETER, S', s', w')" by blast
  from patrol_result[OF e] show ?thesis unfolding e by (simp add: demo_patrol_def)
qed

text \<open>The parameters of a patrol are accepted exactly when the core list matches the pattern, the
  time is positive and the load is a percentage; the number of rounds the kernel is then told is
  between 1 and 200, and twice the load above one percent.\<close>

lemma fill_patrol_para_ok:
  assumes "fill_patrol_para m u sec p = (r, p')"
  shows "(r = CAT_OK \<longleftrightarrow> rx_match cpulist_rx m \<and> 0 < sec \<and> 0 \<le> u \<and> u \<le> 100) \<and>
    (r = CAT_OK \<longrightarrow> cpumask p' = m \<and> patrol_second p' = sec \<and> cpu_utility p' = u \<and>
       1 \<le> patrol_times p' \<and> patrol_times p' \<le> 200 \<and> (0 < u \<longrightarrow> patrol_times p' = 2 * u))"
  using assms by (auto simp: fill_patrol_para_def check_cpumask_def Let_def split: if_splits)

lemma fill_patrol_para_ok_example:
  "fst (fill_patrol_para ''1-3,7'' 40 60 \<lparr>cpumask = [], cpu_utility = 0, patrol_times = 200, patrol_second = 0\<rparr>) = CAT_OK \<and> patrol_times (snd (fill_patrol_para ''1-3,7'' 40 60 \<lparr>cpumask = [], cpu_utility = 0, patrol_times = 200, patrol_second = 0\<rparr>)) = 80"
proof -
  obtain r p where e: "fill_patrol_para ''1-3,7'' 40 60 \<lparr>cpumask = [], cpu_utility = 0, patrol_times = 200, patrol_second = 0\<rparr> = (r, p)" by force
  have "rx_match cpulist_rx ''1-3,7''" by code_simp
  with fill_patrol_para_ok[OF e] show ?thesis by (simp add: e)
qed

end
