(* ===== verification/CatCli.thy ===== *)
theory CatCli
  imports CpuPatrol
begin

text \<open>
  \<open>cpu_sentry/catlib\<close>: the command line tool (\<open>catcli.c\<close>), its parameter checks
  (\<open>cli_param_checker.c\<close>) and the execution of a request (\<open>cli_executor.c\<close>). The options are the
  sequence \<open>getopt_long\<close> delivers, a letter and its argument.
\<close>

datatype cat_patrol_module =
  CAT_PATROL_CPU | CAT_PATROL_MEM | CAT_PATROL_HBM | CAT_PATROL_NPU | CAT_PATROL_UNKNOWN

record catcli_request_body =
  patrol_module :: cat_patrol_module
  req_second :: int
  req_utility :: int
  module_params :: "string option"

record option_errs =
  patrol_module_err :: string
  patrol_time_err :: string
  cpulist_err :: string
  cpu_usage_percentage_err :: string

type_synonym cli_state = "catcli_request_body \<times> option_errs"

text \<open>\<open>strncpy\<close> into a field of 128 bytes.\<close>

definition err_text :: "string \<Rightarrow> string" where
  "err_text s = take 128 s"

definition quoted :: "string \<Rightarrow> string" where
  "quoted s = CHR 0x22 # s @ [CHR 0x22]"

definition checkset_cpu_usage_percentage :: "string \<Rightarrow> cli_state \<Rightarrow> cli_state" where
  "checkset_cpu_usage_percentage optarg = (\<lambda>(b, e).
     let utility = fst (strtol optarg) in
     if utility \<le> 0 \<or> 100 < utility \<or> CHR ''.'' \<in> set optarg
     then (b\<lparr>req_utility := 0\<rparr>,
           e\<lparr>patrol_module_err := err_text (quoted ''cpu_utility '' @
              '' must be an integer greater in the range (0,100],correct '' @
              quoted ''-u, --cpu_utility'' @ ''\<newline>'')\<rparr>)
     else (b\<lparr>req_utility := to_i32 utility\<rparr>, e))"

text \<open>The loop over the parts of the list: the message of the part that is refused, if any.\<close>

function cpulist_loop :: "int \<Rightarrow> string \<Rightarrow> string option" where
  "cpulist_loop total_core s = (case strtok (CHR '','') s of
      None \<Rightarrow> None
    | Some (split, rest) \<Rightarrow>
        (case strtok (CHR ''-'') split of
           None \<Rightarrow> cpulist_loop total_core rest
         | Some (subSplit, subSavePtr) \<Rightarrow>
             let coreid_before = fst (strtol subSplit);
                 coreid_after = (if subSavePtr = [] then - 1 else fst (strtol subSavePtr))
             in if total_core < coreid_before \<or> total_core < coreid_after then
                  Some (err_text (''The specified '' @ quoted ''cpulist'' @
                    '' contain cpu core id which has exceeded the max cpu core id,correct '' @
                    quoted ''-l, --cpulist'' @ ''\<newline>''))
                else if 0 \<le> coreid_after \<and> coreid_after < coreid_before then
                  Some (err_text (quoted ''cpulist'' @
                    '' must not contain descending cpuid segment such as '' @ quoted ''8-2'' @
                    '',correct '' @ quoted ''-l, --cpulist'' @ ''\<newline>''))
                else cpulist_loop total_core rest))"
  by pat_completeness auto
termination
  by (relation "measure (\<lambda>(n, s). length s)") (auto dest: strtok_shorter)

declare cpulist_loop.simps [simp del]

definition checkset_cpulist :: "string \<Rightarrow> cli_state \<Rightarrow> world \<Rightarrow> (cli_state \<times> world) option" where
  "checkset_cpulist optarg = (\<lambda>(b, e) w.
     if \<not> rx_match cpulist_rx optarg then
       Some ((b, e\<lparr>cpulist_err := err_text (quoted ''cpulist'' @
           '' is invalid format,the correct format should be like '' @ [CHR 0x27] @ ''0-3,7'' @
           [CHR 0x27] @ '',correct '' @ quoted ''-l, --cpulist'' @ ''\<newline>'')\<rparr>), w)
     else do {
       (total_core, w) \<leftarrow> call (Q_sysconf SC_NPROCESSORS_CONF) w;
       case cpulist_loop total_core optarg of
         Some m \<Rightarrow> Some ((b, e\<lparr>cpulist_err := m\<rparr>), w)
       | None \<Rightarrow> Some ((b\<lparr>module_params := Some optarg\<rparr>, e), w) })"

definition checkset_patrol_time :: "string \<Rightarrow> cli_state \<Rightarrow> cli_state" where
  "checkset_patrol_time optarg = (\<lambda>(b, e).
     let second = fst (strtol optarg) in
     if second \<le> 0 \<or> INT_MAX < second \<or> CHR ''.'' \<in> set optarg
     then (b, e\<lparr>patrol_time_err := err_text (quoted ''patrol_second'' @
              '' must be a number in the range of (0,INT_MAX] ,correct '' @
              quoted ''-t, --patrol_second'' @ ''\<newline>'')\<rparr>)
     else (b\<lparr>req_second := to_i32 second\<rparr>, e))"

definition strcasecmp_eq :: "string \<Rightarrow> string \<Rightarrow> bool" where
  "strcasecmp_eq a b \<longleftrightarrow> map to_lower a = map to_lower b"

definition checkset_patrol_type :: "string \<Rightarrow> cli_state \<Rightarrow> cli_state" where
  "checkset_patrol_type optarg = (\<lambda>(b, e).
     if optarg = ''0x0001'' \<or> strcasecmp_eq optarg ''CPU'' then (b\<lparr>patrol_module := CAT_PATROL_CPU\<rparr>, e)
     else if optarg = ''0x0002'' \<or> strcasecmp_eq optarg ''MEM'' then (b\<lparr>patrol_module := CAT_PATROL_MEM\<rparr>, e)
     else if optarg = ''0x0004'' \<or> strcasecmp_eq optarg ''HBM'' then (b\<lparr>patrol_module := CAT_PATROL_HBM\<rparr>, e)
     else if optarg = ''0x0008'' \<or> strcasecmp_eq optarg ''NPU'' then (b\<lparr>patrol_module := CAT_PATROL_NPU\<rparr>, e)
     else (b\<lparr>patrol_module := CAT_PATROL_UNKNOWN\<rparr>,
           e\<lparr>patrol_module_err := err_text (''unknown patrol module,correct '' @
              quoted ''-m, --patrol_module'' @ ''\<newline>'')\<rparr>))"

text \<open>The errors printed, and the result.\<close>

definition checkParamsDependency :: "cli_state \<Rightarrow> cat_return_t \<times> string list" where
  "checkParamsDependency = (\<lambda>(b, e).
     let errs = (if patrol_module b = CAT_PATROL_UNKNOWN then [patrol_module_err e] else []) @
                (if req_utility b \<le> 0 then [cpu_usage_percentage_err e] else []) @
                (if req_second b \<le> 0 then [patrol_time_err e] else []) @
                (if module_params b = None \<and> patrol_module b = CAT_PATROL_CPU then [cpulist_err e] else [])
     in if errs \<noteq> [] then (CAT_INVALID_PARAMETER, errs) else (CAT_OK, []))"

section \<open>Printing a set of cores\<close>

record cpu_printer =
  is_begin_set :: bool
  begin_cpuid :: int
  end_cpuid :: int
  text_out :: string

definition range_text :: "int \<Rightarrow> int \<Rightarrow> string" where
  "range_text a b =
     (if a = b then dec_nat (nat (to_u32 a))
      else dec_nat (nat (to_u32 a)) @ ''-'' @ dec_nat (nat (to_u32 b)))"

definition print_step :: "int set \<Rightarrow> cpu_printer \<Rightarrow> int \<Rightarrow> cpu_printer" where
  "print_step cpu_set p i =
     (if i \<notin> cpu_set then p
      else if \<not> is_begin_set p then p\<lparr>is_begin_set := True, begin_cpuid := i, end_cpuid := i\<rparr>
      else if i = end_cpuid p + 1 then p\<lparr>end_cpuid := end_cpuid p + 1\<rparr>
      else p\<lparr>text_out := text_out p @ range_text (begin_cpuid p) (end_cpuid p) @ '','',
             end_cpuid := i, begin_cpuid := i\<rparr>)"

definition print_cpu_set :: "int set \<Rightarrow> int \<Rightarrow> string \<Rightarrow> string" where
  "print_cpu_set cpu_set num_cpus prefix =
     (let p = foldl (print_step cpu_set)
                \<lparr>is_begin_set = False, begin_cpuid = - 1, end_cpuid = - 1, text_out = prefix\<rparr>
                [0..num_cpus - 1]
      in text_out p @ range_text (begin_cpuid p) (end_cpuid p) @ ''\<newline>'')"

section \<open>The tool\<close>

definition execute_request ::
  "(nat \<Rightarrow> bool) \<Rightarrow> int list \<Rightarrow> catcli_request_body \<Rightarrow> patrol_state \<Rightarrow> world
     \<Rightarrow> (cat_return_t \<times> string \<times> patrol_state \<times> world) option" where
  "execute_request sig junk b s w =
     (if patrol_module b = CAT_PATROL_CPU then do {
        (ret, cpu_set, s, w) \<leftarrow>
          lib_cpu_patrol_start sig junk (the (module_params b)) (req_utility b) (req_second b) {} s w;
        let count = card cpu_set;
        let head = ''cpu patrol execute '' @ (if ret = CAT_OK then ''ok'' else ''failed'') @
                   '', isolated cores: '' @ dec_nat count @ ''\<newline>'';
        let prefix = ''<ISOLATED-CORE-LIST>:'';
        Some (ret, head @ (if count = 0 then prefix @ ''\<newline>'' else print_cpu_set cpu_set 1024 prefix), s, w) }
      else Some (CAT_NOT_SUPPORTED, ''Only CPU Patrol is supported currently!\<newline>'', s, w))"

text \<open>The option loop of \<open>main\<close>: \<open>Inl\<close> an early exit with its status.\<close>

fun option_loop :: "(char \<times> string) list \<Rightarrow> cli_state \<Rightarrow> world \<Rightarrow> ((cat_return_t + cli_state) \<times> world) option" where
  "option_loop [] st w = Some (Inr st, w)"
| "option_loop ((opt, arg) # opts) st w =
     (if opt = CHR ''h'' then Some (Inl CAT_OK, w)
      else if opt = CHR ''m'' then option_loop opts (checkset_patrol_type arg st) w
      else if opt = CHR ''t'' then option_loop opts (checkset_patrol_time arg st) w
      else if opt = CHR ''l'' then do {
        (st, w) \<leftarrow> checkset_cpulist arg st w;
        option_loop opts st w }
      else if opt = CHR ''u'' then option_loop opts (checkset_cpu_usage_percentage arg st) w
      else Some (Inl CAT_ERR, w))"

definition initial_cli :: cli_state where
  "initial_cli =
     (\<lparr>patrol_module = CAT_PATROL_UNKNOWN, req_second = 0, req_utility = 50, module_params = None\<rparr>,
      \<lparr>patrol_module_err = [], patrol_time_err = [], cpulist_err = [], cpu_usage_percentage_err = []\<rparr>)"

definition cat_main ::
  "(nat \<Rightarrow> bool) \<Rightarrow> int list \<Rightarrow> nat \<Rightarrow> (char \<times> string) list \<Rightarrow> patrol_state \<Rightarrow> world
     \<Rightarrow> (cat_return_t \<times> world) option" where
  "cat_main sig junk argc opts s w =
     (if argc \<le> 1 then Some (CAT_ERR, w)
      else do {
        (r, w) \<leftarrow> option_loop opts initial_cli w;
        case r of
          Inl e \<Rightarrow> Some (e, w)
        | Inr st \<Rightarrow>
            if fst (checkParamsDependency st) \<noteq> CAT_OK then Some (CAT_ERR, w)
            else do {
              (ret, _, s, w) \<leftarrow> execute_request sig junk (fst st) s w;
              Some (ret, w) } })"

section \<open>Accepted requests\<close>

text \<open>What the option loop keeps of a request.\<close>

definition request_inv :: "catcli_request_body \<Rightarrow> bool" where
  "request_inv b \<longleftrightarrow> 0 \<le> req_utility b \<and> req_utility b \<le> 100 \<and> 0 \<le> req_second b \<and> req_second b \<le> INT_MAX \<and>
     (\<forall>m. module_params b = Some m \<longrightarrow> check_cpumask m = CAT_OK)"

lemma checkset_inv:
  "request_inv b \<Longrightarrow> request_inv (fst (checkset_patrol_type s (b, e)))"
  "request_inv b \<Longrightarrow> request_inv (fst (checkset_patrol_time s (b, e)))"
  "request_inv b \<Longrightarrow> request_inv (fst (checkset_cpu_usage_percentage s (b, e)))"
  by (auto simp: request_inv_def checkset_patrol_type_def checkset_patrol_time_def
      checkset_cpu_usage_percentage_def Let_def to_i32_id)

lemma checkset_cpulist_inv:
  "request_inv b \<Longrightarrow> returns (checkset_cpulist s (b, e) w) (\<lambda>(st, v). request_inv (fst st))"
  unfolding checkset_cpulist_def split_conv
  by (intro ret_intros) (auto simp: request_inv_def check_cpumask_def)

lemma option_loop_inv:
  "request_inv (fst st) \<Longrightarrow> returns (option_loop opts st w)
     (\<lambda>(r, v). case r of Inl _ \<Rightarrow> True | Inr st \<Rightarrow> request_inv (fst st))"
proof (induction opts arbitrary: st w)
  case (Cons x opts)
  obtain c a where x: "x = (c, a)" by force
  obtain b e where st: "st = (b, e)" by force
  show ?case unfolding x st option_loop.simps
    by (intro checkset_cpulist_inv[THEN returns_mono, unfolded split_paired_all split_conv] ret_intros Cons.IH)
       (use Cons.prems st checkset_inv in auto)
qed (simp add: returns_Some)

text \<open>C32: Every request the tool goes on to execute is one the patrol accepts: after any sequence of
  options that passes the dependency check the time is positive and fits an int, the load is a
  percentage above 0, and for a CPU patrol the core list matches the pattern, so the patrol's own
  check of its parameters succeeds.\<close>

theorem accepted_request_ok:
  assumes "option_loop opts initial_cli w = Some (Inr (b, e), v)" and "fst (checkParamsDependency (b, e)) = CAT_OK"
  shows "0 < req_second b \<and> req_second b \<le> INT_MAX \<and> 0 < req_utility b \<and> req_utility b \<le> 100 \<and>
    (patrol_module b = CAT_PATROL_CPU \<longrightarrow> (\<exists>m. module_params b = Some m \<and>
       fst (fill_patrol_para m (req_utility b) (req_second b) p) = CAT_OK))"
proof -
  have "request_inv (fst initial_cli)" by (simp add: request_inv_def initial_cli_def)
  from returnsD[OF option_loop_inv[OF this] assms(1)] have i: "request_inv b" by simp
  have d: "0 < req_utility b" "0 < req_second b" "patrol_module b = CAT_PATROL_CPU \<longrightarrow> module_params b \<noteq> None"
    using assms(2) by (auto simp: checkParamsDependency_def Let_def split: if_splits)
  with i show ?thesis by (auto simp: request_inv_def fill_patrol_para_def Let_def)
qed

theorem accepted_request_ok_witness:
  "\<exists>b e v. option_loop [(CHR ''m'', ''cpu''), (CHR ''l'', ''0-3,7''), (CHR ''t'', ''60''), (CHR ''u'', ''40'')]
      initial_cli (boot [ans 8 []]) = Some (Inr (b, e), v) \<and> req_second b = 60 \<and> 0 < req_utility b"
proof -
  let ?x = "option_loop [(CHR ''m'', ''cpu''), (CHR ''l'', ''0-3,7''), (CHR ''t'', ''60''), (CHR ''u'', ''40'')]
      initial_cli (boot [ans 8 []])"
  have "(case ?x of Some (Inr (b, e), v) \<Rightarrow> fst (checkParamsDependency (b, e)) = CAT_OK \<and> req_second b = 60 | _ \<Rightarrow> False)"
    by code_simp
  then obtain b e v where e: "?x = Some (Inr (b, e), v)" "fst (checkParamsDependency (b, e)) = CAT_OK" "req_second b = 60"
    by (auto split: option.splits sum.splits)
  from accepted_request_ok[OF e(1,2)] e show ?thesis by blast
qed

section \<open>Printing and reading a set of cores\<close>

lemma spans_text_snoc: "concat (map (\<lambda>s. span_text s @ '','') ss) @ span_text t = spans_text (ss @ [t])"
proof (induction ss)
  case (Cons s ss)
  then show ?case by (cases ss) auto
qed simp

lemma range_text_span: "0 \<le> a \<Longrightarrow> a \<le> b \<Longrightarrow> b < 2 ^ 32 \<Longrightarrow> range_text a b = span_text (nat a, nat b)"
  by (auto simp: range_text_def span_text_def to_u32_id)

text \<open>The state of the printer after the cores below \<open>n\<close>: the ranges printed, and the one being built.\<close>

definition printer_inv :: "int set \<Rightarrow> string \<Rightarrow> int \<Rightarrow> cpu_printer \<Rightarrow> (nat \<times> nat) list \<Rightarrow> bool" where
  "printer_inv S prefix n p ss \<longleftrightarrow>
     text_out p = prefix @ concat (map (\<lambda>s. span_text s @ '','') ss) \<and>
     (\<forall>s \<in> set ss. fst s \<le> snd s \<and> int (snd s) < n) \<and>
     (if is_begin_set p then 0 \<le> begin_cpuid p \<and> begin_cpuid p \<le> end_cpuid p \<and> end_cpuid p < n \<and>
        S \<inter> {0..<n} = (\<Union>s \<in> set ss. span_set s) \<union> {begin_cpuid p..end_cpuid p}
      else ss = [] \<and> S \<inter> {0..<n} = {})"

lemma insert_upto: "0 \<le> (n :: int) \<Longrightarrow> S \<inter> {0..<n + 1} = (if n \<in> S then insert n (S \<inter> {0..<n}) else S \<inter> {0..<n})"
  by (auto simp: order_less_le)

lemma print_step_inv:
  assumes "printer_inv S prefix n p ss" and "0 \<le> n" and "n < 2 ^ 32"
  shows "\<exists>ss'. printer_inv S prefix (n + 1) (print_step S p n) ss'"
proof (cases "n \<in> S")
  case False
  then have i: "S \<inter> {0..<n + 1} = S \<inter> {0..<n}" using insert_upto[OF assms(2)] by simp
  have "printer_inv S prefix (n + 1) p ss"
    using assms(1) unfolding printer_inv_def i by (force split: if_splits)
  then show ?thesis using False by (auto simp: print_step_def)
next
  case True
  note i = insert_upto[OF assms(2), of S]
  consider "\<not> is_begin_set p" | "is_begin_set p" "n = end_cpuid p + 1" | "is_begin_set p" "n \<noteq> end_cpuid p + 1" by blast
  then show ?thesis
  proof cases
    case 1
    then show ?thesis using assms True i by (intro exI[of _ "[]"]) (auto simp: printer_inv_def print_step_def)
  next
    case 2
    then have "insert n {begin_cpuid p..end_cpuid p} = {begin_cpuid p..end_cpuid p + 1}"
      using assms by (auto simp: printer_inv_def)
    then show ?thesis using 2 assms True i
      by (intro exI[of _ ss]) (fastforce simp: printer_inv_def print_step_def)
  next
    case 3
    let ?s = "(nat (begin_cpuid p), nat (end_cpuid p))"
    have "span_set ?s = {begin_cpuid p..end_cpuid p}" using 3 assms by (simp add: printer_inv_def span_set_def)
    then show ?thesis using 3 assms True i
      by (intro exI[of _ "ss @ [?s]"]) (fastforce simp: printer_inv_def print_step_def range_text_span)
  qed
qed

lemma print_loop_inv:
  assumes "n \<le> 2 ^ 32"
  shows "\<exists>ss. printer_inv S prefix (int n) (foldl (print_step S)
    \<lparr>is_begin_set = False, begin_cpuid = - 1, end_cpuid = - 1, text_out = prefix\<rparr> [0..int n - 1]) ss"
  using assms
proof (induction n)
  case 0
  then show ?case by (intro exI[of _ "[]"]) (simp add: printer_inv_def)
next
  case (Suc n)
  then obtain ss where "printer_inv S prefix (int n) (foldl (print_step S)
      \<lparr>is_begin_set = False, begin_cpuid = - 1, end_cpuid = - 1, text_out = prefix\<rparr> [0..int n - 1]) ss" by auto
  from print_step_inv[OF this] Suc.prems show ?case by (simp add: upto_rec2 add.commute)
qed

text \<open>C31: The line the tool prints for a set of isolated cores is read back exactly: for any non-empty
  set of cores that the result list can hold, the text between the prefix and the end of the line is accepted by
  the parser of the kernel's core lists, and the list it builds holds just the cores of the set.\<close>

theorem printed_cores_read_back:
  assumes "S \<noteq> {}" and "S \<subseteq> {1..<n}" and "n \<le> int MAX_CPU_CORES"
  shows "\<exists>txt cl. print_cpu_set S n prefix = prefix @ txt @ ''\<newline>'' \<and>
    parse_patrol_result txt empty_core_list = Some (CAT_OK, cl) \<and> wf_cores cl \<and> set (cores cl) = S"
proof -
  let ?p = "foldl (print_step S) \<lparr>is_begin_set = False, begin_cpuid = - 1, end_cpuid = - 1, text_out = prefix\<rparr> [0..n - 1]"
  have n: "0 < n" using assms(1,2) by force
  obtain ss where i: "printer_inv S prefix n ?p ss"
  proof -
    have "nat n \<le> 2 ^ 32" using assms(3) by simp
    from print_loop_inv[OF this, of S prefix] n that show ?thesis by (auto simp only: int_nat_eq less_imp_le if_True)
  qed
  have S: "S \<inter> {0..<n} = S" using assms by auto
  with i assms(1) have b: "0 \<le> begin_cpuid ?p" "begin_cpuid ?p \<le> end_cpuid ?p" "end_cpuid ?p < n"
    and u: "S = (\<Union>s \<in> set ss. span_set s) \<union> {begin_cpuid ?p..end_cpuid ?p}"
    by (auto simp: printer_inv_def split: if_splits)
  let ?ss = "ss @ [(nat (begin_cpuid ?p), nat (end_cpuid ?p))]"
  have u': "S = (\<Union>s \<in> set ?ss. span_set s)" using u b by (auto simp: span_set_def)
  have "span_ok s" if s: "s \<in> set ?ss" for s
  proof -
    have le: "fst s \<le> snd s" using s i b by (auto simp: printer_inv_def)
    then have "int (fst s) \<in> S" "int (snd s) \<in> S" using s by (subst u', force simp: span_set_def)+
    with assms(2,3) le show ?thesis by (auto simp: span_ok_def)
  qed
  then obtain cl where "parse_patrol_result (spans_text ?ss) empty_core_list = Some (CAT_OK, cl)" "small_cores cl"
      "set (cores cl) = S"
    using parse_spans[of empty_core_list ?ss] u' by (auto simp: small_cores_def)
  moreover have "print_cpu_set S n prefix = prefix @ spans_text ?ss @ ''\<newline>''"
    using i b assms(3) spans_text_snoc[of ss "(nat (begin_cpuid ?p), nat (end_cpuid ?p))"]
    by (simp add: print_cpu_set_def Let_def printer_inv_def range_text_span)
  ultimately show ?thesis by (auto simp: small_cores_def)
qed

theorem printed_cores_read_back_witness:
  "\<exists>txt cl. print_cpu_set {3, 4, 9} 1024 ''x:'' = ''x:'' @ txt @ ''\<newline>'' \<and>
    parse_patrol_result txt empty_core_list = Some (CAT_OK, cl) \<and> wf_cores cl \<and> set (cores cl) = {3, 4, 9}"
  by (rule printed_cores_read_back) (simp_all)

end
