(* ===== verification/HbmRepair.thy ===== *)
theory HbmRepair
  imports XalarmMsg
begin

text \<open>
  \<open>hbm_online_repair/non-standard-hbm-repair.c\<close>: the decoding of a HiSilicon error section, the
  record of fault addresses in EFI variables, page isolation, the repair of a faulty HBM row or
  address, and the message that tells the BMC the outcome. The state is \<open>flash_total_size\<close>.
\<close>

section \<open>The error section\<close>

abbreviation FAULT_FIELD_NUM :: nat where "FAULT_FIELD_NUM \<equiv> 13"
abbreviation FLASH_ENTRY_NUM :: nat where "FLASH_ENTRY_NUM \<equiv> 8"
abbreviation MAX_VAR_SIZE :: u64 where "MAX_VAR_SIZE \<equiv> 131072"
abbreviation MAX_PATH :: nat where "MAX_PATH \<equiv> 1024"
abbreviation HBM_REPAIR_REQ_TYPE :: nat where "HBM_REPAIR_REQ_TYPE \<equiv> 0"
abbreviation HBM_ADDL :: nat where "HBM_ADDL \<equiv> 1"
abbreviation HBM_ADDH :: nat where "HBM_ADDH \<equiv> 2"
abbreviation HBM_CE_ACLS :: u32 where "HBM_CE_ACLS \<equiv> 1"
abbreviation HBM_PSUE_ACLS :: u32 where "HBM_PSUE_ACLS \<equiv> 2"
abbreviation HBM_CE_SPPR :: u32 where "HBM_CE_SPPR \<equiv> 4"
abbreviation HBM_PSUE_SPPR :: u32 where "HBM_PSUE_SPPR \<equiv> 8"
abbreviation HBM_CACHE_MODE :: u32 where "HBM_CACHE_MODE \<equiv> 0xF0"
abbreviation HBM_ERROR_MASK :: u32 where "HBM_ERROR_MASK \<equiv> 0xFF"
abbreviation HBM_ACLS_ADDR_NUM :: nat where "HBM_ACLS_ADDR_NUM \<equiv> 1"
abbreviation HBM_SPPR_ADDR_NUM :: nat where "HBM_SPPR_ADDR_NUM \<equiv> 16"
abbreviation HBM_ACLS_ARRAY_SIZE :: nat where "HBM_ACLS_ARRAY_SIZE \<equiv> 20"
abbreviation HBM_SPPR_ARRAY_SIZE :: nat where "HBM_SPPR_ARRAY_SIZE \<equiv> 140"
abbreviation HBM_CACHE_ARRAY_SIZE :: nat where "HBM_CACHE_ARRAY_SIZE \<equiv> 12"
abbreviation HBMC_MODULE_ID :: nat where "HBMC_MODULE_ID \<equiv> 0x28"
abbreviation HBMC_SUBMOD_HBM_REPAIR :: nat where "HBMC_SUBMOD_HBM_REPAIR \<equiv> 6"
abbreviation ISOLATE_FAILED_OVER_THRESHOLD :: nat where "ISOLATE_FAILED_OVER_THRESHOLD \<equiv> 0x81"
abbreviation ISOLATE_FAILED_OTHER_REASON :: nat where "ISOLATE_FAILED_OTHER_REASON \<equiv> 0x82"
abbreviation REPAIR_FAILED_NO_RESOURCE :: nat where "REPAIR_FAILED_NO_RESOURCE \<equiv> 0x94"
abbreviation REPAIR_FAILED_INVALID_PARAM :: nat where "REPAIR_FAILED_INVALID_PARAM \<equiv> 0x98"
abbreviation REPAIR_FAILED_OTHER_REASON :: nat where "REPAIR_FAILED_OTHER_REASON \<equiv> 0x9C"
abbreviation ONLINE_PAGE_FAILED :: nat where "ONLINE_PAGE_FAILED \<equiv> 0xA0"
abbreviation ISOLATE_REPAIR_ONLINE_SUCCESS :: nat where "ISOLATE_REPAIR_ONLINE_SUCCESS \<equiv> 0"

text \<open>The fields of \<open>struct hisi_common_error_section\<close> the code reads.\<close>

record hisi_error =
  val_bits :: u32
  module_id :: nat
  submodule_id :: nat
  reg_array_size :: u32
  reg_array :: "u32 list"

fun le_words :: "string \<Rightarrow> u32 list" where
  "le_words (a # b # c # d # s) = word_of_nat (le_nat [a, b, c, d]) # le_words s"
| "le_words _ = []"

text \<open>The structure at its offsets in the raw section; \<open>reg_array\<close> is all that follows.\<close>

definition error_section :: "string \<Rightarrow> hisi_error" where
  "error_section raw =
     \<lparr>val_bits = word_of_nat (le_nat (take 4 raw)),
      module_id = le_nat (take 1 (drop 10 raw)),
      submodule_id = le_nat (take 1 (drop 11 raw)),
      reg_array_size = word_of_nat (le_nat (take 4 (drop 28 raw))),
      reg_array = le_words (drop 32 raw)\<rparr>"

text \<open>Two consecutive registers, high part at index \<open>h\<close>, as a 64-bit address.\<close>

definition addr64 :: "hisi_error \<Rightarrow> nat \<Rightarrow> nat \<Rightarrow> u64" where
  "addr64 err h l = push_bit 32 (ucast (reg_array err ! h)) + ucast (reg_array err ! l)"

definition fault_addr_of :: "hisi_error \<Rightarrow> u64" where
  "fault_addr_of err =
     (let reg_size = unat (reg_array_size err div 4) in addr64 err (reg_size - 1) (reg_size - 2))"

section \<open>Fault address fields\<close>

definition field_meta :: "(string \<times> nat) list" where
  "field_meta =
     [(''processor_id'', 2), (''die_id'', 1), (''stack_id'', 3), (''sid'', 3), (''channel_id'', 8),
      (''bankgroup_id'', 3), (''bank_id'', 3), (''row_id'', 17), (''column_id'', 10),
      (''error_type'', 2), (''repair_type'', 2), (''reserved'', 2), (''crc8'', 8)]"

abbreviation PROCESSOR_ID :: nat where "PROCESSOR_ID \<equiv> 0"
abbreviation ERROR_TYPE :: nat where "ERROR_TYPE \<equiv> 9"

fun parse_fields :: "nat list \<Rightarrow> u64 \<Rightarrow> u32 list" where
  "parse_fields [] a = [ucast a]"
| "parse_fields (len # ls) a = ucast (a AND (push_bit len 1 - 1)) # parse_fields ls (drop_bit len a)"

definition parse_fault_addr_info :: "u64 \<Rightarrow> u32 list" where
  "parse_fault_addr_info fault_addr =
     parse_fields (map snd (take (FAULT_FIELD_NUM - 1) field_meta)) fault_addr"

definition get_guid_index :: "u32 \<Rightarrow> u32 \<Rightarrow> int" where
  "get_guid_index socket_id error_type =
     (if 8 \<le> 2 * socket_id + error_type then - 1 else uint (2 * socket_id + error_type))"

definition flash_names :: "string list" where
  "flash_names = [''repair0000'', ''repair0001'', ''repair0100'', ''repair0101'',
                  ''repair0200'', ''repair0201'', ''repair0300'', ''repair0301'']"

definition flash_guids :: "string list" where
  "flash_guids =
     [''CD2FF4D9-D937-4e1d-B810-A1A568C37C01'', ''DD92CC91-43E6-4c69-A42A-B08F72FCB157'',
      ''4A8E0D1E-4CFA-47b2-9359-DA3A0006878B'', ''733F9979-4ED4-478d-BD6A-E4D0F0390FDB'',
      ''9BFBBA1F-5A93-4d36-AD47-D3C2D714D914'', ''A0920D6F-78B8-4c09-9F61-7CEC845F116C'',
      ''0049CE5E-8C18-414c-BDC1-A87E60CEEFD7'', ''6AED17B4-50C7-4a40-A5A7-48AF55DD8EAC'']"

definition efi_path :: "nat \<Rightarrow> string" where
  "efi_path i = ''/sys/firmware/efi/efivars/'' @ flash_names ! i @ ''-'' @ flash_guids ! i"

section \<open>EFI variables\<close>

definition is_variable_existing :: "nat \<Rightarrow> world \<Rightarrow> (bool \<times> world) option" where
  "is_variable_existing i w = do { (r, w) \<leftarrow> call (Q_access (efi_path i)) w; Some (r = 0, w) }"

definition get_var_size :: "nat \<Rightarrow> world \<Rightarrow> (u64 \<times> world) option" where
  "get_var_size i w = do {
     (fd, w) \<leftarrow> call (Q_open (efi_path i) 0) w;
     if fd < 0 then Some (- 1, w)
     else do {
       (r, d, w) \<leftarrow> fetch (Q_fstat fd) w;
       if r \<noteq> 0 then do { (_, w) \<leftarrow> call (Q_close fd) w; Some (- 1, w) }
       else do { (_, w) \<leftarrow> call (Q_close fd) w; Some (word_of_nat (le_nat (fill 8 d)), w) } } }"

fun flash_size_loop :: "nat list \<Rightarrow> u64 \<Rightarrow> world \<Rightarrow> (u64 \<times> world) option" where
  "flash_size_loop [] fsize w = Some (fsize, w)"
| "flash_size_loop (i # is) fsize w = do {
     (ex, w) \<leftarrow> is_variable_existing i w;
     if ex then do { (n, w) \<leftarrow> get_var_size i w; flash_size_loop is (fsize + n) w }
     else flash_size_loop is fsize w }"

definition get_flash_total_size :: "u64 \<Rightarrow> world \<Rightarrow> (u64 \<times> world) option" where
  "get_flash_total_size fsize w = flash_size_loop [0..<FLASH_ENTRY_NUM] fsize w"

definition read_variable_attribute :: "nat \<Rightarrow> world \<Rightarrow> (int \<times> u32 \<times> world) option" where
  "read_variable_attribute i w = do {
     (fd, w) \<leftarrow> call (Q_open (efi_path i) 0) w;
     if fd < 0 then Some (- 1, 0, w)
     else do {
       (readsize, d, w) \<leftarrow> fetch (Q_read fd 4) w;
       if readsize \<noteq> 4 then do { (_, w) \<leftarrow> call (Q_close fd) w; Some (- 1, 0, w) }
       else do { (_, w) \<leftarrow> call (Q_close fd) w; Some (0, word_of_nat (le_nat d), w) } } }"

abbreviation FS_IOC_GETFLAGS :: int where "FS_IOC_GETFLAGS \<equiv> 0x80086601"
abbreviation FS_IOC_SETFLAGS :: int where "FS_IOC_SETFLAGS \<equiv> 0x40086602"
abbreviation FS_IMMUTABLE_FL :: u64 where "FS_IMMUTABLE_FL \<equiv> 0x10"

definition efivarfs_set_mutable :: "nat \<Rightarrow> bool \<Rightarrow> world \<Rightarrow> (int \<times> world) option" where
  "efivarfs_set_mutable i mut w = do {
     (fd, w) \<leftarrow> call (Q_open (efi_path i) 0) w;
     if fd < 0 then Some (- 1, w)
     else do {
       let err = (\<lambda>w. do { (_, w) \<leftarrow> call (Q_close fd) w; Some (- 1, w) });
       (r, d, w) \<leftarrow> fetch (Q_ioctl fd FS_IOC_GETFLAGS []) w;
       if r = - 1 then err w
       else do {
         let orig_attrs = (word_of_nat (le_nat (fill 8 d)) :: u64);
         let new_attrs = (if mut then orig_attrs AND NOT FS_IMMUTABLE_FL else orig_attrs OR FS_IMMUTABLE_FL);
         if new_attrs = orig_attrs then do { (_, w) \<leftarrow> call (Q_close fd) w; Some (0, w) }
         else do {
           (r, w) \<leftarrow> call (Q_ioctl fd FS_IOC_SETFLAGS (le_bytes 8 (unat new_attrs))) w;
           if r = - 1 then err w
           else do { (_, w) \<leftarrow> call (Q_close fd) w; Some (0, w) } } } } }"

abbreviation O_CREAT :: int where "O_CREAT \<equiv> 64"
abbreviation O_APPEND :: int where "O_APPEND \<equiv> 1024"

definition write_variable :: "nat \<Rightarrow> string \<Rightarrow> u32 \<Rightarrow> bool \<Rightarrow> world \<Rightarrow> (int \<times> world) option" where
  "write_variable i value attribute is_existing w = do {
     let fsize = length value + 4;
     (buffer, w) \<leftarrow> call (Q_malloc fsize) w;
     let err = (\<lambda>fd w. do {
       w \<leftarrow> (if 0 \<le> fd then do { (_, w) \<leftarrow> call (Q_close fd) w; Some w } else Some w);
       w \<leftarrow> (if 0 \<le> buffer then do { (_, w) \<leftarrow> call (Q_free buffer) w; Some w } else Some w);
       w \<leftarrow> (if is_existing then do { (_, w) \<leftarrow> efivarfs_set_mutable i False w; Some w } else Some w);
       Some (- 1, w) });
     if buffer < 0 then err (- 1) w
     else do {
       let content = le_bytes 4 (unat attribute) @ value;
       (m, w) \<leftarrow> (if is_existing then efivarfs_set_mutable i True w else Some (0, w));
       if m \<noteq> 0 then err (- 1) w
       else do {
         (fd, w) \<leftarrow> call (Q_open (efi_path i) (1 OR (if is_existing then O_APPEND else O_CREAT))) w;
         if fd < 0 then err fd w
         else do {
           (writesize, w) \<leftarrow> WriteAll fd content w;
           if writesize \<noteq> int fsize then err fd w
           else do {
             (_, w) \<leftarrow> call (Q_close fd) w;
             (_, w) \<leftarrow> call (Q_free buffer) w;
             w \<leftarrow> (if is_existing then do { (_, w) \<leftarrow> efivarfs_set_mutable i False w; Some w } else Some w);
             Some (0, w) } } } } }"

definition write_fault_info_to_flash ::
  "hisi_error \<Rightarrow> u64 \<Rightarrow> world \<Rightarrow> (int \<times> u64 \<times> world) option" where
  "write_fault_info_to_flash err fsize w =
     (if MAX_VAR_SIZE < fsize + 8 then Some (- 1, fsize, w)
      else do {
        let fault_addr = fault_addr_of err;
        let info = parse_fault_addr_info fault_addr;
        let guid_index = get_guid_index (info ! PROCESSOR_ID) (info ! ERROR_TYPE);
        if guid_index < 0 then Some (- 1, fsize, w)
        else do {
          let i = nat guid_index;
          (is_existing, w) \<leftarrow> is_variable_existing i w;
          (ret, attribute, w) \<leftarrow>
            (if is_existing then do {
               (ret, a, w) \<leftarrow> read_variable_attribute i w;
               Some (ret, a OR 0x40, w) }
             else Some (0, 0x1 OR 0x2 OR 0x4, w));
          if ret < 0 then Some (- 1, fsize, w)
          else do {
            (ret, w) \<leftarrow> write_variable i (le_bytes 8 (unat fault_addr)) attribute is_existing w;
            if ret < 0 then Some (- 1, fsize, w) else Some (0, fsize + 8, w) } } })"

section \<open>Files of the kernel\<close>

text \<open>\<open>write_file\<close>: the bytes written, or the negated errno.\<close>

definition hex_line :: "u64 \<Rightarrow> string" where
  "hex_line v = ''0x'' @ hex_nat (unat v) @ ''\<newline>''"

definition write_file :: "string \<Rightarrow> string \<Rightarrow> u64 \<Rightarrow> world \<Rightarrow> (int \<times> world) option" where
  "write_file path name v w = do {
     let fname = fst (snprintf MAX_PATH (path @ ''/'' @ name));
     (fd, w) \<leftarrow> call (Q_open fname 1) w;
     if fd < 0 then Some (- errno w, w)
     else do {
       let buf = fst (snprintf 20 (hex_line v));
       (ret, w) \<leftarrow> WriteAll fd buf w;
       let ret = (if ret < 0 then - errno w else ret);
       (_, w) \<leftarrow> call (Q_close fd) w;
       Some (ret, w) } }"

text \<open>\<open>sscanf (pos, "HardwareCorrupted: %5d kB", ...)\<close>: at most five characters of the number.\<close>

definition scan_hw_line :: "string \<Rightarrow> int option" where
  "scan_hw_line pos =
     (case scan_number (take 5 (dropWhile is_space (drop (length ''HardwareCorrupted:'') pos))) of
        None \<Rightarrow> None
      | Some (neg, ds, _) \<Rightarrow> Some (if neg then - int (nat_of_digits ds) else int (nat_of_digits ds)))"

function meminfo_loop :: "int \<Rightarrow> world \<Rightarrow> (int \<times> world) option" where
  "meminfo_loop fp w = do {
     (r, line, w) \<leftarrow> fetch (Q_fgets fp 256) w;
     if r < 0 then Some (- 1, w)
     else case strstr (cstr (take 255 line)) ''HardwareCorrupted:'' of
         Some pos \<Rightarrow> Some (case scan_hw_line pos of None \<Rightarrow> - 1 | Some n \<Rightarrow> n, w)
       | None \<Rightarrow> meminfo_loop fp w }"
  by pat_completeness auto
termination
  by (relation "measure (\<lambda>(f, w). length (script w))") (auto dest!: fetch_script)

declare meminfo_loop.simps [simp del]

definition get_hardware_corrupted_size :: "world \<Rightarrow> (int \<times> world) option" where
  "get_hardware_corrupted_size w = do {
     (fp, w) \<leftarrow> call (Q_fopen ''/proc/meminfo'' ''r'') w;
     if fp < 0 then Some (- 1, w)
     else do {
       (n, w) \<leftarrow> meminfo_loop fp w;
       (_, w) \<leftarrow> call (Q_fclose fp) w;
       Some (n, w) } }"

section \<open>The message to the BMC\<close>

definition get_repair_failed_result_code :: "int \<Rightarrow> nat" where
  "get_repair_failed_result_code ret =
     (if ret = - ENOSPC then REPAIR_FAILED_NO_RESOURCE
      else if ret = - EIO then REPAIR_FAILED_OTHER_REASON
      else if ret = - ENXIO \<or> ret = - EINVAL then REPAIR_FAILED_INVALID_PARAM
      else REPAIR_FAILED_OTHER_REASON)"

definition BMC_SOCKET_PATH :: string where "BMC_SOCKET_PATH = ''/var/run/sysSentry/bmc.sock''"

text \<open>\<open>repair_type_code\<close> and \<open>isolation_type_code\<close>.\<close>

definition repair_codes :: "u32 \<Rightarrow> nat \<times> nat" where
  "repair_codes repair_type =
     (if repair_type AND HBM_CE_ACLS \<noteq> 0 then (0, 6)
      else if repair_type AND HBM_PSUE_ACLS \<noteq> 0 then (1, 6)
      else if repair_type AND HBM_CE_SPPR \<noteq> 0 then (2, 1)
      else if repair_type AND HBM_PSUE_SPPR \<noteq> 0 then (3, 1)
      else (0, 0))"

text \<open>\<open>BMC_REPORT_FORMAT\<close> applied to the three codes and the fields 0 to 8.\<close>

definition bmc_text :: "nat \<Rightarrow> nat \<Rightarrow> nat \<Rightarrow> u32 list \<Rightarrow> string" where
  "bmc_text repair_type result isolation info =
     (let x = (\<lambda>n. hexw 2 n); f = (\<lambda>k i. hexw k (unat (info ! i))) in
      ''REP00'' @ x repair_type @ x result @ x isolation @ ''0000000000000000'' @
      f 2 0 @ f 2 1 @ f 2 2 @ ''00'' @ f 2 3 @ ''00'' @ f 2 4 @ f 2 5 @ f 2 6 @ f 8 7 @ f 8 8 @
      ''0000000000'')"

abbreviation BMC_MSG_SIZE :: nat where "BMC_MSG_SIZE \<equiv> 84"

definition bmc_message :: "hisi_error \<Rightarrow> nat \<Rightarrow> string" where
  "bmc_message err result =
     (let (repair_type, isolation) = repair_codes (reg_array err ! HBM_REPAIR_REQ_TYPE) in
      bmc_text repair_type result isolation (parse_fault_addr_info (fault_addr_of err)))"

definition notice_BMC :: "hisi_error \<Rightarrow> nat \<Rightarrow> world \<Rightarrow> (int \<times> world) option" where
  "notice_BMC err result w = do {
     (sockfd, w) \<leftarrow> call (Q_socket SOCK_STREAM) w;
     if sockfd < 0 then Some (- 1, w)
     else do {
       let fail = (\<lambda>w. do { (_, w) \<leftarrow> call (Q_close sockfd) w; Some (- 1, w) });
       let (sun_path, ret) = snprintf (nat SUN_PATH_LEN) BMC_SOCKET_PATH;
       if ret < 0 \<or> SUN_PATH_LEN \<le> ret then fail w
       else do {
         (c, w) \<leftarrow> call (Q_connect sockfd sun_path) w;
         if c < 0 then fail w
         else do {
           let bmc_msg = fst (snprintf BMC_MSG_SIZE (bmc_message err result));
           (n, w) \<leftarrow> WriteAll sockfd bmc_msg w;
           if n \<le> 0 then fail w
           else do { (_, w) \<leftarrow> call (Q_close sockfd) w; Some (0, w) } } } } }"

section \<open>Page isolation\<close>

definition is_acls_type :: "hisi_error \<Rightarrow> bool" where
  "is_acls_type err \<longleftrightarrow> reg_array err ! HBM_REPAIR_REQ_TYPE AND (HBM_CE_ACLS OR HBM_PSUE_ACLS) \<noteq> 0"

text \<open>The addresses of the loop over \<open>HBM_SPPR_ADDR_NUM\<close>.\<close>

definition sppr_addr :: "hisi_error \<Rightarrow> nat \<Rightarrow> u64" where
  "sppr_addr err i = addr64 err (2 * i + HBM_ADDH) (2 * i + HBM_ADDL)"

fun offline_loop :: "hisi_error \<Rightarrow> nat list \<Rightarrow> int \<Rightarrow> bool \<Rightarrow> world \<Rightarrow> (int \<times> bool \<times> world) option" where
  "offline_loop err [] ret all_success w = Some (ret, all_success, w)"
| "offline_loop err (i # is) _ all_success w = do {
     (ret, w) \<leftarrow> write_file ''/sys/kernel/page_eject'' ''offline_page'' (sppr_addr err i) w;
     if ret < 0 then offline_loop err is ret False w else offline_loop err is ret all_success w }"

definition hbmc_hbm_page_isolate :: "int \<Rightarrow> hisi_error \<Rightarrow> world \<Rightarrow> (int \<times> world) option" where
  "hbmc_hbm_page_isolate page_isolation_threshold err w = do {
     let is_acls = is_acls_type err;
     let required_isolate_size = int (if is_acls then HBM_ACLS_ADDR_NUM else HBM_SPPR_ADDR_NUM) * 4;
     (hardware_corrupted_size, w) \<leftarrow> get_hardware_corrupted_size w;
     if hardware_corrupted_size < 0 then do {
       (_, w) \<leftarrow> notice_BMC err ISOLATE_FAILED_OTHER_REASON w;
       Some (- 1, w) }
     else if page_isolation_threshold < required_isolate_size + hardware_corrupted_size then do {
       (_, w) \<leftarrow> notice_BMC err ISOLATE_FAILED_OVER_THRESHOLD w;
       Some (- 1, w) }
     else if is_acls then do {
       (ret, w) \<leftarrow> write_file ''/sys/kernel/page_eject'' ''offline_page'' (addr64 err HBM_ADDH HBM_ADDL) w;
       if ret < 0 then do {
         (_, w) \<leftarrow> notice_BMC err ISOLATE_FAILED_OTHER_REASON w;
         Some (ret, w) }
       else Some (0, w) }
     else do {
       (ret, all_success, w) \<leftarrow> offline_loop err [0..<HBM_SPPR_ADDR_NUM] 0 True w;
       (ret, w) \<leftarrow> (if \<not> all_success then do {
                       (_, w) \<leftarrow> notice_BMC err ISOLATE_FAILED_OTHER_REASON w;
                       Some (- 1, w) }
                     else Some (ret, w));
       Some (if ret < 0 then ret else 0, w) } }"

section \<open>Repair\<close>

definition hbmc_hbm_after_repair :: "int \<Rightarrow> u64 \<Rightarrow> world \<Rightarrow> (nat \<times> world) option" where
  "hbmc_hbm_after_repair repair_ret paddr w =
     (if repair_ret < 0 then do {
        (_, w) \<leftarrow> write_file ''/sys/kernel/page_eject'' ''remove_page'' paddr w;
        Some (get_repair_failed_result_code repair_ret, w) }
      else do {
        (ret, w) \<leftarrow> write_file ''/sys/kernel/page_eject'' ''online_page'' paddr w;
        if ret < 0 then Some (ONLINE_PAGE_FAILED, w) else Some (ISOLATE_REPAIR_ONLINE_SUCCESS, w) })"

fun after_loop :: "hisi_error \<Rightarrow> nat list \<Rightarrow> int \<Rightarrow> bool \<Rightarrow> world \<Rightarrow> (bool \<times> world) option" where
  "after_loop err [] ret all_online_success w = Some (all_online_success, w)"
| "after_loop err (i # is) ret all_online_success w = do {
     (code, w) \<leftarrow> hbmc_hbm_after_repair ret (sppr_addr err i) w;
     after_loop err is ret (if code \<noteq> ISOLATE_REPAIR_ONLINE_SUCCESS then False else all_online_success) w }"

definition hbmc_hbm_repair :: "hisi_error \<Rightarrow> string \<Rightarrow> world \<Rightarrow> (int \<times> world) option" where
  "hbmc_hbm_repair err path w = do {
     let paddr = addr64 err HBM_ADDH HBM_ADDL;
     let is_acls = is_acls_type err;
     (ret, w) \<leftarrow> write_file path (if is_acls then ''acls_query'' else ''sppr_query'') paddr w;
     if ret < 0 then
       (if ret \<noteq> - ENXIO then do {
          (_, w) \<leftarrow> notice_BMC err (get_repair_failed_result_code ret) w;
          Some (ret, w) }
        else Some (ret, w))
     else do {
       (ret, w) \<leftarrow> write_file path (if is_acls then ''acls_repair'' else ''sppr_repair'') paddr w;
       if is_acls then do {
         (code, w) \<leftarrow> hbmc_hbm_after_repair ret paddr w;
         (_, w) \<leftarrow> notice_BMC err code w;
         Some (ret, w) }
       else do {
         (all_online_success, w) \<leftarrow> after_loop err [0..<HBM_SPPR_ADDR_NUM] ret True w;
         if ret < 0 then do {
           (_, w) \<leftarrow> notice_BMC err (get_repair_failed_result_code ret) w;
           Some (ret, w) }
         else if all_online_success then do {
           (_, w) \<leftarrow> notice_BMC err ISOLATE_REPAIR_ONLINE_SUCCESS w;
           Some (0, w) }
         else do {
           (_, w) \<leftarrow> notice_BMC err ONLINE_PAGE_FAILED w;
           Some (ret, w) } } } }"

text \<open>Types 0 (unknown), 1 (HBM), 2 (DDR), or a negated errno.\<close>

definition hbmc_get_memory_type :: "string \<Rightarrow> world \<Rightarrow> (int \<times> world) option" where
  "hbmc_get_memory_type path w = do {
     let limit = MAX_PATH - 12 - 1;
     let fname = fst (snprintf MAX_PATH (take limit path @ ''/memory_type''));
     (file, w) \<leftarrow> call (Q_fopen fname ''r'') w;
     if file < 0 then Some (- errno w, w)
     else do {
       (r, line, w) \<leftarrow> fetch (Q_fgets file 128) w;
       let buf = butlast (cstr (take 127 line));
       (_, w) \<leftarrow> call (Q_fclose file) w;
       Some (if r < 0 then 0 else if buf = ''HBM'' then 1 else if buf = ''DDR'' then 2 else 0, w) } }"

text \<open>
  The loop over the directory: \<open>find_device\<close>, \<open>find_hbm_mem\<close>, \<open>addr_in_hbm_device\<close>.
\<close>

partial_function (option) device_loop ::
  "hisi_error \<Rightarrow> int \<Rightarrow> bool \<Rightarrow> bool \<Rightarrow> world \<Rightarrow> (bool \<times> bool \<times> bool \<times> world) option" where
  "device_loop err dir find_device find_hbm_mem w = do {
     (r, d_name, w) \<leftarrow> fetch (Q_readdir dir) w;
     if r < 0 then Some (find_device, find_hbm_mem, False, w)
     else if strstr (cstr d_name) ''HISI0521'' = None then device_loop err dir find_device find_hbm_mem w
     else do {
       let path = fst (snprintf MAX_PATH (''/sys/devices/platform/'' @ cstr d_name));
       (t, w) \<leftarrow> hbmc_get_memory_type path w;
       if t = 1 then do {
         (ret, w) \<leftarrow> hbmc_hbm_repair err path w;
         if ret \<noteq> - ENXIO then Some (True, True, True, w)
         else device_loop err dir True True w }
       else device_loop err dir True find_hbm_mem w } }"

definition hbm_repair_handler :: "int \<Rightarrow> hisi_error \<Rightarrow> world \<Rightarrow> world option" where
  "hbm_repair_handler threshold err w = do {
     (ret, w) \<leftarrow> hbmc_hbm_page_isolate threshold err w;
     if ret < 0 then Some w
     else do {
       (dir, w) \<leftarrow> call (Q_opendir ''/sys/devices/platform'') w;
       if dir < 0 then do { (_, w) \<leftarrow> notice_BMC err REPAIR_FAILED_OTHER_REASON w; Some w }
       else do {
         (find_device, find_hbm_mem, addr_in_hbm_device, w) \<leftarrow> device_loop err dir False False w;
         w \<leftarrow> (if \<not> find_device then do { (_, w) \<leftarrow> notice_BMC err REPAIR_FAILED_OTHER_REASON w; Some w }
               else if \<not> find_hbm_mem then do { (_, w) \<leftarrow> notice_BMC err REPAIR_FAILED_OTHER_REASON w; Some w }
               else if \<not> addr_in_hbm_device then do { (_, w) \<leftarrow> notice_BMC err REPAIR_FAILED_INVALID_PARAM w; Some w }
               else Some w);
         (_, w) \<leftarrow> call (Q_closedir dir) w;
         Some w } } }"

section \<open>Validation and dispatch\<close>

definition hbm_repair_validate :: "hisi_error \<Rightarrow> bool" where
  "hbm_repair_validate err =
     (if \<not> (bit (val_bits err) 5 \<and> bit (val_bits err) 6 \<and> bit (val_bits err) 12) then False
      else if module_id err \<noteq> HBMC_MODULE_ID \<or> submodule_id err \<noteq> HBMC_SUBMOD_HBM_REPAIR then False
      else
        let t = reg_array err ! HBM_REPAIR_REQ_TYPE AND HBM_ERROR_MASK;
            n = unat (reg_array_size err);
            is_acls_valid = (t AND (HBM_CE_ACLS OR HBM_PSUE_ACLS) \<noteq> 0 \<and> n = HBM_ACLS_ARRAY_SIZE);
            is_sppr_valid = (t AND (HBM_CE_SPPR OR HBM_PSUE_SPPR) \<noteq> 0 \<and> n = HBM_SPPR_ARRAY_SIZE);
            is_cache_mode = (t AND HBM_CACHE_MODE \<noteq> 0 \<and> n = HBM_CACHE_ARRAY_SIZE)
        in is_acls_valid \<or> is_sppr_valid \<or> is_cache_mode)"

definition hbm_flat_mode_validate :: "hisi_error \<Rightarrow> bool" where
  "hbm_flat_mode_validate err \<longleftrightarrow>
     (reg_array err ! HBM_REPAIR_REQ_TYPE AND HBM_ERROR_MASK) AND HBM_CACHE_MODE = 0"

definition decode_hisi_common_section :: "int \<Rightarrow> string \<Rightarrow> u64 \<Rightarrow> world \<Rightarrow> (u64 \<times> world) option" where
  "decode_hisi_common_section threshold raw fsize w =
     (let err = error_section raw in
      if hbm_repair_validate err then do {
        (_, fsize, w) \<leftarrow> write_fault_info_to_flash err fsize w;
        w \<leftarrow> (if hbm_flat_mode_validate err then hbm_repair_handler threshold err w else Some w);
        Some (fsize, w) }
      else Some (fsize, w))"

section \<open>The fields of a fault address\<close>

text \<open>The reading of a list of fields as one number, low field first.\<close>

fun pack_fields :: "nat list \<Rightarrow> u32 list \<Rightarrow> nat" where
  "pack_fields (l # ls) (x # xs) = unat x + 2 ^ l * pack_fields ls xs"
| "pack_fields ls (x # xs) = unat x"
| "pack_fields ls [] = 0"

lemma unat_low_bits: "unat (a AND (push_bit l 1 - 1) :: u64) = unat a mod 2 ^ l"
  by (metis take_bit_eq_mask mask_eq_exp_minus_1 push_bit_of_1 take_bit_eq_mod unsigned_take_bit_eq)

lemma unat_drop: "unat (drop_bit l (a :: u64)) = unat a div 2 ^ l"
proof -
  have "take_bit LENGTH(64) (unat a) = unat a" by (rule take_bit_nat_eq_self) (rule unsigned_less)
  then show ?thesis by (subst unsigned_drop_bit_eq) (simp add: drop_bit_eq_div)
qed

lemma unat_u32: "unat (a :: u64) < 2 ^ 32 \<Longrightarrow> unat (ucast a :: u32) = unat a"
  by (simp add: unsigned_ucast_eq take_bit_eq_mod)

lemma parse_fields_props:
  "(\<forall>l \<in> set ls. l \<le> 32) \<Longrightarrow> unat a < 2 ^ (sum_list ls + 32) \<Longrightarrow>
   pack_fields ls (parse_fields ls a) = unat a \<and> length (parse_fields ls a) = Suc (length ls) \<and>
   (\<forall>i < length ls. unat (parse_fields ls a ! i) < 2 ^ (ls ! i)) \<and>
   unat (parse_fields ls a ! length ls) = unat a div 2 ^ sum_list ls"
proof (induction ls arbitrary: a)
  case Nil
  then show ?case by (simp add: unat_u32)
next
  case (Cons l ls)
  have m: "unat a mod 2 ^ l < 2 ^ l" by simp
  also have "(2::nat) ^ l \<le> 2 ^ 32" using Cons.prems by (intro power_increasing) auto
  finally have x: "unat (ucast (a AND (push_bit l 1 - 1)) :: u32) = unat a mod 2 ^ l"
    by (subst unat_u32) (simp_all only: unat_low_bits)
  have "unat (drop_bit l a) < 2 ^ (sum_list ls + 32)"
    using Cons.prems(2) by (simp add: unat_drop less_mult_imp_div_less power_add mult.commute mult.left_commute)
  with Cons.IH[of "drop_bit l a"] Cons.prems(1) have IH:
    "pack_fields ls (parse_fields ls (drop_bit l a)) = unat a div 2 ^ l"
    "length (parse_fields ls (drop_bit l a)) = Suc (length ls)"
    "\<forall>i < length ls. unat (parse_fields ls (drop_bit l a) ! i) < 2 ^ (ls ! i)"
    "unat (parse_fields ls (drop_bit l a) ! length ls) = unat a div 2 ^ l div 2 ^ sum_list ls"
    by (simp_all add: unat_drop)
  have "unat a mod 2 ^ l + 2 ^ l * (unat a div 2 ^ l) = unat a" by simp
  then show ?case
    using IH x m by (auto simp: less_Suc_eq_0_disj div_mult2_eq power_add)
qed

abbreviation field_widths :: "nat list" where "field_widths \<equiv> map snd (take (FAULT_FIELD_NUM - 1) field_meta)"

lemma field_widths: "field_widths = [2, 1, 3, 3, 8, 3, 3, 17, 10, 2, 2, 2]"
  by (simp add: field_meta_def)

lemma parse_fault_props:
  "pack_fields field_widths (parse_fault_addr_info a) = unat a \<and> length (parse_fault_addr_info a) = 13 \<and>
   (\<forall>i < 13. unat (parse_fault_addr_info a ! i) < 2 ^ snd (field_meta ! i))"
proof -
  have a: "unat a < 2 ^ 64" using unsigned_less[of a] by simp
  have s: "sum_list field_widths = 56" "\<forall>l \<in> set field_widths. l \<le> 32" "length field_widths = 12" 
    unfolding field_widths by simp_all
  have "(2::nat) ^ 64 \<le> 2 ^ (sum_list field_widths + 32)" unfolding s by (rule power_increasing) simp_all
  with a have a': "unat a < 2 ^ (sum_list field_widths + 32)" by (rule less_le_trans)
  note p = parse_fields_props[OF s(2) a']
  have "unat (parse_fault_addr_info a ! i) < 2 ^ snd (field_meta ! i)" if "i < 13" for i
  proof (cases "i = 12")
    case True
    have "unat a div 2 ^ 56 < 2 ^ 8" using a by (simp add: less_mult_imp_div_less)
    then show ?thesis using p s True by (simp add: parse_fault_addr_info_def) (simp add: field_meta_def)
  next
    case False
    with that have i: "i < 12" by simp
    moreover have "length field_meta = 13" by (simp add: field_meta_def)
    ultimately have "field_widths ! i = snd (field_meta ! i)" by (subst nth_map) simp_all
    then show ?thesis using p s i by (simp add: parse_fault_addr_info_def)
  qed
  then show ?thesis using p s by (simp add: parse_fault_addr_info_def)
qed

text \<open>C34: Splitting a 64-bit fault address into its 13 fields loses nothing: every field is below its
  width, and the fields put side by side are the address again.\<close>

theorem fault_fields_roundtrip:
  "pack_fields field_widths (parse_fault_addr_info a) = unat a \<and> length (parse_fault_addr_info a) = FAULT_FIELD_NUM \<and>
   (\<forall>i < FAULT_FIELD_NUM. unat (parse_fault_addr_info a ! i) < 2 ^ snd (field_meta ! i))"
  by (rule parse_fault_props)

theorem fault_fields_roundtrip_witness:
  "pack_fields field_widths (parse_fault_addr_info 0xFEDCBA9876543210) = 0xFEDCBA9876543210 \<and>
   unat (parse_fault_addr_info 0xFEDCBA9876543210 ! 12) < 2 ^ snd (field_meta ! 12)"
  using fault_fields_roundtrip[of "0xFEDCBA9876543210"] by simp

section \<open>The message and the registers\<close>

lemma hex_nat_length: "n < 16 ^ k \<Longrightarrow> 0 < k \<Longrightarrow> length (hex_nat n) \<le> k"
proof (induction n arbitrary: k rule: hex_nat.induct)
  case (1 n)
  show ?case
  proof (cases "n < 16")
    case True
    then show ?thesis using 1 by (subst hex_nat.simps) simp
  next
    case False
    obtain j where k: "k = Suc j" using 1 by (cases k) auto
    moreover have "0 < j" using 1 False k by (cases j) auto
    ultimately have k: "k = Suc j" "0 < j" by auto
    with 1 False have "length (hex_nat (n div 16)) \<le> j" by (intro "1.IH") (simp_all add: less_mult_imp_div_less)
    then show ?thesis using False k by (subst hex_nat.simps) simp
  qed
qed

lemma hexw_length: "n < 16 ^ k \<Longrightarrow> 0 < k \<Longrightarrow> length (hexw k n) = k"
  using hex_nat_length[of n k] by (simp add: hexw_def pad0_length)

lemma repair_codes_small: "fst (repair_codes t) < 256 \<and> snd (repair_codes t) < 256"
  by (simp add: repair_codes_def)

lemma fault_field_small:
  "i < 7 \<Longrightarrow> unat (parse_fault_addr_info a ! i) < 256" "i < 9 \<Longrightarrow> unat (parse_fault_addr_info a ! i) < 16 ^ 8"
proof -
  have w: "snd (field_meta ! i) \<le> 8" if "i < 7" for i
    using that by (auto simp: field_meta_def less_Suc_eq numeral_nat)
  show "unat (parse_fault_addr_info a ! i) < 256" if "i < 7"
  proof -
    have "unat (parse_fault_addr_info a ! i) < 2 ^ snd (field_meta ! i)" using parse_fault_props that by simp
    also have "\<dots> \<le> 2 ^ 8" using w[OF that] by (intro power_increasing) auto
    finally show ?thesis by simp
  qed
  show "unat (parse_fault_addr_info a ! i) < 16 ^ 8" if "i < 9"
    using unsigned_less[of "parse_fault_addr_info a ! i"] by simp
qed

lemma bmc_message_length: "result < 256 \<Longrightarrow> length (bmc_message err result) = 71"
  using repair_codes_small[of "reg_array err ! 0"] fault_field_small[of _ "fault_addr_of err"]
  by (cases "repair_codes (reg_array err ! 0)")
     (simp add: bmc_message_def bmc_text_def Let_def hexw_length)


text \<open>The notice to the BMC is 71 characters long for every section and every result code, so the
  buffer of 84 bytes never cuts it off, and the register, repair and isolation codes stand at
  fixed places.\<close>

lemma bmc_message_fits:
  assumes "result < 256"
  shows "snprintf BMC_MSG_SIZE (bmc_message err result) = (bmc_message err result, 71) \<and>
    take 5 (bmc_message err result) = ''REP00'' \<and>
    take 2 (drop 7 (bmc_message err result)) = hexw 2 result"
proof -
  have "snprintf BMC_MSG_SIZE (bmc_message err result) = (bmc_message err result, 71)"
    using bmc_message_length[OF assms] by (simp add: snprintf_def)
  moreover obtain rt iso where c: "repair_codes (reg_array err ! 0) = (rt, iso)" by force
  then have "length (hexw 2 rt) = 2" "length (hexw 2 result) = 2"
    using repair_codes_small[of "reg_array err ! 0"] assms by (simp_all add: hexw_length)
  then have "take 5 (bmc_message err result) = ''REP00''" "take 2 (drop 7 (bmc_message err result)) = hexw 2 result"
    by (simp_all add: bmc_message_def bmc_text_def c Let_def)
  ultimately show ?thesis by simp
qed

definition demo_error :: hisi_error where
  "demo_error = \<lparr>val_bits = 0x1060, module_id = 0x28, submodule_id = 6, reg_array_size = 20,
     reg_array = [1, 0x5000, 2, 0x12345678, 0x9ABCDEF0]\<rparr>"

lemma bmc_message_fits_example:
  "take 2 (drop 7 (bmc_message demo_error ISOLATE_FAILED_OTHER_REASON)) = hexw 2 130"
  using bmc_message_fits[of ISOLATE_FAILED_OTHER_REASON demo_error] by simp

text \<open>The registers the handlers read are numbered below \<open>reg_array_size / 4\<close>.\<close>

definition registers_read :: "hisi_error \<Rightarrow> nat set" where
  "registers_read err =
     (let n = unat (reg_array_size err div 4) in
      {HBM_REPAIR_REQ_TYPE, n - 1, n - 2} \<union>
      (if \<not> hbm_flat_mode_validate err then {}
       else if is_acls_type err then {HBM_ADDL, HBM_ADDH}
       else (\<Union>i \<in> {..<HBM_SPPR_ADDR_NUM}. {2 * i + HBM_ADDL, 2 * i + HBM_ADDH})))"

lemma acls_mask: "(t AND HBM_ERROR_MASK) AND 3 = t AND (3 :: u32)"
  by (simp add: and.assoc)



section \<open>Resources\<close>

lemma set_mutable_returns: "balance w = b \<Longrightarrow> returns (efivarfs_set_mutable i m w) (\<lambda>(r, v). balance v = b)"
  unfolding efivarfs_set_mutable_def by (intro ret_intros) (auto simp: fun_eq_iff req_delta_def)

lemmas set_mutable_intros = set_mutable_returns[OF refl, THEN returns_mono, unfolded split_paired_all split_conv]

lemma write_variable_returns: "balance w = b \<Longrightarrow> returns (write_variable i s a ex w) (\<lambda>(r, v). balance v = b)"
  unfolding write_variable_def
  by (intro set_mutable_intros ret_intros) (auto simp: fun_eq_iff req_delta_def)

lemma write_fault_returns: "balance w = b \<Longrightarrow> returns (write_fault_info_to_flash err fs w) (\<lambda>(r, f, v). balance v = b)"
  unfolding write_fault_info_to_flash_def is_variable_existing_def read_variable_attribute_def
  by (intro write_variable_returns[OF refl, THEN returns_mono, unfolded split_paired_all split_conv] ret_intros)
     (auto simp: fun_eq_iff req_delta_def)

lemma write_file_returns:
  "balance w = b \<Longrightarrow> length (script w) \<le> n \<Longrightarrow>
   returns (write_file p nm x w) (\<lambda>(r, v). balance v = b \<and> length (script v) \<le> n)"
  unfolding write_file_def by (intro ret_intros) (auto simp: fun_eq_iff req_delta_def)

lemma notice_BMC_returns:
  "balance w = b \<Longrightarrow> length (script w) \<le> n \<Longrightarrow>
   returns (notice_BMC err c w) (\<lambda>(r, v). balance v = b \<and> length (script v) \<le> n)"
  unfolding notice_BMC_def by (intro ret_intros) (auto simp: fun_eq_iff req_delta_def)

lemma meminfo_loop_returns: "balance w = b \<Longrightarrow> returns (meminfo_loop fp w) (\<lambda>(r, v). balance v = b)"
proof (induction "length (script w)" arbitrary: w rule: less_induct)
  case less
  show ?case by (subst meminfo_loop.simps, intro ret_intros less.hyps) (use less.prems in \<open>auto simp: fun_eq_iff\<close>)
qed

lemmas hbm_intros = write_file_returns[OF refl order_refl, THEN returns_mono, unfolded split_paired_all split_conv]
  notice_BMC_returns[OF refl order_refl, THEN returns_mono, unfolded split_paired_all split_conv]

lemma offline_loop_returns: "balance w = b \<Longrightarrow> returns (offline_loop err is r s w) (\<lambda>(r, s, v). balance v = b)"
  by (induction "is" arbitrary: r s w) (auto intro!: hbm_intros ret_intros)

lemma page_isolate_returns: "balance w = b \<Longrightarrow> returns (hbmc_hbm_page_isolate t err w) (\<lambda>(r, v). balance v = b)"
  unfolding hbmc_hbm_page_isolate_def get_hardware_corrupted_size_def
  by (intro meminfo_loop_returns[OF refl, THEN returns_mono, unfolded split_paired_all split_conv]
      offline_loop_returns[OF refl, THEN returns_mono, unfolded split_paired_all split_conv] hbm_intros ret_intros)
     (auto simp: fun_eq_iff req_delta_def)

lemma after_repair_returns:
  "balance w = b \<Longrightarrow> length (script w) \<le> n \<Longrightarrow>
   returns (hbmc_hbm_after_repair r p w) (\<lambda>(r, v). balance v = b \<and> length (script v) \<le> n)"
  unfolding hbmc_hbm_after_repair_def by (intro hbm_intros ret_intros) auto

lemma after_loop_returns:
  "balance w = b \<Longrightarrow> length (script w) \<le> n \<Longrightarrow>
   returns (after_loop err is r s w) (\<lambda>(s, v). balance v = b \<and> length (script v) \<le> n)"
  by (induction "is" arbitrary: s w n)
     (auto intro!: after_repair_returns[OF refl order_refl, THEN returns_mono, unfolded split_paired_all split_conv] ret_intros)

lemma hbm_repair_returns:
  "balance w = b \<Longrightarrow> length (script w) \<le> n \<Longrightarrow>
   returns (hbmc_hbm_repair err p w) (\<lambda>(r, v). balance v = b \<and> length (script v) \<le> n)"
  unfolding hbmc_hbm_repair_def
  by (intro after_repair_returns[OF refl order_refl, THEN returns_mono, unfolded split_paired_all split_conv]
      after_loop_returns[OF refl order_refl, THEN returns_mono, unfolded split_paired_all split_conv] hbm_intros ret_intros) auto

lemma memory_type_returns:
  "balance w = b \<Longrightarrow> length (script w) \<le> n \<Longrightarrow>
   returns (hbmc_get_memory_type p w) (\<lambda>(r, v). balance v = b \<and> length (script v) \<le> n)"
  unfolding hbmc_get_memory_type_def by (intro ret_intros) (auto simp: fun_eq_iff req_delta_def)

lemma device_loop_returns:
  "balance w = b \<Longrightarrow> returns (device_loop err dir d h w) (\<lambda>(x, y, z, v). balance v = b)"
proof (induction "length (script w)" arbitrary: w d h rule: less_induct)
  case less
  show ?case
    by (subst device_loop.simps, intro hbm_repair_returns[OF refl order_refl, THEN returns_mono, unfolded split_paired_all split_conv]
        memory_type_returns[OF refl order_refl, THEN returns_mono, unfolded split_paired_all split_conv] ret_intros less.hyps)
       (use less.prems in \<open>auto simp: fun_eq_iff\<close>)
qed

lemma handler_returns: "balance w = b \<Longrightarrow> returns (hbm_repair_handler t err w) (\<lambda>v. balance v = b)"
  unfolding hbm_repair_handler_def
  by (intro page_isolate_returns[OF refl, THEN returns_mono, unfolded split_paired_all split_conv]
      device_loop_returns[OF refl, THEN returns_mono, unfolded split_paired_all split_conv] hbm_intros ret_intros)
     (auto simp: fun_eq_iff req_delta_def)

lemma decode_section_returns: "balance w = b \<Longrightarrow> returns (decode_hisi_common_section t raw fs w) (\<lambda>(f, v). balance v = b)"
  unfolding decode_hisi_common_section_def
  by (intro write_fault_returns[OF refl, THEN returns_mono, unfolded split_paired_all split_conv]
      handler_returns[OF refl, THEN returns_mono] ret_intros) auto



section \<open>Notices\<close>

text \<open>Every notice opens a socket, and nothing else here does: the number of attempts to tell the BMC.\<close>

definition is_socket :: "sysreq \<Rightarrow> bool" where
  "is_socket q \<longleftrightarrow> (case q of Q_socket t \<Rightarrow> True | _ \<Rightarrow> False)"

lemma is_socket_simps [simp]:
  "is_socket (Q_socket t)" "\<not> is_socket (Q_open p f)" "\<not> is_socket (Q_close x)" "\<not> is_socket (Q_write x s)"
  "\<not> is_socket (Q_usleep k)" "\<not> is_socket (Q_fopen p s)" "\<not> is_socket (Q_fclose x)" "\<not> is_socket (Q_fgets x k)"
  "\<not> is_socket (Q_connect x s)" "\<not> is_socket (Q_opendir p)" "\<not> is_socket (Q_closedir x)" "\<not> is_socket (Q_readdir x)"
  by (simp_all add: is_socket_def)

definition notices :: "world \<Rightarrow> nat" where
  "notices w = length (filter (\<lambda>e. is_socket (fst e)) (trace w))"

lemma call_notices: "call q w = Some (r, v) \<Longrightarrow> notices v = notices w + of_bool (is_socket q)"
  by (auto simp: call_Some notices_def dest!: sys_trace)

lemma fetch_notices: "fetch q w = Some (r, d, v) \<Longrightarrow> notices v = notices w + of_bool (is_socket q)"
  by (auto simp: fetch_Some notices_def dest!: sys_trace)

lemma notices_errno [simp]: "notices (w\<lparr>errno := e\<rparr>) = notices w"
  by (simp add: notices_def)

lemma write_loop_notices: "notices w = n \<Longrightarrow> returns (write_loop fd buf w) (\<lambda>(r, v). notices v = n)"
proof (induction "length (script w)" arbitrary: w buf rule: less_induct)
  case less
  show ?case
    by (subst write_loop.simps, intro returns_flow returns_call less.hyps)
       (use less.prems in \<open>auto dest!: call_notices\<close>)
qed

lemma WriteAll_notices: "WriteAll fd buf w = Some (r, v) \<Longrightarrow> notices v = notices w"
  using write_loop_notices[OF refl] by (fastforce simp: WriteAll_def bind_eq_Some_conv returns_def)

lemmas notice_dests = call_notices fetch_notices WriteAll_notices

lemma write_file_notices: "returns (write_file p nm x w) (\<lambda>(r, v). notices v = notices w)"
  unfolding write_file_def by (intro ret_intros) (auto dest!: notice_dests)

lemma notice_BMC_notices: "returns (notice_BMC err c w) (\<lambda>(r, v). notices v = Suc (notices w))"
  unfolding notice_BMC_def by (intro ret_intros) (auto dest!: notice_dests)

lemma meminfo_notices: "notices w = n \<Longrightarrow> returns (meminfo_loop fp w) (\<lambda>(r, v). notices v = n)"
proof (induction "length (script w)" arbitrary: w rule: less_induct)
  case less
  show ?case by (subst meminfo_loop.simps, intro ret_intros less.hyps) (use less.prems in \<open>auto dest!: notice_dests\<close>)
qed

lemmas notice_intros = write_file_notices[THEN returns_mono, unfolded split_paired_all split_conv]
  notice_BMC_notices[THEN returns_mono, unfolded split_paired_all split_conv]

lemma offline_notices:
  "notices w = n \<Longrightarrow> (s \<longrightarrow> 0 \<le> r) \<Longrightarrow> returns (offline_loop err is r s w) (\<lambda>(r, s, v). notices v = n \<and> (s \<longrightarrow> 0 \<le> r))"
  by (induction "is" arbitrary: r s w) (auto intro!: notice_intros ret_intros)

lemma isolate_notices:
  "returns (hbmc_hbm_page_isolate t err w)
     (\<lambda>(r, v). notices w \<le> notices v \<and> (r < 0 \<longrightarrow> notices w < notices v))"
  unfolding hbmc_hbm_page_isolate_def get_hardware_corrupted_size_def
  by (intro meminfo_notices[OF refl, THEN returns_mono, unfolded split_paired_all split_conv]
      offline_notices[OF refl, THEN returns_mono, unfolded split_paired_all split_conv] notice_intros ret_intros)
     (auto dest!: notice_dests)

lemma after_notices: "notices w = n \<Longrightarrow> returns (hbmc_hbm_after_repair r p w) (\<lambda>(c, v). notices v = n)"
  unfolding hbmc_hbm_after_repair_def by (intro notice_intros ret_intros) auto

lemma after_loop_notices: "notices w = n \<Longrightarrow> returns (after_loop err is r s w) (\<lambda>(s, v). notices v = n)"
  by (induction "is" arbitrary: s w)
     (auto intro!: after_notices[OF refl, THEN returns_mono, unfolded split_paired_all split_conv] ret_intros)

lemma repair_notices:
  "notices w = n \<Longrightarrow> returns (hbmc_hbm_repair err p w) (\<lambda>(r, v). n \<le> notices v \<and> (r \<noteq> - ENXIO \<longrightarrow> n < notices v))"
  unfolding hbmc_hbm_repair_def
  by (intro after_notices[OF refl, THEN returns_mono, unfolded split_paired_all split_conv]
      after_loop_notices[OF refl, THEN returns_mono, unfolded split_paired_all split_conv] notice_intros ret_intros) auto

lemma memory_type_notices: "notices w = n \<Longrightarrow> returns (hbmc_get_memory_type p w) (\<lambda>(r, v). notices v = n)"
  unfolding hbmc_get_memory_type_def by (intro ret_intros) (auto dest!: notice_dests)

text \<open>One contract with the script, for the loop over the devices.\<close>

lemma returns_conj: "returns m P \<Longrightarrow> returns m Q \<Longrightarrow> returns m (\<lambda>x. P x \<and> Q x)"
  by (simp add: returns_def)

lemmas repair_both = returns_conj[OF hbm_repair_returns[OF refl order_refl] repair_notices[OF refl],
    THEN returns_mono, unfolded split_paired_all split_conv]
lemmas memory_type_both = returns_conj[OF memory_type_returns[OF refl order_refl] memory_type_notices[OF refl],
    THEN returns_mono, unfolded split_paired_all split_conv]

lemma device_notices:
  "n \<le> notices w \<Longrightarrow> returns (device_loop err dir d h w)
     (\<lambda>(x, y, z, v). n \<le> notices v \<and> (z \<longrightarrow> x \<and> y \<and> n < notices v))"
proof (induction "length (script w)" arbitrary: w d h rule: less_induct)
  case less
  show ?case
    by (subst device_loop.simps, intro repair_both memory_type_both ret_intros less.hyps)
       (use less.prems in \<open>auto dest!: notice_dests\<close>)
qed

lemma handler_notices: "returns (hbm_repair_handler t err w) (\<lambda>v. notices w < notices v)"
  unfolding hbm_repair_handler_def
  by (intro isolate_notices[THEN returns_mono, unfolded split_paired_all split_conv]
      device_notices[OF order_refl, THEN returns_mono, unfolded split_paired_all split_conv] notice_intros ret_intros)
     (auto dest!: notice_dests)

text \<open>C25: No page error is handled silently: whatever the isolation, the device directory and the repair
  lead to, on every path at least one attempt is made to tell the BMC about it.\<close>

theorem hbm_always_notified:
  assumes "hbm_repair_handler t err w = Some w'"
  shows "notices w < notices w'"
  using returnsD[OF handler_notices assms] .

theorem hbm_always_notified_witness:
  "case hbm_repair_handler 100 demo_error (boot [fails EIO, ans 4 [], ans (- 1) [], ans 0 []]) of
     Some w' \<Rightarrow> 0 < notices w' | None \<Rightarrow> False"
proof -
  let ?x = "hbm_repair_handler 100 demo_error (boot [fails EIO, ans 4 [], ans (- 1) [], ans 0 []])"
  have "map_option errno ?x \<noteq> None" by code_simp
  then obtain w' where e: "?x = Some w'" by auto
  from hbm_always_notified[OF e] show ?thesis unfolding e by simp
qed

declare device_loop.simps [code]


end
