(* ===== verification/HbmEvents.thy ===== *)
theory HbmEvents
  imports HbmRepair
begin

text \<open>
  \<open>hbm_online_repair/hbm-ras-handler.c\<close>, \<open>hbm-ras-events.c\<close> and \<open>hbm_online_repair.c\<close>: the
  trace instance in debugfs, the loop that polls the per-cpu trace pipes, the event handler, and
  \<open>main\<close>. libtraceevent is not in the repository: what \<open>tep_get_field_raw\<close> and
  \<open>tep_get_field_val\<close> deliver for an event is the record \<open>tep_fields\<close>, and the events a page
  holds are the argument \<open>events_of\<close>. The descriptors of the program are tracked through the
  loop; \<open>main\<close> unloads what it loaded on every path.
\<close>

section \<open>The event handler\<close>

text \<open>
  The fields of one event: \<open>sec_type\<close> points into the record, so the text is what the memory
  holds from there on; \<open>buf\<close> comes with the length libtraceevent reports.
\<close>

record tep_fields =
  sec_type :: "string option"
  len_val :: "int option"
  buf_raw :: "string option"
  buf_len :: int

definition uuid_order :: "nat list" where
  "uuid_order = [3, 2, 1, 0, 5, 4, 7, 6, 8, 9, 10, 11, 12, 13, 14, 15]"

definition UUID_STR_TYPE :: string where
  "UUID_STR_TYPE = ''xxxxxxxx-xxxx-xxxx-xxxx-xxxxxxxxxxxx''"

definition HISI_COMMON_SECTION_TYPE_UUID :: string where
  "HISI_COMMON_SECTION_TYPE_UUID = ''c8b328a8-9917-4af6-9a13-2e08ab2e7586''"

definition uuid_text :: "string \<Rightarrow> string" where
  "uuid_text uu = concat (map (\<lambda>i. hexw 2 (char_val (uu ! (uuid_order ! i))) @
                                   (if i \<in> {3, 5, 7, 9} then ''-'' else [])) [0..<16])"

definition decode_uuid :: "string \<Rightarrow> string \<Rightarrow> string option" where
  "decode_uuid uu uuid =
     (if length (cstr uu) \<noteq> 16 then None
      else if length (cstr uuid) \<noteq> length UUID_STR_TYPE then None
      else Some (uuid_text uu))"

definition ras_non_standard_event_handler ::
  "int \<Rightarrow> tep_fields \<Rightarrow> u64 \<Rightarrow> world \<Rightarrow> (int \<times> u64 \<times> world) option" where
  "ras_non_standard_event_handler threshold ev fsize w = (case sec_type ev of
      None \<Rightarrow> Some (- 1, fsize, w)
    | Some uu \<Rightarrow> (case decode_uuid uu UUID_STR_TYPE of
        None \<Rightarrow> Some (- 1, fsize, w)
      | Some uuid \<Rightarrow> (case len_val ev of
          None \<Rightarrow> Some (- 1, fsize, w)
        | Some v \<Rightarrow> (case buf_raw ev of
            None \<Rightarrow> Some (- 1, fsize, w)
          | Some raw \<Rightarrow>
              if to_u32 v \<noteq> to_u32 (buf_len ev) then Some (- 1, fsize, w)
              else if uuid = HISI_COMMON_SECTION_TYPE_UUID then do {
                (fsize, w) \<leftarrow> decode_hisi_common_section threshold raw fsize w;
                Some (0, fsize, w) }
              else Some (0, fsize, w)))))"

section \<open>debugfs\<close>

text \<open>\<open>strtok (line, " \t")\<close>: the next token and the rest.\<close>

definition strtok_ws :: "string \<Rightarrow> (string \<times> string) option" where
  "strtok_ws s =
     (let d = (\<lambda>c. c = CHR '' '' \<or> c = CHR 0x09); t = dropWhile d s in
      if t = [] then None else Some (takeWhile (\<lambda>c. \<not> d c) t, drop 1 (dropWhile (\<lambda>c. \<not> d c) t)))"

text \<open>The directory and the type of a line of /proc/mounts.\<close>

definition mount_fields :: "string \<Rightarrow> (string \<times> string) option" where
  "mount_fields line = do {
     (_, r) \<leftarrow> strtok_ws line;
     (dir, r) \<leftarrow> strtok_ws r;
     (typ, _) \<leftarrow> strtok_ws r;
     Some (dir, typ) }"

function mounts_loop :: "int \<Rightarrow> nat \<Rightarrow> world \<Rightarrow> (int \<times> string option \<times> world) option" where
  "mounts_loop fp len w = do {
     (r, line, w) \<leftarrow> fetch (Q_fgets fp 1281) w;
     if r < 0 then do { (_, w) \<leftarrow> call (Q_fclose fp) w; Some (ENOENT, None, w) }
     else case mount_fields (cstr (take 1280 line)) of
         None \<Rightarrow> do { (_, w) \<leftarrow> call (Q_fclose fp) w; Some (ENOENT, None, w) }
       | Some (dir, typ) \<Rightarrow>
           if typ = ''debugfs'' then
             (if len \<le> length dir \<or> 512 < length dir then do {
                (_, w) \<leftarrow> call (Q_fclose fp) w;
                Some (- 1, None, w) }
              else do {
                (_, w) \<leftarrow> call (Q_fclose fp) w;
                Some (0, Some (fst (snprintf len dir)), w) })
           else mounts_loop fp len w }"
  by pat_completeness auto
termination
  by (relation "measure (\<lambda>(f, n, w). length (script w))") (auto dest!: fetch_script)

declare mounts_loop.simps [simp del]

text \<open>The return value, and what it wrote to \<open>debugfs_dir\<close>, if anything.\<close>

definition get_debugfs_dir :: "nat \<Rightarrow> world \<Rightarrow> (int \<times> string option \<times> world) option" where
  "get_debugfs_dir len w = do {
     (fp, w) \<leftarrow> call (Q_fopen ''/proc/mounts'' ''r'') w;
     if fp < 0 then Some (errno w, None, w) else mounts_loop fp len w }"

definition open_trace :: "string \<Rightarrow> string \<Rightarrow> int \<Rightarrow> world \<Rightarrow> (int \<times> world) option" where
  "open_trace trace_dir name flags w =
     call (Q_open (fst (snprintf (MAX_PATH + 1) (trace_dir @ ''/'' @ name))) flags) w"

definition sub_instance_path :: string where
  "sub_instance_path = ''/tracing/instances/hbm_online_repair''"

text \<open>
  \<open>junk\<close> is what the uninitialised \<open>fname\<close> holds: only a negative result of \<open>get_debugfs_dir\<close>
  stops, so the path is built from it when /proc/mounts cannot be read or has no debugfs.
\<close>

definition create_trace_instance :: "string \<Rightarrow> world \<Rightarrow> (int \<times> string \<times> world) option" where
  "create_trace_instance junk w = do {
     (rc, dir, w) \<leftarrow> get_debugfs_dir (MAX_PATH + 1 - length sub_instance_path) w;
     if rc < 0 then Some (rc, [], w)
     else do {
       let fname = (case dir of Some d \<Rightarrow> d | None \<Rightarrow> cstr junk);
       let fname = fname @ fst (snprintf (MAX_PATH + 1 - length fname) sub_instance_path);
       (rc, w) \<leftarrow> call (Q_mkdir fname) w;
       if rc < 0 \<and> errno w \<noteq> EEXIST then Some (- 1, [], w)
       else Some (0, fst (snprintf (MAX_PATH + 1) fname), w) } }"

text \<open>\<open>struct ras_events\<close>: the allocation and the instance directory.\<close>

record ras_events =
  ras_mem :: int
  tracing :: string

definition init_trace_instance :: "string \<Rightarrow> world \<Rightarrow> (ras_events option \<times> world) option" where
  "init_trace_instance junk w = do {
     (m, w) \<leftarrow> call (Q_malloc 1048) w;
     if m < 0 then Some (None, w)
     else do {
       (rc, t, w) \<leftarrow> create_trace_instance junk w;
       if rc < 0 then do { (_, w) \<leftarrow> call (Q_free m) w; Some (None, w) }
       else Some (Some \<lparr>ras_mem = m, tracing = t\<rparr>, w) } }"

definition toggle_ras_event :: "string \<Rightarrow> string \<Rightarrow> string \<Rightarrow> bool \<Rightarrow> world \<Rightarrow> (int \<times> world) option" where
  "toggle_ras_event trace_dir grp event enable w = do {
     let fname = fst (snprintf (MAX_PATH + 1)
       ((if enable then [] else ''!'') @ grp @ '':'' @ event @ ''\<newline>''));
     (fd, w) \<leftarrow> open_trace trace_dir ''set_event'' (2 OR O_APPEND) w;
     if fd < 0 then Some (- errno w, w)
     else do {
       (rc, w) \<leftarrow> WriteAll fd fname w;
       (_, w) \<leftarrow> call (Q_close fd) w;
       if rc \<le> 0 then Some (- EIO, w) else Some (0, w) } }"

definition parse_header_page :: "ras_events \<Rightarrow> world \<Rightarrow> (int \<times> world) option" where
  "parse_header_page ras w = do {
     (fd, w) \<leftarrow> open_trace (tracing ras) ''events/header_page'' 0 w;
     if fd < 0 then Some (- 1, w)
     else do {
       (len, d, w) \<leftarrow> fetch (Q_read fd 4096) w;
       (_, w) \<leftarrow> call (Q_close fd) w;
       if len \<le> 0 then Some (- 1, w)
       else do {
         (r, w) \<leftarrow> call (Q_library ''tep_parse_header_page'' [d]) w;
         Some (if r \<noteq> 0 then - 1 else 0, w) } } }"

definition set_buffer_percent :: "ras_events \<Rightarrow> int \<Rightarrow> world \<Rightarrow> (int \<times> world) option" where
  "set_buffer_percent ras percent w = do {
     (fd, w) \<leftarrow> open_trace (tracing ras) ''buffer_percent'' 1 w;
     if 0 \<le> fd then do {
       (n, w) \<leftarrow> WriteAll fd (fst (snprintf 16 (dec_int percent))) w;
       (_, w) \<leftarrow> call (Q_close fd) w;
       Some (if n \<le> 0 then - 1 else 0, w) }
     else Some (- 1, w) }"

section \<open>The event loop\<close>

text \<open>The inner \<open>while\<close>: the events of a page, each with \<open>kbuffer_curr_size\<close>.\<close>

fun page_events :: "int \<Rightarrow> (int \<times> tep_fields) list \<Rightarrow> u64 \<Rightarrow> world \<Rightarrow> (u64 \<times> world) option" where
  "page_events threshold [] fsize w = Some (fsize, w)"
| "page_events threshold ((curr_size, ev) # evs) fsize w =
     (if curr_size < 0 then Some (fsize, w)
      else do {
        (_, fsize, w) \<leftarrow> ras_non_standard_event_handler threshold ev fsize w;
        page_events threshold evs fsize w })"

text \<open>
  The scan over the cpus of one wake-up: \<open>Inl\<close> leaves for the error label, \<open>Inr\<close> is the count of
  cpus that were not ready. A character of \<open>revents\<close> holds the bits of one descriptor.
\<close>

definition POLLIN :: "char \<Rightarrow> bool" where "POLLIN c \<longleftrightarrow> odd (char_val c)"

fun scan_cpus ::
  "int \<Rightarrow> (string \<Rightarrow> (int \<times> tep_fields) list) \<Rightarrow> (int \<times> char) list \<Rightarrow> nat \<Rightarrow> u64 \<Rightarrow> world
     \<Rightarrow> ((unit + nat) \<times> u64 \<times> world) option" where
  "scan_cpus threshold events_of [] count fsize w = Some (Inr count, fsize, w)"
| "scan_cpus threshold events_of ((fd, rv) # fds) count fsize w =
     (if \<not> POLLIN rv then scan_cpus threshold events_of fds (count + 1) fsize w
      else do {
        (n, page, w) \<leftarrow> fetch (Q_read fd 4096) w;
        if n < 0 then Some (Inl (), fsize, w)
        else if 0 < n then do {
          (fsize, w) \<leftarrow> page_events threshold (events_of page) fsize w;
          scan_cpus threshold events_of fds count fsize w }
        else scan_cpus threshold events_of fds (count + 1) fsize w })"

definition sig_list :: "nat list" where "sig_list = [2, 15, 1, 3]"

partial_function (option) poll_loop ::
  "int \<Rightarrow> (string \<Rightarrow> (int \<times> tep_fields) list) \<Rightarrow> int list \<Rightarrow> int \<Rightarrow> u64 \<Rightarrow> world
     \<Rightarrow> (u64 \<times> world) option" where
  "poll_loop threshold events_of cpu_fds sigfd fsize w = do {
     (_, d, w) \<leftarrow> fetch (Q_library ''poll'' []) w;
     let revents = fill (length cpu_fds + 1) d;
     if POLLIN (revents ! length cpu_fds) then do {
       (n, info, w) \<leftarrow> fetch (Q_read sigfd 128) w;
       if n \<noteq> 128 then poll_loop threshold events_of cpu_fds sigfd fsize w
       else if le_nat (take 4 info) \<in> set sig_list then Some (fsize, w)
       else poll_loop threshold events_of cpu_fds sigfd fsize w }
     else do {
       (r, fsize, w) \<leftarrow> scan_cpus threshold events_of (zip cpu_fds revents) 0 fsize w;
       case r of
         Inl _ \<Rightarrow> Some (fsize, w)
       | Inr count_nready \<Rightarrow>
           if count_nready = length cpu_fds then Some (fsize, w)
           else poll_loop threshold events_of cpu_fds sigfd fsize w } }"

declare poll_loop.simps [code]

text \<open>Opening the pipes: the descriptors opened so far, and whether all were opened.\<close>

fun open_pipes :: "string \<Rightarrow> nat list \<Rightarrow> int list \<Rightarrow> world \<Rightarrow> (int list \<times> bool \<times> world) option" where
  "open_pipes dir [] fds w = Some (fds, True, w)"
| "open_pipes dir (i # is) fds w = do {
     (fd, w) \<leftarrow> open_trace dir (''per_cpu/cpu'' @ dec_nat i @ ''/trace_pipe_raw'') 0 w;
     if fd < 0 then Some (fds, False, w) else open_pipes dir is (fds @ [fd]) w }"

fun close_all :: "int list \<Rightarrow> world \<Rightarrow> world option" where
  "close_all [] w = Some w"
| "close_all (fd # fds) w =
     (if 0 < fd then do { (_, w) \<leftarrow> call (Q_close fd) w; close_all fds w } else close_all fds w)"

text \<open>The clean-up at the label \<open>error\<close>, which every path from the opening of the pipes on ends with.\<close>

definition read_error :: "int \<Rightarrow> int list \<Rightarrow> u64 \<Rightarrow> world \<Rightarrow> (int \<times> u64 \<times> world) option" where
  "read_error ras_page fds fsize w = do {
     (_, w) \<leftarrow> call (Q_library ''kbuffer_free'' []) w;
     (_, w) \<leftarrow> call (Q_free ras_page) w;
     (_, w) \<leftarrow> call (Q_library ''sigprocmask'' [''SIG_UNBLOCK'']) w;
     w \<leftarrow> close_all fds w;
     Some (- 1, fsize, w) }"

definition read_ras_event_all_cpus ::
  "int \<Rightarrow> (string \<Rightarrow> (int \<times> tep_fields) list) \<Rightarrow> ras_events \<Rightarrow> nat \<Rightarrow> u64 \<Rightarrow> world
     \<Rightarrow> (int \<times> u64 \<times> world) option" where
  "read_ras_event_all_cpus threshold events_of ras n_cpus fsize w = do {
     (_, w) \<leftarrow> set_buffer_percent ras 0 w;
     (ras_page, w) \<leftarrow> call (Q_malloc 4096) w;
     if ras_page < 0 then Some (- ENOMEM, fsize, w)
     else do {
       (kbuf, w) \<leftarrow> call (Q_library ''kbuffer_alloc'' []) w;
       if kbuf < 0 then do { (_, w) \<leftarrow> call (Q_free ras_page) w; Some (- ENOMEM, fsize, w) }
       else do {
         (fds, ok, w) \<leftarrow> open_pipes (tracing ras) [0..<n_cpus] [] w;
         if \<not> ok then read_error ras_page fds fsize w
         else do {
           (_, w) \<leftarrow> call (Q_library ''sigprocmask'' [''SIG_BLOCK'']) w;
           (sigfd, w) \<leftarrow> call (Q_open ''signalfd'' 0) w;
           if sigfd < 0 then read_error ras_page fds fsize w
           else do {
             (fsize, w) \<leftarrow> poll_loop threshold events_of fds sigfd fsize w;
             read_error ras_page (fds @ [sigfd]) fsize w } } } } }"

definition init_event_format :: "ras_events \<Rightarrow> string \<Rightarrow> string \<Rightarrow> world \<Rightarrow> (int \<times> world) option" where
  "init_event_format ras grp event w = do {
     let fname = fst (snprintf (MAX_PATH + 1) (''events/'' @ grp @ ''/'' @ event @ ''/format''));
     (fd, w) \<leftarrow> open_trace (tracing ras) fname 0 w;
     if fd < 0 then Some (errno w, w)
     else do {
       (page, w) \<leftarrow> call (Q_malloc 4096) w;
       if page < 0 then do {
         let rc = errno w;
         (_, w) \<leftarrow> call (Q_close fd) w;
         Some (rc, w) }
       else do {
         (n, d, w) \<leftarrow> fetch (Q_read fd 4096) w;
         (_, w) \<leftarrow> call (Q_close fd) w;
         if n < 0 then do { (_, w) \<leftarrow> call (Q_free page) w; Some (n, w) }
         else do {
           (rc, w) \<leftarrow> call (Q_library ''tep_parse_event'' [d, grp]) w;
           (_, w) \<leftarrow> call (Q_free page) w;
           Some (if rc \<noteq> 0 then EINVAL else 0, w) } } } }"

definition add_event_handler :: "ras_events \<Rightarrow> string \<Rightarrow> string \<Rightarrow> world \<Rightarrow> (int \<times> world) option" where
  "add_event_handler ras grp event w = do {
     (rc, w) \<leftarrow> init_event_format ras grp event w;
     if rc \<noteq> 0 then Some (rc, w)
     else do {
       (rc, w) \<leftarrow> call (Q_library ''tep_register_event_handler'' [grp, event]) w;
       Some (if rc < 0 then EINVAL else 0, w) } }"

text \<open>\<open>tep_alloc\<close> and \<open>tep_free\<close> are an allocation and its release.\<close>

definition handle_ras_events ::
  "int \<Rightarrow> (string \<Rightarrow> (int \<times> tep_fields) list) \<Rightarrow> ras_events \<Rightarrow> u64 \<Rightarrow> world
     \<Rightarrow> (int \<times> u64 \<times> world) option" where
  "handle_ras_events threshold events_of ras fsize w = do {
     (pevent, w) \<leftarrow> call (Q_malloc 0) w;
     if pevent < 0 then Some (errno w, fsize, w)
     else do {
       let err = (\<lambda>rc fsize w. do { (_, w) \<leftarrow> call (Q_free pevent) w; Some (rc, fsize, w) });
       (rc, w) \<leftarrow> parse_header_page ras w;
       if rc \<noteq> 0 then err rc fsize w
       else do {
         (rc, w) \<leftarrow> add_event_handler ras ''ras'' ''non_standard_event'' w;
         if rc \<noteq> 0 then err rc fsize w
         else do {
           (n, w) \<leftarrow> call (Q_sysconf 84) w;
           (rc, fsize, w) \<leftarrow> read_ras_event_all_cpus threshold events_of ras (nat n) fsize w;
           err rc fsize w } } } }"

section \<open>main\<close>

text \<open>\<open>string2int\<close>: the value stored, if any, and whether the call succeeded.\<close>

definition string2int :: "string option \<Rightarrow> int option \<times> bool" where
  "string2int s = (case s of
      None \<Rightarrow> (None, False)
    | Some str \<Rightarrow>
        (let (v, endptr, erange) = strtol str in
         if erange \<or> endptr \<noteq> [] then (None, False)
         else if v \<noteq> to_i32 v then (Some (to_i32 v), False)
         else (Some (to_i32 v), True)))"

definition execute_command :: "string \<Rightarrow> world \<Rightarrow> (int \<times> world) option" where
  "execute_command command w = do {
     (fp, w) \<leftarrow> call (Q_popen command) w;
     if fp < 0 then Some (- 1, w)
     else do {
       (_, _, w) \<leftarrow> fetch (Q_fgets fp 128) w;
       (ret, w) \<leftarrow> call (Q_pclose fp) w;
       if ret < 0 then Some (- 1, w)
       else if ret mod 128 \<noteq> 0 then Some (- 1, w)
       else Some (- (ret div 256 mod 256), w) } }"

definition handle_driver :: "string \<Rightarrow> bool \<Rightarrow> world \<Rightarrow> (int \<times> world) option" where
  "handle_driver driver_name load w =
     execute_command (fst (snprintf 32 ((if load then ''modprobe'' else ''rmmod'') @ '' '' @
       driver_name @ '' 2>&1''))) w"

definition handle_all_drivers :: "bool \<Rightarrow> world \<Rightarrow> (int \<times> world) option" where
  "handle_all_drivers load w = do {
     (ret, w) \<leftarrow> handle_driver ''hisi_mem_ras'' load w;
     if ret < 0 then Some (ret, w) else handle_driver ''page_eject'' load w }"

abbreviation DEFAULT_PAGE_ISOLATION_THRESHOLD :: int where
  "DEFAULT_PAGE_ISOLATION_THRESHOLD \<equiv> 3355443"

text \<open>The log level and the page isolation threshold, from the environment.\<close>

definition hbm_param_init :: "string option \<Rightarrow> string option \<Rightarrow> int \<times> int" where
  "hbm_param_init env_level env_threshold =
     (let level = (case string2int env_level of
                     (Some v, True) \<Rightarrow> if v < 0 \<or> 3 < v then 1 else v | _ \<Rightarrow> 1);
          threshold = (case string2int env_threshold of
                     (Some v, True) \<Rightarrow> if v < 0 then DEFAULT_PAGE_ISOLATION_THRESHOLD else v
                   | _ \<Rightarrow> DEFAULT_PAGE_ISOLATION_THRESHOLD)
      in (level, threshold))"

definition hbm_main ::
  "(string \<Rightarrow> (int \<times> tep_fields) list) \<Rightarrow> string \<Rightarrow> string option \<Rightarrow> string option \<Rightarrow> world
     \<Rightarrow> (int \<times> world) option" where
  "hbm_main events_of junk env_level env_threshold w = do {
     let threshold = snd (hbm_param_init env_level env_threshold);
     (ret, w) \<leftarrow> handle_all_drivers True w;
     if ret < 0 then Some (ret, w)
     else do {
       (ras, w) \<leftarrow> init_trace_instance junk w;
       case ras of
         None \<Rightarrow> do { (_, w) \<leftarrow> handle_all_drivers False w; Some (- 1, w) }
       | Some ras \<Rightarrow> do {
           (ret, w) \<leftarrow> toggle_ras_event (tracing ras) ''ras'' ''non_standard_event'' True w;
           (ret, w) \<leftarrow>
             (if ret < 0 then Some (ret, w)
              else do {
                (fsize, w) \<leftarrow> get_flash_total_size 0 w;
                (_, fsize, w) \<leftarrow> handle_ras_events threshold events_of ras fsize w;
                toggle_ras_event (tracing ras) ''ras'' ''non_standard_event'' False w });
           (_, w) \<leftarrow> call (Q_free (ras_mem ras)) w;
           (_, w) \<leftarrow> handle_all_drivers False w;
           Some (ret, w) } } }"

section \<open>Contracts\<close>

lemma mounts_loop_returns:
  "balance w = (\<lambda>x. b x + of_bool (x = File fp)) \<Longrightarrow> returns (mounts_loop fp len w) (\<lambda>(r, d, v). balance v = b)"
proof (induction "length (script w)" arbitrary: w rule: less_induct)
  case less
  show ?case
    by (subst mounts_loop.simps, intro ret_intros less.hyps) (use less.prems in \<open>auto simp: fun_eq_iff req_delta_def\<close>)
qed

lemma create_trace_returns: "balance w = b \<Longrightarrow> returns (create_trace_instance junk w) (\<lambda>(r, d, v). balance v = b)"
  unfolding create_trace_instance_def get_debugfs_dir_def
  by (intro mounts_loop_returns[THEN returns_mono, unfolded split_paired_all split_conv] ret_intros)
     (auto simp: fun_eq_iff req_delta_def)

lemma init_trace_returns:
  "balance w = b \<Longrightarrow> returns (init_trace_instance junk w)
     (\<lambda>(ras, v). balance v = (\<lambda>x. b x + (case ras of None \<Rightarrow> 0 | Some e \<Rightarrow> of_bool (x = Mem (ras_mem e)))))"
  unfolding init_trace_instance_def
  by (intro create_trace_returns[OF refl, THEN returns_mono, unfolded split_paired_all split_conv] ret_intros)
     (auto simp: fun_eq_iff req_delta_def)

lemma toggle_returns: "balance w = b \<Longrightarrow> returns (toggle_ras_event d g e en w) (\<lambda>(r, v). balance v = b)"
  unfolding toggle_ras_event_def open_trace_def by (intro ret_intros) (auto simp: fun_eq_iff req_delta_def)

lemma header_page_returns: "balance w = b \<Longrightarrow> returns (parse_header_page ras w) (\<lambda>(r, v). balance v = b)"
  unfolding parse_header_page_def open_trace_def by (intro ret_intros) (auto simp: fun_eq_iff req_delta_def)

lemma buffer_percent_returns: "balance w = b \<Longrightarrow> returns (set_buffer_percent ras n w) (\<lambda>(r, v). balance v = b)"
  unfolding set_buffer_percent_def open_trace_def by (intro ret_intros) (auto simp: fun_eq_iff req_delta_def)

lemma add_handler_returns: "balance w = b \<Longrightarrow> returns (add_event_handler ras g e w) (\<lambda>(r, v). balance v = b)"
  unfolding add_event_handler_def init_event_format_def open_trace_def
  by (intro ret_intros) (auto simp: fun_eq_iff req_delta_def)

lemma event_handler_returns:
  "balance w = b \<Longrightarrow> returns (ras_non_standard_event_handler t ev fs w) (\<lambda>(r, f, v). balance v = b)"
  unfolding ras_non_standard_event_handler_def
  by (intro decode_section_returns[OF refl, THEN returns_mono, unfolded split_paired_all split_conv] ret_intros) auto

lemma page_events_returns: "balance w = b \<Longrightarrow> returns (page_events t evs fs w) (\<lambda>(f, v). balance v = b)"
proof (induction evs arbitrary: fs w)
  case (Cons e evs)
  obtain n ev where e: "e = (n, ev)" by force
  show ?case unfolding e page_events.simps
    by (intro event_handler_returns[OF refl, THEN returns_mono, unfolded split_paired_all split_conv] Cons.IH ret_intros)
       (use Cons.prems in auto)
qed (simp add: returns_Some)

lemma scan_cpus_returns:
  "balance w = b \<Longrightarrow> returns (scan_cpus t ev fds n fs w) (\<lambda>(r, f, v). balance v = b)"
proof (induction fds arbitrary: n fs w)
  case (Cons e fds)
  obtain fd rv where e: "e = (fd, rv)" by force
  show ?case unfolding e scan_cpus.simps
    by (intro page_events_returns[OF refl, THEN returns_mono, unfolded split_paired_all split_conv] Cons.IH ret_intros)
       (use Cons.prems in \<open>auto simp: fun_eq_iff\<close>)
qed (simp add: returns_Some)

lemma poll_loop_balance:
  assumes "poll_loop t ev cpu_fds sigfd fs w = Some r"
  shows "balance (snd r) = balance w"
proof (rule poll_loop.raw_induct[where P = "\<lambda>t ev cpu_fds sigfd fs w r. balance (snd r) = balance w", OF _ assms], goal_cases)
  case (1 f t ev cpu_fds sigfd fs w r)
  have i: "returns (f t ev cpu_fds sigfd fs v) (\<lambda>r. balance (snd r) = b)" if "balance v = b" for fs v b
    using 1(1) that by (auto intro!: returnsI)
  note s = scan_cpus_returns[OF refl, THEN returns_mono, unfolded split_paired_all split_conv]
  show ?case
    by (rule returnsD[OF _ 1(2)], intro i s returns_sum ret_intros) (simp_all add: fun_eq_iff)
qed

lemma poll_loop_returns: "balance w = b \<Longrightarrow> returns (poll_loop t ev fds sigfd fs w) (\<lambda>(f, v). balance v = b)"
  by (rule returnsI) (use poll_loop_balance in fastforce)

text \<open>The descriptors of a list; the clean-up closes the positive ones.\<close>

definition held :: "int list \<Rightarrow> resource \<Rightarrow> int" where
  "held fds x = (\<Sum>fd\<leftarrow>fds. of_bool (x = Fd fd))"

lemma held_simps [simp]: "held [] x = 0" "held (fd # fds) x = of_bool (x = Fd fd) + held fds x"
  "held (fds @ gds) x = held fds x + held gds x"
  by (simp_all add: held_def)

lemma open_pipes_returns:
  "balance w = (\<lambda>x. b x + held fds x) \<Longrightarrow> \<forall>fd \<in> set fds. 0 \<le> fd \<Longrightarrow> returns (open_pipes d is fds w)
     (\<lambda>(fds', ok, v). balance v = (\<lambda>x. b x + held fds' x) \<and> (\<forall>fd \<in> set fds'. 0 \<le> fd))"
proof (induction "is" arbitrary: fds w)
  case (Cons i "is")
  show ?case unfolding open_pipes.simps open_trace_def
    by (intro Cons.IH ret_intros) (use Cons.prems in \<open>auto simp: fun_eq_iff req_delta_def\<close>)
qed (simp add: returns_Some)

lemma all_pipes_returns:
  "returns (open_pipes d is [] w) (\<lambda>(fds, ok, v). (\<forall>x. balance v x = balance w x + held fds x) \<and> (\<forall>fd \<in> set fds. 0 \<le> fd))"
  by (rule returns_mono[OF open_pipes_returns[of w "balance w"]]) (auto simp: fun_eq_iff)

text \<open>Descriptor 0 is the one the clean-up does not close.\<close>

definition released :: "(resource \<Rightarrow> int) \<Rightarrow> world \<Rightarrow> bool" where
  "released b w \<longleftrightarrow> (\<forall>x. x \<noteq> Fd 0 \<longrightarrow> balance w x = b x)"

lemma close_all_returns:
  "released (\<lambda>x. b x + held fds x) w \<Longrightarrow> \<forall>fd \<in> set fds. 0 \<le> fd \<Longrightarrow> returns (close_all fds w) (released b)"
proof (induction fds arbitrary: w)
  case (Cons fd fds)
  show ?case unfolding close_all.simps
    by (intro Cons.IH ret_intros) (use Cons.prems in \<open>auto simp: released_def req_delta_def\<close>)
qed (simp add: returns_Some)

lemma released_refl: "balance w = b \<Longrightarrow> released b w"
  by (simp add: released_def)

lemma read_error_returns:
  "balance w = (\<lambda>x. b x + of_bool (x = Mem m) + held fds x) \<Longrightarrow> \<forall>fd \<in> set fds. 0 \<le> fd \<Longrightarrow>
   returns (read_error m fds fs w) (\<lambda>(r, f, v). released b v)"
  unfolding read_error_def
  by (intro close_all_returns[of b, THEN returns_mono] ret_intros) (simp_all add: released_def req_delta_def)

lemma read_all_returns:
  "balance w = b \<Longrightarrow> returns (read_ras_event_all_cpus t ev ras n fs w) (\<lambda>(r, f, v). released b v)"
  unfolding read_ras_event_all_cpus_def
  by (intro buffer_percent_returns[OF refl, THEN returns_mono, unfolded split_paired_all split_conv]
      all_pipes_returns[THEN returns_mono, unfolded split_paired_all split_conv]
      poll_loop_returns[OF refl, THEN returns_mono, unfolded split_paired_all split_conv]
      read_error_returns ret_intros)
     (simp_all add: released_def req_delta_def fun_eq_iff)

lemma handle_events_returns:
  "balance w = b \<Longrightarrow> returns (handle_ras_events t ev ras fs w) (\<lambda>(r, f, v). released b v)"
  unfolding handle_ras_events_def Let_def
  by (intro header_page_returns[OF refl, THEN returns_mono, unfolded split_paired_all split_conv]
      add_handler_returns[OF refl, THEN returns_mono, unfolded split_paired_all split_conv]
      read_all_returns[OF refl, THEN returns_mono, unfolded split_paired_all split_conv] ret_intros)
     (auto simp: released_def req_delta_def)

lemma flash_size_returns: "balance w = b \<Longrightarrow> returns (flash_size_loop is fs w) (\<lambda>(f, v). balance v = b)"
proof (induction "is" arbitrary: fs w)
  case (Cons i "is")
  show ?case unfolding flash_size_loop.simps is_variable_existing_def get_var_size_def
    by (intro Cons.IH ret_intros) (use Cons.prems in \<open>auto simp: fun_eq_iff req_delta_def\<close>)
qed (simp add: returns_Some)

lemma all_drivers_returns: "balance w = b \<Longrightarrow> returns (handle_all_drivers l w) (\<lambda>(r, v). balance v = b)"
  unfolding handle_all_drivers_def handle_driver_def execute_command_def
  by (intro ret_intros) (auto simp: fun_eq_iff req_delta_def)

lemma hbm_main_returns:
  "returns (hbm_main ev junk l t w) (\<lambda>(r, v). released (balance w) v)"
  unfolding hbm_main_def Let_def get_flash_total_size_def
  by (intro all_drivers_returns[OF refl, THEN returns_mono, unfolded split_paired_all split_conv]
      init_trace_returns[OF refl, THEN returns_mono, unfolded split_paired_all split_conv]
      toggle_returns[OF refl, THEN returns_mono, unfolded split_paired_all split_conv]
      flash_size_returns[OF refl, THEN returns_mono, unfolded split_paired_all split_conv]
      handle_events_returns[OF refl, THEN returns_mono, unfolded split_paired_all split_conv] ret_intros)
     (simp_all add: released_def req_delta_def)


text \<open>A daemon that starts, reads one page from its single core and ends at a signal.\<close>

definition hbm_run :: world where
  "hbm_run = boot (
     [ans 3 [], fails 0, ans 0 [], ans 3 [], fails 0, ans 0 []] @
     [ans 7 [], ans 4 [], ans 0 ''debugfs /d debugfs rw'', ans 0 [], ans 0 []] @
     [ans 5 [], ans 26 [], ans 0 []] @ replicate 8 (fails 2) @
     [ans 9 [], ans 5 [], ans 3 ''abc'', ans 0 [], ans 0 []] @
     [ans 5 [], ans 10 [], ans 2 ''ab'', ans 0 [], ans 0 [], ans 0 [], ans 0 []] @
     [ans 1 []] @ [fails 13, ans 11 [], ans 0 [], ans 6 [], ans 0 [], ans 8 []] @
     [ans 1 [CHR 0x01, NUL], ans 4 ''page'', ans 1 [NUL, CHR 0x01], ans 128 (CHR 0x0F # replicate 127 NUL)] @
     [ans 0 [], ans 0 [], ans 0 [], ans 0 [], ans 0 []] @ [ans 0 []] @
     [ans 5 [], ans 27 [], ans 0 [], ans 0 []] @ [ans 3 [], fails 0, ans 0 [], ans 3 [], fails 0, ans 0 []])"


end
