(* ===== verification/TcRing.thy ===== *)
theory TcRing
  imports XalarmMsg
begin

text \<open>
  \<open>soc_ring_sentry/tc_ring_one.c\<close>: the ring test. Each NUMA node has a test space, here a list of
  64-bit words; a unit of 128 bytes is one cache line of ones and one of zeros in which the bit
  under test is set. Every online core runs a thread; the threads go through the phases of a test
  together, separated by barriers, so a test is a sequence of phases and in each phase the
  threads act one after another in some order (the argument \<open>order\<close> of the phases). libnuma is
  not in the repository: the node of a core is the argument \<open>node_of\<close>, and its allocator is a
  library call.
\<close>

section \<open>The test space\<close>

abbreviation BLOCK_SIZE :: nat where "BLOCK_SIZE \<equiv> 0x10000"
abbreviation RD_LOOP :: nat where "RD_LOOP \<equiv> 0x80"
abbreviation DATA_UNIT :: nat where "DATA_UNIT \<equiv> 128"
abbreviation CACHELINE_SIZE :: nat where "CACHELINE_SIZE \<equiv> 64"
abbreviation TC_PRAMA_ERR :: int where "TC_PRAMA_ERR \<equiv> - 1"
abbreviation TC_FAIL :: int where "TC_FAIL \<equiv> - 2"
abbreviation TC_SUCCESS :: int where "TC_SUCCESS \<equiv> 0"

text \<open>\<open>for (i = 0; i < size; i += step)\<close>: the values of \<open>i\<close>.\<close>

definition offsets :: "nat \<Rightarrow> nat \<Rightarrow> nat list" where
  "offsets step sz = map (\<lambda>k. k * step) [0..<(sz + step - 1) div step]"

definition tc_ring_one_pattern :: "u64 list" where
  "tc_ring_one_pattern = replicate 8 (- 1) @ replicate 8 0"

text \<open>\<open>memcpy\<close> of words to byte offset \<open>i\<close>.\<close>

definition copy_words :: "u64 list \<Rightarrow> nat \<Rightarrow> u64 list \<Rightarrow> u64 list" where
  "copy_words src i space = foldl (\<lambda>s k. s[i div 8 + k := src ! k]) space [0..<length src]"

definition tc_ring_one_space_init :: "nat \<Rightarrow> u64 list \<Rightarrow> u64 list" where
  "tc_ring_one_space_init sz space =
     foldl (\<lambda>s i. copy_words tc_ring_one_pattern i s) space (offsets DATA_UNIT sz)"

definition word_offset :: "nat \<Rightarrow> nat" where
  "word_offset scan_bit = (scan_bit div 64) * 8"

definition dat_pattern :: "nat \<Rightarrow> u64" where
  "dat_pattern scan_bit = push_bit (scan_bit mod 64) 1"

definition tc_ring_one_init_data_pattern :: "nat \<Rightarrow> nat \<Rightarrow> u64 list \<Rightarrow> u64 list" where
  "tc_ring_one_init_data_pattern sz scan_bit space =
     foldl (\<lambda>s i. s[(i + word_offset scan_bit + CACHELINE_SIZE) div 8 := dat_pattern scan_bit])
       space (offsets DATA_UNIT sz)"

definition tc_ring_one_data_clear :: "nat \<Rightarrow> nat \<Rightarrow> u64 list \<Rightarrow> u64 list" where
  "tc_ring_one_data_clear sz scan_bit space =
     foldl (\<lambda>s i. s[(i + word_offset scan_bit + CACHELINE_SIZE) div 8 := 0]) space (offsets DATA_UNIT sz)"

text \<open>\<open>True\<close> when the block at byte offset \<open>base\<close> of the space reads as expected.\<close>

definition tc_ring_one_scan_test_block :: "u64 list \<Rightarrow> nat \<Rightarrow> nat \<Rightarrow> nat \<Rightarrow> bool" where
  "tc_ring_one_scan_test_block space base scan_bit block_size =
     list_all (\<lambda>i. space ! ((base + i + word_offset scan_bit) div 8) = - 1 \<and>
                   space ! ((base + i + CACHELINE_SIZE + word_offset scan_bit) div 8) = dat_pattern scan_bit)
       (offsets DATA_UNIT block_size)"

section \<open>One test, all threads\<close>

text \<open>The shared part of \<open>struct tc_ring_one_config\<close> the threads work on.\<close>

record ring_state =
  test_space :: "nat \<Rightarrow> u64 list"
  node_update_flag :: "nat \<Rightarrow> nat"
  err_flag :: nat
  scan_bit :: nat
  space_writes :: "nat list"

text \<open>
  The critical sections of \<open>testspace_update\<close> and \<open>testspace_recover\<close> for the thread of core
  \<open>core\<close>; \<open>space_writes\<close> records the nodes whose space was rewritten.
\<close>

definition testspace_update :: "(nat \<Rightarrow> int) \<Rightarrow> nat \<Rightarrow> ring_state \<Rightarrow> nat \<Rightarrow> ring_state" where
  "testspace_update node_of mem_size s core =
     (if 0 \<le> node_of core \<and> node_update_flag s (nat (node_of core)) = 0
      then let n = nat (node_of core) in
        s\<lparr>test_space := (test_space s)(n := tc_ring_one_init_data_pattern mem_size (scan_bit s) (test_space s n)),
          node_update_flag := (node_update_flag s)(n := 1), space_writes := space_writes s @ [n]\<rparr>
      else s)"

definition testspace_recover :: "(nat \<Rightarrow> int) \<Rightarrow> nat \<Rightarrow> ring_state \<Rightarrow> nat \<Rightarrow> ring_state" where
  "testspace_recover node_of mem_size s core =
     (if 0 \<le> node_of core \<and> node_update_flag s (nat (node_of core)) = 1
      then let n = nat (node_of core) in
        s\<lparr>test_space := (test_space s)(n := tc_ring_one_data_clear mem_size (scan_bit s) (test_space s n)),
          node_update_flag := (node_update_flag s)(n := 0), space_writes := space_writes s @ [n]\<rparr>
      else s)"

text \<open>
  \<open>tc_ring_one_scan_bit\<close> for one thread: \<open>rd_loop\<close> passes over the blocks of its node, left at
  the first block that reads wrong. The block offset of the source is a 32-bit number, so the
  model is the code for spaces below 4 GiB (from there on the source never leaves the loop). \<open>seen k j\<close> is the space as the thread reads it in pass \<open>k\<close>
  at offset \<open>j\<close> (the memory itself may misbehave).
\<close>

definition scan_passes :: "(nat \<Rightarrow> nat \<Rightarrow> u64 list) \<Rightarrow> nat \<Rightarrow> nat \<Rightarrow> bool" where
  "scan_passes seen mem_size bit_no =
     list_all (\<lambda>k. list_all (\<lambda>j. tc_ring_one_scan_test_block (seen k j) j bit_no BLOCK_SIZE)
                      (offsets BLOCK_SIZE mem_size)) [0..<RD_LOOP]"

definition tc_ring_one_scan_bit ::
  "(nat \<Rightarrow> int) \<Rightarrow> nat \<Rightarrow> (nat \<Rightarrow> nat \<Rightarrow> nat \<Rightarrow> u64 list \<Rightarrow> u64 list) \<Rightarrow> ring_state \<Rightarrow> nat \<Rightarrow> ring_state" where
  "tc_ring_one_scan_bit node_of mem_size reads s core =
     (if node_of core < 0 then s
      else if scan_passes (\<lambda>k j. reads core k j (test_space s (nat (node_of core)))) mem_size (scan_bit s) then s
      else s\<lparr>err_flag := err_flag s + 1\<rparr>)"

text \<open>
  \<open>tc_ring_one_test_issue\<close> for all threads: update, scan, recover, each between two barriers.
  The result, the same for every thread, is whether the test goes on.
\<close>

definition tc_ring_one_test_issue ::
  "(nat \<Rightarrow> int) \<Rightarrow> nat \<Rightarrow> (nat \<Rightarrow> nat \<Rightarrow> nat \<Rightarrow> u64 list \<Rightarrow> u64 list) \<Rightarrow> nat list \<Rightarrow> nat list \<Rightarrow> nat list
     \<Rightarrow> ring_state \<Rightarrow> bool \<times> ring_state" where
  "tc_ring_one_test_issue node_of mem_size reads order_u order_s order_r s =
     (let s = foldl (testspace_update node_of mem_size) s order_u;
          s = foldl (tc_ring_one_scan_bit node_of mem_size reads) s order_s;
          s = foldl (testspace_recover node_of mem_size) s order_r
      in (err_flag s = 0, s))"

definition special_bits :: "nat list" where
  "special_bits = [394, 397, 405, 343, 394, 393, 392, 377]"

text \<open>
  The loop of \<open>tc_ring_one_thread_entry\<close> for all threads: \<open>rnd\<close> is the random choice of the last
  thread to store \<open>scan_bit\<close> in each iteration, and one order of the threads serves all phases.
  A \<open>loop_cnt\<close> of 0 runs until an error, so the loop is a partial function.
\<close>

partial_function (option) ring_loop ::
  "(nat \<Rightarrow> int) \<Rightarrow> nat \<Rightarrow> (nat \<Rightarrow> nat \<Rightarrow> nat \<Rightarrow> u64 list \<Rightarrow> u64 list) \<Rightarrow> nat list \<Rightarrow> (nat \<Rightarrow> nat) \<Rightarrow> nat
     \<Rightarrow> nat \<Rightarrow> nat \<Rightarrow> ring_state \<Rightarrow> ring_state option" where
  "ring_loop node_of mem_size reads order rnd limit sequence_id count s =
     (if err_flag s \<noteq> 0 then Some s
      else
        let (go, s) = tc_ring_one_test_issue node_of mem_size reads order order order
                        (s\<lparr>scan_bit := sequence_id\<rparr>)
        in if \<not> go then Some s
           else
             let sequence_id = (sequence_id + 1) mod (CACHELINE_SIZE * 8);
                 (go, s) = tc_ring_one_test_issue node_of mem_size reads order order order
                             (s\<lparr>scan_bit := special_bits ! (rnd count mod 8)\<rparr>)
             in if \<not> go then Some s
                else if limit \<noteq> 0 \<and> limit \<le> count + 1 then Some s
                else ring_loop node_of mem_size reads order rnd limit sequence_id (count + 1) s)"

section \<open>Set-up and release\<close>

text \<open>\<open>soc_ring_sentry_report\<close> of \<open>soc_ring_sentry.c\<close>.\<close>

definition soc_ring_sentry_report ::
  "(json \<Rightarrow> string) \<Rightarrow> int \<Rightarrow> string \<Rightarrow> world \<Rightarrow> world option" where
  "soc_ring_sentry_report J result_level report_data w = do {
     let q = [CHR 0x22];
     let json_result = fst (snprintf 2048
       (''{'' @ q @ ''msg'' @ q @ '':'' @ q @ report_data @ q @ '', '' @ q @ ''code'' @ q @ '':1001}''));
     (_, w) \<leftarrow> report_result J (Some ''soc_ring_sentry'') result_level (Some json_result) w;
     Some w }"

definition is_cpu_online :: "nat \<Rightarrow> world \<Rightarrow> (int \<times> world) option" where
  "is_cpu_online core_id w = do {
     let online_file = fst (snprintf 64 (''/sys/devices/system/cpu/cpu'' @ dec_nat core_id @ ''/online''));
     (l, w) \<leftarrow> (if core_id = 0 then call (Q_library ''lstat'' [online_file]) w else Some (0, w));
     if core_id = 0 \<and> l \<noteq> 0 then Some (1, w)
     else do {
       (fp, w) \<leftarrow> call (Q_fopen online_file ''r'') w;
       if fp < 0 then Some (0, w)
       else do {
         (r, line, w) \<leftarrow> fetch (Q_fgets fp 64) w;
         (_, w) \<leftarrow> call (Q_fclose fp) w;
         if r < 0 \<or> scan_number line = None then Some (0, w)
         else do {
           let online = to_i32 (fst (strtol line));
           if online \<noteq> 0 \<and> online \<noteq> 1 then Some (0, w) else Some (online, w) } } } }"

definition vaddr_to_phys :: "u64 \<Rightarrow> world \<Rightarrow> (u64 \<times> world) option" where
  "vaddr_to_phys vaddr w = do {
     (p, w) \<leftarrow> call (Q_sysconf 30) w;
     (pid, w) \<leftarrow> call (Q_library ''getpid'' []) w;
     (fd, w) \<leftarrow> call (Q_open (fst (snprintf 64 (''/proc/'' @ dec_int pid @ ''/pagemap''))) 0) w;
     if fd < 0 then Some (0, w)
     else do {
       (n, d, w) \<leftarrow> fetch (Q_read fd 8) w;
       if n \<noteq> 8 then do { (_, w) \<leftarrow> call (Q_close fd) w; Some (0, w) }
       else do {
         (_, w) \<leftarrow> call (Q_close fd) w;
         let pinfo = (word_of_nat (le_nat d) :: u64);
         let page_size = (word_of_int p :: u64);
         if \<not> bit pinfo 63 then Some (0, w)
         else Some ((pinfo AND (push_bit 55 1 - 1)) * page_size + (vaddr AND (page_size - 1)), w) } } }"

text \<open>\<open>numa_alloc_fallback\<close>; \<open>allowed\<close> is the mask of \<open>numa_get_mems_allowed\<close>, \<open>None\<close> on failure.\<close>

fun alloc_other_nodes :: "nat set \<Rightarrow> nat \<Rightarrow> nat \<Rightarrow> nat list \<Rightarrow> world \<Rightarrow> (int option \<times> world) option" where
  "alloc_other_nodes allowed preferred_node sz [] w = Some (None, w)"
| "alloc_other_nodes allowed preferred_node sz (node # nodes) w =
     (if node = preferred_node \<or> node \<notin> allowed then alloc_other_nodes allowed preferred_node sz nodes w
      else do {
        (ptr, w) \<leftarrow> call (Q_malloc sz) w;
        if 0 \<le> ptr then Some (Some ptr, w)
        else alloc_other_nodes allowed preferred_node sz nodes w })"

definition numa_alloc_fallback ::
  "nat set option \<Rightarrow> nat \<Rightarrow> nat \<Rightarrow> nat \<Rightarrow> world \<Rightarrow> (int \<times> world) option" where
  "numa_alloc_fallback allowed_nodes numa_node preferred_node sz w = (case allowed_nodes of
      None \<Rightarrow> Some (- 1, w)
    | Some allowed \<Rightarrow> do {
        (ptr, w) \<leftarrow> (if preferred_node \<in> allowed then call (Q_malloc sz) w else Some (- 1, w));
        if 0 \<le> ptr then Some (ptr, w)
        else do {
          (p, w) \<leftarrow> alloc_other_nodes allowed preferred_node sz [0..<numa_node] w;
          case p of
            Some ptr \<Rightarrow> Some (ptr, w)
          | None \<Rightarrow> call (Q_malloc sz) w } })"

text \<open>The allocations of \<open>struct tc_ring_one_config\<close>.\<close>

record ring_config =
  test_space_base :: "int list"
  base_mem :: int
  flag_mem :: int
  mutex_mem :: int
  threads_mem :: int

definition is_core_invalid :: "bool list \<Rightarrow> nat \<Rightarrow> world \<Rightarrow> (bool \<times> world) option" where
  "is_core_invalid black_list core_id w =
     (if black_list ! core_id then Some (True, w)
      else do { (online, w) \<leftarrow> is_cpu_online core_id w; Some (online = 0, w) })"

fun count_valid :: "bool list \<Rightarrow> nat list \<Rightarrow> nat \<Rightarrow> world \<Rightarrow> (nat \<times> world) option" where
  "count_valid bl [] n w = Some (n, w)"
| "count_valid bl (i # is) n w = do {
     (inv, w) \<leftarrow> is_core_invalid bl i w;
     count_valid bl is (if inv then n else n + 1) w }"

text \<open>Whether all mutexes could be initialised, and how many are.\<close>

fun mutex_inits :: "nat \<Rightarrow> nat \<Rightarrow> world \<Rightarrow> (bool \<times> nat \<times> world) option" where
  "mutex_inits i 0 w = Some (True, i, w)"
| "mutex_inits i (Suc n) w = do {
     (r, w) \<leftarrow> call (Q_library ''pthread_mutex_init'' [dec_nat i]) w;
     if r \<noteq> 0 then Some (False, i, w) else mutex_inits (i + 1) n w }"

fun mutex_destroys :: "nat list \<Rightarrow> world \<Rightarrow> world option" where
  "mutex_destroys [] w = Some w"
| "mutex_destroys (i # is) w = do {
     (_, w) \<leftarrow> call (Q_library ''pthread_mutex_destroy'' [dec_nat i]) w;
     mutex_destroys is w }"

text \<open>The status, and \<open>tc_node_mutex\<close> and \<open>tc_core_threads\<close>.\<close>

definition tc_ring_one_ctrl_var_init ::
  "bool list \<Rightarrow> nat \<Rightarrow> nat \<Rightarrow> world \<Rightarrow> (int \<times> int \<times> int \<times> world) option" where
  "tc_ring_one_ctrl_var_init black_list sys_core_total numa_node w = do {
     (valid_core_num, w) \<leftarrow> count_valid black_list [0..<sys_core_total] 0 w;
     (r, w) \<leftarrow> call (Q_library ''pthread_mutexattr_init'' []) w;
     if r \<noteq> 0 then Some (TC_PRAMA_ERR, - 1, - 1, w)
     else do {
       (_, w) \<leftarrow> call (Q_library ''pthread_mutexattr_settype'' [''PTHREAD_MUTEX_ERRORCHECK'']) w;
       (m, w) \<leftarrow> call (Q_malloc (numa_node * 40)) w;
       let mutex_alloc_fail = (\<lambda>w. do {
         (_, w) \<leftarrow> call (Q_library ''pthread_mutexattr_destroy'' []) w;
         Some (TC_PRAMA_ERR, - 1, - 1, w) });
       let mutex_init_fail = (\<lambda>i w. do {
         w \<leftarrow> mutex_destroys (rev [0..<i]) w;
         (_, w) \<leftarrow> call (Q_free m) w;
         mutex_alloc_fail w });
       if m < 0 then mutex_alloc_fail w
       else do {
         (ok, i, w) \<leftarrow> mutex_inits 0 numa_node w;
         if \<not> ok then mutex_init_fail i w
         else do {
           (t, w) \<leftarrow> call (Q_malloc (sys_core_total * 8)) w;
           if t < 0 then mutex_init_fail i w
           else do {
             (_, w) \<leftarrow> call (Q_library ''pthread_mutexattr_destroy'' []) w;
             (_, w) \<leftarrow> call (Q_library ''pthread_barrier_init'' [dec_nat valid_core_num]) w;
             Some (TC_SUCCESS, m, t, w) } } } } }"

fun alloc_spaces ::
  "nat set option \<Rightarrow> nat \<Rightarrow> nat \<Rightarrow> nat list \<Rightarrow> int list \<Rightarrow> world \<Rightarrow> (bool \<times> int list \<times> world) option" where
  "alloc_spaces allowed numa_node sz [] ptrs w = Some (True, ptrs, w)"
| "alloc_spaces allowed numa_node sz (i # is) ptrs w = do {
     (ptr, w) \<leftarrow> numa_alloc_fallback allowed numa_node i sz w;
     if ptr < 0 then Some (False, ptrs, w)
     else alloc_spaces allowed numa_node sz is (ptrs @ [ptr]) w }"

fun free_all :: "int list \<Rightarrow> world \<Rightarrow> world option" where
  "free_all [] w = Some w"
| "free_all (p # ps) w = do { (_, w) \<leftarrow> call (Q_free p) w; free_all ps w }"

definition tc_ring_one_init ::
  "nat set option \<Rightarrow> nat \<Rightarrow> bool list \<Rightarrow> nat \<Rightarrow> nat \<Rightarrow> world \<Rightarrow> (int \<times> ring_config option \<times> world) option" where
  "tc_ring_one_init allowed mem_size black_list sys_core_total numa_node w = do {
     (avail, w) \<leftarrow> call (Q_library ''numa_available'' []) w;
     if avail < 0 then Some (TC_PRAMA_ERR, None, w)
     else do {
       (b, w) \<leftarrow> call (Q_malloc (numa_node * 8)) w;
       if b < 0 then Some (TC_PRAMA_ERR, None, w)
       else do {
         let numa_alloc_fail = (\<lambda>ptrs ret w. do {
           w \<leftarrow> free_all (rev ptrs) w;
           (_, w) \<leftarrow> call (Q_free b) w;
           Some (ret, None, w) });
         (ok, ptrs, w) \<leftarrow> alloc_spaces allowed numa_node mem_size [0..<numa_node] [] w;
         if \<not> ok then numa_alloc_fail ptrs TC_PRAMA_ERR w
         else do {
           (f, w) \<leftarrow> call (Q_malloc (numa_node * 4)) w;
           if f < 0 then numa_alloc_fail ptrs TC_PRAMA_ERR w
           else do {
             (ret, m, t, w) \<leftarrow> tc_ring_one_ctrl_var_init black_list sys_core_total numa_node w;
             if ret \<noteq> 0 then do {
               (_, w) \<leftarrow> call (Q_free f) w;
               numa_alloc_fail ptrs ret w }
             else Some (ret, Some \<lparr>test_space_base = ptrs, base_mem = b, flag_mem = f,
                                  mutex_mem = m, threads_mem = t\<rparr>, w) } } } } }"

definition tc_ring_one_release :: "nat \<Rightarrow> ring_config \<Rightarrow> world \<Rightarrow> world option" where
  "tc_ring_one_release numa_node c w = do {
     w \<leftarrow> free_all (test_space_base c) w;
     (_, w) \<leftarrow> call (Q_free (base_mem c)) w;
     (_, w) \<leftarrow> call (Q_free (flag_mem c)) w;
     (_, w) \<leftarrow> call (Q_library ''pthread_barrier_destroy'' []) w;
     w \<leftarrow> mutex_destroys [0..<numa_node] w;
     (_, w) \<leftarrow> call (Q_free (mutex_mem c)) w;
     Some w }"

definition bind_thread_to_core :: "int \<Rightarrow> nat \<Rightarrow> world \<Rightarrow> (int \<times> world) option" where
  "bind_thread_to_core thread core_id w = do {
     (ret, w) \<leftarrow> call (Q_library ''pthread_setaffinity_np'' [dec_nat core_id]) w;
     Some (if ret \<noteq> 0 then TC_PRAMA_ERR else 0, w) }"

text \<open>
  Creating and binding the threads: the status, \<open>tc_core_threads\<close> (zero where no thread was
  created), and the cores that the code after the loop has to cancel, in its order. An error number
  is positive.
\<close>

fun create_threads ::
  "bool list \<Rightarrow> nat list \<Rightarrow> int list \<Rightarrow> world \<Rightarrow> (int \<times> int list \<times> nat list \<times> world) option" where
  "create_threads bl [] tids w = Some (0, tids, [], w)"
| "create_threads bl (i # is) tids w = do {
     (inv, w) \<leftarrow> is_core_invalid bl i w;
     if inv then create_threads bl is tids w
     else do {
       (t, w) \<leftarrow> call (Q_thread_create ''tc_ring_one_thread_entry'') w;
       if t < 0 then Some (max 1 (errno w), tids, rev [0..<i], w)
       else do {
         let tids = tids[i := t];
         (ret, w) \<leftarrow> bind_thread_to_core t i w;
         if ret \<noteq> 0 then Some (ret, tids, i # rev [0..<i], w) else create_threads bl is tids w } } }"

fun join_all :: "bool \<Rightarrow> bool list \<Rightarrow> int list \<Rightarrow> nat list \<Rightarrow> world \<Rightarrow> world option" where
  "join_all cancel bl tids [] w = Some w"
| "join_all cancel bl tids (i # is) w = do {
     (inv, w) \<leftarrow> is_core_invalid bl i w;
     if inv then join_all cancel bl tids is w
     else do {
       w \<leftarrow> (if cancel then do { (_, w) \<leftarrow> call (Q_thread_cancel (tids ! i)) w; Some w } else Some w);
       (_, w) \<leftarrow> call (Q_thread_join (tids ! i)) w;
       join_all cancel bl tids is w } }"

text \<open>\<open>errors\<close> is \<open>err_flag\<close> when the threads have been joined.\<close>

definition tc_ring_one_exec ::
  "nat set option \<Rightarrow> nat \<Rightarrow> bool list \<Rightarrow> nat \<Rightarrow> nat \<Rightarrow> nat \<Rightarrow> world \<Rightarrow> (int \<times> world) option" where
  "tc_ring_one_exec allowed mem_size black_list sys_core_total numa_node errors w = do {
     (ret, c, w) \<leftarrow> tc_ring_one_init allowed mem_size black_list sys_core_total numa_node w;
     case c of
       None \<Rightarrow> Some (ret, w)
     | Some c \<Rightarrow> do {
         (ret, tids, failed, w) \<leftarrow>
           create_threads black_list [0..<sys_core_total] (replicate sys_core_total 0) w;
         (ret, w) \<leftarrow>
           (if ret \<noteq> 0 then do { w \<leftarrow> join_all True black_list tids failed w; Some (ret, w) }
            else do {
              w \<leftarrow> join_all False black_list tids [0..<sys_core_total] w;
              Some (if 0 < errors then TC_FAIL else TC_SUCCESS, w) });
         w \<leftarrow> tc_ring_one_release numa_node c w;
         (_, w) \<leftarrow> call (Q_free (threads_mem c)) w;
         Some (ret, w) } }"

definition tc_ring_one_execute_panic :: "world \<Rightarrow> world option" where
  "tc_ring_one_execute_panic w = do {
     (file, w) \<leftarrow> call (Q_fopen ''/proc/sysrq-trigger'' ''w'') w;
     if file < 0 then Some w
     else do {
       (_, w) \<leftarrow> call (Q_library ''fwrite'' [''c'']) w;
       (_, w) \<leftarrow> call (Q_fclose file) w;
       Some w } }"

definition tc_ring_one_post_process ::
  "(json \<Rightarrow> string) \<Rightarrow> nat \<Rightarrow> int \<Rightarrow> world \<Rightarrow> world option" where
  "tc_ring_one_post_process J err_handle result w =
     (if result = TC_SUCCESS then Some w
      else if result = TC_FAIL then
        (if err_handle = 0 then Some w
         else if err_handle = 2 then do { (_, w) \<leftarrow> call (Q_library ''reboot'' [''RB_POWER_OFF'']) w; Some w }
         else if err_handle = 3 then do { (_, w) \<leftarrow> call (Q_library ''reboot'' [''RB_AUTOBOOT'']) w; Some w }
         else tc_ring_one_execute_panic w)
      else soc_ring_sentry_report J 2 ''The system can not run the tc_ring_one testcase'' w)"

definition tc_ring_one_main ::
  "(json \<Rightarrow> string) \<Rightarrow> nat set option \<Rightarrow> nat \<Rightarrow> nat \<Rightarrow> nat \<Rightarrow> bool list \<Rightarrow> nat \<Rightarrow> nat \<Rightarrow> world
     \<Rightarrow> (int \<times> world) option" where
  "tc_ring_one_main J allowed numa_node mem_size err_handle blacklist core_num errors w = do {
     (ret, w) \<leftarrow> tc_ring_one_exec allowed mem_size blacklist core_num numa_node errors w;
     w \<leftarrow> tc_ring_one_post_process J err_handle ret w;
     Some (ret, w) }"

section \<open>What the test space holds\<close>

text \<open>The space between two tests, and while bit \<open>b\<close> is under test.\<close>

definition clean :: "nat \<Rightarrow> u64 list \<Rightarrow> bool" where
  "clean sz sp \<longleftrightarrow> length sp = sz div 8 \<and> (\<forall>i < length sp. sp ! i = (if i mod 16 < 8 then - 1 else 0))"

definition marked :: "nat \<Rightarrow> nat \<Rightarrow> u64 list \<Rightarrow> bool" where
  "marked sz b sp \<longleftrightarrow> length sp = sz div 8 \<and>
     (\<forall>i < length sp. sp ! i = (if i mod 16 < 8 then - 1 else if i mod 16 = 8 + b div 64 then dat_pattern b else 0))"

lemma set_offsets: "sz mod st = 0 \<Longrightarrow> 0 < st \<Longrightarrow> set (offsets st sz) = (\<lambda>k. k * st) ` {..<sz div st}"
proof -
  assume a: "sz mod st = 0" "0 < st"
  then obtain n where n: "sz = n * st" by (metis div_mult_mod_eq add.right_neutral)
  have "n * st + st - 1 = st - 1 + n * st" using a(2) by simp
  then have "(n * st + st - 1) div st = (st - 1 + n * st) div st" by (rule arg_cong)
  also have "\<dots> = n" by (subst div_mult_self1) (use a(2) in simp_all)
  finally have "(sz + st - 1) div st = sz div st" using n a(2) by simp
  then show ?thesis by (auto simp: offsets_def)
qed

lemma foldl_update_length [simp]: "length (foldl (\<lambda>s i. s[f i := v i]) sp xs) = length sp"
  by (induction xs arbitrary: sp) auto

lemma foldl_update_nth:
  "j < length sp \<Longrightarrow> foldl (\<lambda>s i. s[f i := v]) sp xs ! j = (if j \<in> f ` set xs then v else sp ! j)"
  by (induction xs arbitrary: sp) (auto simp: nth_list_update)

lemma test_words:
  assumes "sz mod 128 = 0" and "b < 512" and "j < sz div 8"
  shows "j \<in> (\<lambda>i. (i + word_offset b + CACHELINE_SIZE) div 8) ` set (offsets DATA_UNIT sz) \<longleftrightarrow> j mod 16 = 8 + b div 64"
proof -
  have b: "b div 64 < 8" using assms(2) by simp
  have e: "(k * 128 + word_offset b + 64) div 8 = 16 * k + (8 + b div 64)" for k
    by (simp add: word_offset_def)
  show ?thesis
  proof
    assume "j \<in> (\<lambda>i. (i + word_offset b + CACHELINE_SIZE) div 8) ` set (offsets DATA_UNIT sz)"
    then obtain k where "j = 16 * k + (8 + b div 64)"
      using assms(1) by (auto simp: set_offsets e)
    then show "j mod 16 = 8 + b div 64" using b by simp
  next
    assume m: "j mod 16 = 8 + b div 64"
    obtain n where n: "sz = 128 * n" using assms(1) by (metis mod_0_imp_dvd dvdE)
    with assms(3) have "j div 16 < sz div 128" by (simp add: div_less_iff_less_mult)
    moreover have "j = 16 * (j div 16) + (8 + b div 64)" using m by (metis mult_div_mod_eq)
    ultimately show "j \<in> (\<lambda>i. (i + word_offset b + CACHELINE_SIZE) div 8) ` set (offsets DATA_UNIT sz)"
      using assms(1) by (auto simp: set_offsets image_iff e intro!: bexI[of _ "j div 16"])
  qed
qed

lemma init_marks: "clean sz sp \<Longrightarrow> sz mod 128 = 0 \<Longrightarrow> b < 512 \<Longrightarrow> marked sz b (tc_ring_one_init_data_pattern sz b sp)"
  by (auto simp: marked_def clean_def tc_ring_one_init_data_pattern_def foldl_update_nth test_words)

lemma clear_cleans: "marked sz b sp \<Longrightarrow> sz mod 128 = 0 \<Longrightarrow> b < 512 \<Longrightarrow> clean sz (tc_ring_one_data_clear sz b sp)"
  by (auto simp: marked_def clean_def tc_ring_one_data_clear_def foldl_update_nth test_words)

lemma clean_unique: "clean sz sp \<Longrightarrow> clean sz sp' \<Longrightarrow> sp = sp'"
  by (auto simp: clean_def intro: nth_equalityI)

lemma copy_words_fold:
  "n \<le> length src \<Longrightarrow> j < length sp \<Longrightarrow>
   foldl (\<lambda>s k. s[a + k := src ! k]) sp [0..<n] ! j = (if a \<le> j \<and> j < a + n then src ! (j - a) else sp ! j)"
proof (induction n)
  case (Suc n)
  then show ?case by (cases "j = a + n") auto
qed auto

lemma copy_words_nth:
  "j < length sp \<Longrightarrow> copy_words src i sp ! j =
     (if i div 8 \<le> j \<and> j < i div 8 + length src then src ! (j - i div 8) else sp ! j)"
  by (simp add: copy_words_def copy_words_fold)

lemma copy_words_length [simp]: "length (copy_words src i sp) = length sp"
  by (simp add: copy_words_def)

lemma pattern_nth: "k < 16 \<Longrightarrow> tc_ring_one_pattern ! k = (if k < 8 then - 1 else 0)"
  by (simp add: tc_ring_one_pattern_def nth_append)

lemma space_init_fold:
  "j < length sp \<Longrightarrow> foldl (\<lambda>s i. copy_words tc_ring_one_pattern i s) sp (map (\<lambda>k. k * 128) ks) ! j =
     (if j div 16 \<in> set ks then (if j mod 16 < 8 then - 1 else 0) else sp ! j)"
proof (induction ks arbitrary: sp)
  case (Cons k ks)
  have len: "length tc_ring_one_pattern = 16" by (simp add: tc_ring_one_pattern_def)
  have k: "k * 128 div 8 = 16 * k" by simp
  have "16 * k \<le> j \<and> j < 16 * k + 16 \<longleftrightarrow> j div 16 = k" by auto
  moreover have "j div 16 = k \<Longrightarrow> j - 16 * k = j mod 16" by (metis minus_mult_div_eq_mod)
  ultimately have "copy_words tc_ring_one_pattern (k * 128) sp ! j =
      (if j div 16 = k then (if j mod 16 < 8 then - 1 else 0) else sp ! j)"
    using Cons.prems by (simp only: copy_words_nth len k) (simp add: pattern_nth)
  with Cons show ?case by simp
qed simp

lemma space_init_clean:
  assumes "length sp = sz div 8" and "sz mod 128 = 0"
  shows "clean sz (tc_ring_one_space_init sz sp)"
proof -
  obtain n where n: "sz = 128 * n" using assms(2) by (metis mod_0_imp_dvd dvdE)
  have len: "length (foldl (\<lambda>s i. copy_words tc_ring_one_pattern i s) sp xs) = length sp" for xs
    by (induction xs arbitrary: sp) simp_all
  have "(sz + 128 - 1) div 128 = n" using n by simp
  then have o: "offsets 128 sz = map (\<lambda>k. k * 128) [0..<n]" by (simp add: offsets_def)
  have "j div 16 < n" if "j < length sp" for j using that assms(1) n by (simp add: div_less_iff_less_mult)
  then show ?thesis
    using assms(1) unfolding clean_def tc_ring_one_space_init_def o len
    by (auto simp: space_init_fold)
qed

section \<open>The phases of a test\<close>

definition nodes_of :: "(nat \<Rightarrow> int) \<Rightarrow> nat list \<Rightarrow> nat set" where
  "nodes_of node_of cores = {nat (node_of c) |c. c \<in> set cores \<and> 0 \<le> node_of c}"

text \<open>One writing phase: every node of the threads in the list is rewritten exactly once.\<close>

lemma update_phase:
  fixes nd :: "nat \<Rightarrow> int" and sz :: nat and cores :: "nat list"
  assumes "\<forall>n. node_update_flag s n = (if n \<in> N then 1 else 0)"
  defines "s' \<equiv> foldl (testspace_update nd sz) s cores" and "M \<equiv> nodes_of nd cores - N"
  shows "test_space s' n = (if n \<in> M then tc_ring_one_init_data_pattern sz (scan_bit s) (test_space s n)
           else test_space s n) \<and>
     node_update_flag s' n = (if n \<in> M then 1 else node_update_flag s n) \<and>
     scan_bit s' = scan_bit s \<and> err_flag s' = err_flag s \<and>
     count_list (space_writes s') n = count_list (space_writes s) n + of_bool (n \<in> M)"
  using assms(1) unfolding s'_def M_def
proof (induction cores arbitrary: s N)
  case Nil
  show ?case by (simp add: nodes_of_def)
next
  case (Cons c cores)
  show ?case
  proof (cases "0 \<le> nd c \<and> nat (nd c) \<notin> N")
    case False
    then have "testspace_update nd sz s c = s" using Cons.prems by (auto simp: testspace_update_def)
    moreover have "nodes_of nd (c # cores) - N = nodes_of nd cores - N" using False by (auto simp: nodes_of_def)
    ultimately show ?thesis using Cons.IH[OF Cons.prems] by simp
  next
    case True
    let ?n = "nat (nd c)" and ?s = "testspace_update nd sz s c"
    have e: "?s = s\<lparr>test_space := (test_space s)(?n := tc_ring_one_init_data_pattern sz (scan_bit s) (test_space s ?n)),
          node_update_flag := (node_update_flag s)(?n := 1), space_writes := space_writes s @ [?n]\<rparr>"
      using True Cons.prems by (simp add: testspace_update_def Let_def)
    have N: "\<forall>n. node_update_flag ?s n = (if n \<in> insert ?n N then 1 else 0)" using Cons.prems by (simp add: e)
    have M: "nodes_of nd (c # cores) - N = insert ?n (nodes_of nd cores - insert ?n N)"
      using True by (auto simp: nodes_of_def)
    show ?thesis
      using Cons.IH[OF N] unfolding M foldl_Cons by (cases "n = ?n") (simp_all add: e)
  qed
qed

lemma recover_phase:
  fixes nd :: "nat \<Rightarrow> int" and sz :: nat and cores :: "nat list"
  assumes "\<forall>n. node_update_flag s n = (if n \<in> N then 1 else 0)"
  defines "s' \<equiv> foldl (testspace_recover nd sz) s cores" and "M \<equiv> nodes_of nd cores \<inter> N"
  shows "test_space s' n = (if n \<in> M then tc_ring_one_data_clear sz (scan_bit s) (test_space s n)
           else test_space s n) \<and>
     node_update_flag s' n = (if n \<in> M then 0 else node_update_flag s n) \<and>
     scan_bit s' = scan_bit s \<and> err_flag s' = err_flag s \<and>
     count_list (space_writes s') n = count_list (space_writes s) n + of_bool (n \<in> M)"
  using assms(1) unfolding s'_def M_def
proof (induction cores arbitrary: s N)
  case Nil
  show ?case by (simp add: nodes_of_def)
next
  case (Cons c cores)
  show ?case
  proof (cases "0 \<le> nd c \<and> nat (nd c) \<in> N")
    case False
    then have "testspace_recover nd sz s c = s" using Cons.prems by (auto simp: testspace_recover_def)
    moreover have "nodes_of nd (c # cores) \<inter> N = nodes_of nd cores \<inter> N" using False by (auto simp: nodes_of_def)
    ultimately show ?thesis using Cons.IH[OF Cons.prems] by simp
  next
    case True
    let ?n = "nat (nd c)" and ?s = "testspace_recover nd sz s c"
    have e: "?s = s\<lparr>test_space := (test_space s)(?n := tc_ring_one_data_clear sz (scan_bit s) (test_space s ?n)),
          node_update_flag := (node_update_flag s)(?n := 0), space_writes := space_writes s @ [?n]\<rparr>"
      using True Cons.prems by (simp add: testspace_recover_def Let_def)
    have N: "\<forall>n. node_update_flag ?s n = (if n \<in> N - {?n} then 1 else 0)" using Cons.prems by (simp add: e)
    have M: "nodes_of nd (c # cores) \<inter> N = insert ?n (nodes_of nd cores \<inter> (N - {?n}))"
      using True by (auto simp: nodes_of_def)
    show ?thesis
      using Cons.IH[OF N] unfolding M foldl_Cons by (cases "n = ?n") (simp_all add: e)
  qed
qed

text \<open>The scanning phase only counts the threads whose reads were wrong.\<close>

lemma scan_phase:
  "foldl (tc_ring_one_scan_bit nd sz reads) s cores =
   s\<lparr>err_flag := err_flag s + length [c \<leftarrow> cores. 0 \<le> nd c \<and>
       \<not> scan_passes (\<lambda>k j. reads c k j (test_space s (nat (nd c)))) sz (scan_bit s)]\<rparr>"
proof (induction cores arbitrary: s)
  case (Cons c cores)
  show ?case unfolding foldl_Cons Cons.IH by (simp add: tc_ring_one_scan_bit_def)
qed simp

section \<open>A test\<close>

text \<open>A thread's reads match when every word it compares is what the space holds.\<close>

definition reads_match :: "(nat \<Rightarrow> nat \<Rightarrow> u64 list \<Rightarrow> u64 list) \<Rightarrow> nat \<Rightarrow> nat \<Rightarrow> u64 list \<Rightarrow> bool" where
  "reads_match rd sz b sp \<longleftrightarrow> (\<forall>k < RD_LOOP. \<forall>j < sz div 128.
     rd k (j div 512 * BLOCK_SIZE) sp ! (16 * j + b div 64) = sp ! (16 * j + b div 64) \<and>
     rd k (j div 512 * BLOCK_SIZE) sp ! (16 * j + 8 + b div 64) = sp ! (16 * j + 8 + b div 64))"

lemma block_index: "((m::nat) < q * 512) \<longleftrightarrow> m div 512 < q" by (simp add: div_less_iff_less_mult)

lemma scan_passes_iff:
  assumes "marked sz b sp" and "b < 512" and "sz mod BLOCK_SIZE = 0"
  shows "scan_passes (\<lambda>k j. rd k j sp) sz b \<longleftrightarrow> reads_match rd sz b sp"
proof -
  obtain q where q: "sz = q * BLOCK_SIZE" using assms(3) by (metis mod_0_imp_dvd dvdE mult.commute)
  have o: "offsets BLOCK_SIZE sz = map (\<lambda>k. k * BLOCK_SIZE) [0..<q]"
  proof -
    have "sz + BLOCK_SIZE - 1 = BLOCK_SIZE - 1 + q * BLOCK_SIZE" using q by simp
    then have "(sz + BLOCK_SIZE - 1) div BLOCK_SIZE = q" by simp
    then show ?thesis by (simp add: offsets_def)
  qed
  have u: "offsets DATA_UNIT BLOCK_SIZE = map (\<lambda>k. k * 128) [0..<512]" by (simp add: offsets_def)
  have b: "b div 64 < 8" using assms(2) by simp
  have w0: "(t * BLOCK_SIZE + i * 128 + word_offset b) div 8 = 16 * (t * 512 + i) + b div 64"
    and w1: "(t * BLOCK_SIZE + i * 128 + CACHELINE_SIZE + word_offset b) div 8 = 16 * (t * 512 + i) + 8 + b div 64" for t i
    by (simp_all add: word_offset_def)
  have sp: "sp ! (16 * j + b div 64) = - 1 \<and> sp ! (16 * j + 8 + b div 64) = dat_pattern b" if "j < sz div 128" for j
  proof -
    have "16 * j + 8 + b div 64 < length sp" "16 * j + b div 64 < length sp"
      using that b assms(1) q by (auto simp: marked_def)
    moreover have m: "(16 * j + y) mod 16 = y" if "y < 16" for y using that by simp
    moreover have "(16 * j + b div 64) mod 16 = b div 64" "(16 * j + 8 + b div 64) mod 16 = 8 + b div 64"
      using b m[of "b div 64"] m[of "8 + b div 64"] by (simp_all add: add.assoc)
    ultimately show ?thesis using assms(1) b by (simp add: marked_def)
  qed
  have split: "(\<forall>t < q. \<forall>i < 512. Q t (t * 512 + i)) \<longleftrightarrow> (\<forall>j < sz div 128. Q (j div 512) j)" for Q
  proof
    assume l: "\<forall>t < q. \<forall>i < 512. Q t (t * 512 + i)"
    show "\<forall>j < sz div 128. Q (j div 512) j"
    proof (intro allI impI)
      fix j assume "j < sz div 128"
      then have "j div 512 < q" "j mod 512 < 512" using q by (auto simp: div_less_iff_less_mult)
      with l have "Q (j div 512) (j div 512 * 512 + j mod 512)" by blast
      then show "Q (j div 512) j" by simp
    qed
  next
    assume r: "\<forall>j < sz div 128. Q (j div 512) j"
    show "\<forall>t < q. \<forall>i < 512. Q t (t * 512 + i)"
    proof (intro allI impI)
      fix t i :: nat assume t: "t < q" "i < 512"
      then have "(t * 512 + i) div 512 = t" by simp
      moreover have "t * 512 + i < sz div 128" 
      proof -
        have "sz div 128 = q * 512" using q by simp
        with t show ?thesis by linarith
      qed
      ultimately show "Q t (t * 512 + i)" using r by metis
    qed
  qed
  have "scan_passes (\<lambda>k j. rd k j sp) sz b \<longleftrightarrow> (\<forall>k < RD_LOOP. \<forall>t < q. \<forall>i < 512.
      rd k (t * BLOCK_SIZE) sp ! (16 * (t * 512 + i) + b div 64) = - 1 \<and>
      rd k (t * BLOCK_SIZE) sp ! (16 * (t * 512 + i) + 8 + b div 64) = dat_pattern b)"
    unfolding scan_passes_def tc_ring_one_scan_test_block_def o u list_all_iff set_map set_upt ball_simps w0 w1
    by (simp add: Ball_def)
  also have "\<dots> \<longleftrightarrow> (\<forall>k < RD_LOOP. \<forall>j < sz div 128.
      rd k (j div 512 * BLOCK_SIZE) sp ! (16 * j + b div 64) = - 1 \<and>
      rd k (j div 512 * BLOCK_SIZE) sp ! (16 * j + 8 + b div 64) = dat_pattern b)"
    by (simp only: split[of "\<lambda>t j. rd k (t * BLOCK_SIZE) sp ! (16 * j + b div 64) = - 1 \<and>
      rd k (t * BLOCK_SIZE) sp ! (16 * j + 8 + b div 64) = dat_pattern b" for k])
  also have "\<dots> \<longleftrightarrow> reads_match rd sz b sp" unfolding reads_match_def using sp by simp
  finally show ?thesis .
qed

lemma scan_phase_flag:
  "err_flag (foldl (tc_ring_one_scan_bit nd sz reads) s cores) = 0 \<longleftrightarrow>
   err_flag s = 0 \<and> (\<forall>c \<in> set cores. 0 \<le> nd c \<longrightarrow>
     scan_passes (\<lambda>k j. reads c k j (test_space s (nat (nd c)))) sz (scan_bit s))"
  by (auto simp: scan_phase filter_empty_conv)

lemma nodes_of_simps [simp]:
  "nodes_of nd [] = {}"
  "nodes_of nd (c # cs) = (if 0 \<le> nd c then insert (nat (nd c)) (nodes_of nd cs) else nodes_of nd cs)"
  by (auto simp: nodes_of_def)

lemma test_issue_spec:
  assumes test: "tc_ring_one_test_issue nd sz reads order_u order_s order_r s = (go, s')"
    and threads: "set order_u = set order_r"
    and sz: "sz mod BLOCK_SIZE = 0" and bit: "scan_bit s < 512"
    and clean: "\<forall>n \<in> nodes_of nd order_r. clean sz (test_space s n)"
    and flags: "\<forall>n. node_update_flag s n = 0"
    and scanned: "nodes_of nd order_s \<subseteq> nodes_of nd order_r"
  shows "test_space s' = test_space s \<and> (\<forall>n. node_update_flag s' n = 0) \<and>
    (\<forall>n. count_list (space_writes s') n =
         count_list (space_writes s) n + (if n \<in> nodes_of nd order_r then 2 else 0)) \<and>
    (go \<longleftrightarrow> err_flag s = 0 \<and> (\<forall>c \<in> set order_s. 0 \<le> nd c \<longrightarrow>
       reads_match (reads c) sz (scan_bit s)
         (tc_ring_one_init_data_pattern sz (scan_bit s) (test_space s (nat (nd c))))))"
proof -
  let ?N = "nodes_of nd order_r"
  let ?m = "\<lambda>n. tc_ring_one_init_data_pattern sz (scan_bit s) (test_space s n)"
  define u where "u = foldl (testspace_update nd sz) s order_u"
  define c where "c = foldl (tc_ring_one_scan_bit nd sz reads) u order_s"
  define r where "r = foldl (testspace_recover nd sz) c order_r"
  have t: "go = (err_flag r = 0)" "s' = r"
    using test unfolding tc_ring_one_test_issue_def Let_def u_def c_def r_def by auto
  have N: "nodes_of nd order_u = ?N" using threads by (simp add: nodes_of_def)
  have "128 dvd BLOCK_SIZE" by simp
  then have sz': "sz mod 128 = 0" using sz dvd_trans unfolding mod_eq_0_iff_dvd by blast
  have u: "test_space u n = (if n \<in> ?N then ?m n else test_space s n)"
      "node_update_flag u n = (if n \<in> ?N then 1 else 0)" "scan_bit u = scan_bit s" "err_flag u = err_flag s"
      "count_list (space_writes u) n = count_list (space_writes s) n + of_bool (n \<in> ?N)" for n
    using update_phase[of s "{}" nd sz order_u n] flags unfolding u_def N by simp_all
  have c: "test_space c = test_space u" "node_update_flag c = node_update_flag u" "scan_bit c = scan_bit u"
      "space_writes c = space_writes u"
    unfolding c_def scan_phase by simp_all
  have r: "test_space r n = (if n \<in> ?N then tc_ring_one_data_clear sz (scan_bit s) (?m n) else test_space s n)"
      "node_update_flag r n = 0" "err_flag r = err_flag c"
      "count_list (space_writes r) n = count_list (space_writes u) n + of_bool (n \<in> ?N)" for n
    using recover_phase[of c ?N nd sz order_r n] u unfolding r_def c by simp_all
  have m: "marked sz (scan_bit s) (?m n)" if "n \<in> ?N" for n
    using clean that bit sz' by (simp add: init_marks)
  have "tc_ring_one_data_clear sz (scan_bit s) (?m n) = test_space s n" if "n \<in> ?N" for n
    using clean_unique clear_cleans[OF m[OF that] sz' bit] clean that by blast
  then have "test_space r n = test_space s n" for n unfolding r(1) by simp
  then have "test_space s' = test_space s" unfolding t by blast
  moreover have "err_flag c = 0 \<longleftrightarrow> err_flag s = 0 \<and> (\<forall>x \<in> set order_s. 0 \<le> nd x \<longrightarrow>
       reads_match (reads x) sz (scan_bit s) (?m (nat (nd x))))"
  proof -
    have "scan_passes (\<lambda>k j. reads x k j (test_space u (nat (nd x)))) sz (scan_bit u) \<longleftrightarrow>
        reads_match (reads x) sz (scan_bit s) (?m (nat (nd x)))" if "x \<in> set order_s" "0 \<le> nd x" for x
    proof -
      have "nat (nd x) \<in> ?N" using scanned that by (auto simp: nodes_of_def)
      then show ?thesis using scan_passes_iff[OF m bit sz] by (simp add: u)
    qed
    then show ?thesis unfolding c_def scan_phase_flag u(4) by blast
  qed
  ultimately show ?thesis using r u(5) unfolding t by auto
qed



text \<open>One node, one thread: bit 0 of the space of 64 KiB.\<close>

definition demo_ring :: ring_state where
  "demo_ring = \<lparr>test_space = (\<lambda>_. tc_ring_one_space_init 65536 (replicate 8192 7)), node_update_flag = (\<lambda>_. 0),
     err_flag = 0, scan_bit = 3, space_writes = []\<rparr>"

lemma demo_clean: "clean 65536 (test_space demo_ring n)"
  unfolding demo_ring_def ring_state.simps by (rule space_init_clean) simp_all


lemma special_bits_less: "special_bits ! (k mod 8) < 512"
proof -
  have "special_bits ! (k mod 8) \<in> set special_bits" by (rule nth_mem) (simp add: special_bits_def)
  then show ?thesis by (auto simp: special_bits_def)
qed

text \<open>On memory that gives back what was written to it every test passes.\<close>

definition good_state :: "nat \<Rightarrow> (nat \<Rightarrow> int) \<Rightarrow> nat list \<Rightarrow> ring_state \<Rightarrow> bool" where
  "good_state sz nd cores s \<longleftrightarrow> err_flag s = 0 \<and> (\<forall>n. node_update_flag s n = 0) \<and>
     (\<forall>n \<in> nodes_of nd cores. clean sz (test_space s n))"

lemma err_flag_issue:
  "tc_ring_one_test_issue nd sz reads order_u order_s order_r s = (go, s') \<Longrightarrow> go \<longleftrightarrow> err_flag s' = 0"
  by (auto simp: tc_ring_one_test_issue_def Let_def)

lemma good_test:
  assumes "good_state sz nd cores s" and "scan_bit s < 512" and "sz mod BLOCK_SIZE = 0"
    and "tc_ring_one_test_issue nd sz (\<lambda>_ _ _ sp. sp) cores cores cores s = (go, s')"
  shows "go \<and> good_state sz nd cores s' \<and> test_space s' = test_space s"
  using test_issue_spec[OF assms(4) refl assms(3,2)] assms(1) err_flag_issue[OF assms(4)]
  by (simp add: good_state_def reads_match_def)

lemma good_scan_bit [simp]: "good_state sz nd cores (s\<lparr>scan_bit := b\<rparr>) = good_state sz nd cores s"
  by (simp add: good_state_def)

lemma good_ring_loop:
  assumes "sz mod BLOCK_SIZE = 0" and "0 < limit"
  shows "limit - count < m \<Longrightarrow> seq < 512 \<Longrightarrow> good_state sz nd cores s \<Longrightarrow>
    \<exists>s'. ring_loop nd sz (\<lambda>_ _ _ sp. sp) cores rnd limit seq count s = Some s' \<and>
      err_flag s' = 0 \<and> test_space s' = test_space s"
proof (induction m arbitrary: count seq s)
  case (Suc m)
  obtain g1 s1 where 1: "tc_ring_one_test_issue nd sz (\<lambda>_ _ _ sp. sp) cores cores cores (s\<lparr>scan_bit := seq\<rparr>) = (g1, s1)"
    by force
  let ?b = "special_bits ! (rnd count mod 8)"
  obtain g2 s2 where 2: "tc_ring_one_test_issue nd sz (\<lambda>_ _ _ sp. sp) cores cores cores (s1\<lparr>scan_bit := ?b\<rparr>) = (g2, s2)"
    by force
  have g1: "g1" "good_state sz nd cores s1" "test_space s1 = test_space s"
    using good_test[OF _ _ assms(1) 1] Suc.prems by simp_all
  have g2: "g2" "good_state sz nd cores s2" "test_space s2 = test_space s"
    using good_test[OF _ _ assms(1) 2] g1 special_bits_less by simp_all
  have e: "err_flag s = 0" "err_flag s2 = 0" using Suc.prems g2 by (simp_all add: good_state_def)
  show ?case
  proof (cases "limit \<le> count + 1")
    case True
    then show ?thesis using assms(2) e g1 g2 by (subst ring_loop.simps) (simp add: 1 2)
  next
    case False
    then have "limit - (count + 1) < m" using Suc.prems by simp
    from Suc.IH[OF this _ g2(2), of "(seq + 1) mod 512"] show ?thesis
      using False assms(2) e g1 g2 by (subst ring_loop.simps) (simp add: 1 2)
  qed
qed simp




section \<open>Resources of the ring test\<close>

text \<open>The rules give each operation's effect on the balance.\<close>

lemma is_cpu_online_returns:
  "balance w = b \<Longrightarrow> returns (is_cpu_online i w) (\<lambda>(r, v). balance v = b)"
  unfolding is_cpu_online_def by (intro ret_intros) (auto simp: fun_eq_iff req_delta_def)

lemmas is_cpu_online_intros = is_cpu_online_returns[OF refl, THEN returns_mono, unfolded split_paired_all split_conv]

lemma is_core_invalid_returns:
  "balance w = b \<Longrightarrow> returns (is_core_invalid bl i w) (\<lambda>(r, v). balance v = b)"
  unfolding is_core_invalid_def by (intro is_cpu_online_intros ret_intros) (auto simp: fun_eq_iff)

lemmas is_core_invalid_intros = is_core_invalid_returns[OF refl, THEN returns_mono, unfolded split_paired_all split_conv]

lemma count_valid_returns:
  "balance w = b \<Longrightarrow> returns (count_valid bl is n w) (\<lambda>(r, v). balance v = b)"
  by (induction "is" arbitrary: n w) (auto intro!: is_core_invalid_intros ret_intros)

lemma mutex_inits_returns:
  "balance w = b \<Longrightarrow> returns (mutex_inits i n w) (\<lambda>(ok, k, v). balance v = b)"
  by (induction n arbitrary: i w) (auto intro!: ret_intros simp: fun_eq_iff)

lemma mutex_destroys_returns:
  "balance w = b \<Longrightarrow> returns (mutex_destroys is w) (\<lambda>v. balance v = b)"
  by (induction "is" arbitrary: w) (auto intro!: ret_intros simp: fun_eq_iff)

lemma alloc_other_returns:
  "balance w = b \<Longrightarrow> returns (alloc_other_nodes a pn sz ns w)
     (\<lambda>(p, v). balance v = (\<lambda>x. b x + (case p of None \<Rightarrow> 0 | Some q \<Rightarrow> of_bool (x = Mem q))) \<and>
        (\<forall>q. p = Some q \<longrightarrow> 0 \<le> q))"
  by (induction ns arbitrary: w) (auto intro!: ret_intros simp: fun_eq_iff req_delta_def)

lemmas alloc_other_intros = alloc_other_returns[OF refl, THEN returns_mono, unfolded split_paired_all split_conv]

lemma numa_alloc_returns:
  "balance w = b \<Longrightarrow> returns (numa_alloc_fallback al nn pn sz w)
     (\<lambda>(p, v). balance v = (\<lambda>x. b x + of_bool (0 \<le> p \<and> x = Mem p)))"
  unfolding numa_alloc_fallback_def
  by (intro alloc_other_intros ret_intros) (auto simp: req_delta_def fun_eq_iff)

lemmas numa_alloc_intros = numa_alloc_returns[OF refl, THEN returns_mono, unfolded split_paired_all split_conv]

text \<open>What a list of allocations adds.\<close>

definition holds_mem :: "int list \<Rightarrow> resource \<Rightarrow> int" where
  "holds_mem ps x = (\<Sum>p\<leftarrow>ps. of_bool (x = Mem p))"

lemma holds_mem_simps [simp]:
  "holds_mem [] x = 0" "holds_mem (p # ps) x = of_bool (x = Mem p) + holds_mem ps x"
  "holds_mem (ps @ qs) x = holds_mem ps x + holds_mem qs x" "holds_mem (rev ps) x = holds_mem ps x"
  by (simp_all add: holds_mem_def rev_map[symmetric] sum_list_rev)

lemma alloc_spaces_returns:
  "balance w = (\<lambda>x. b x + holds_mem ptrs x) \<Longrightarrow> returns (alloc_spaces al nn sz is ptrs w)
     (\<lambda>(ok, ps, v). balance v = (\<lambda>x. b x + holds_mem ps x))"
  by (induction "is" arbitrary: ptrs w) (auto intro!: numa_alloc_intros ret_intros simp: fun_eq_iff)

lemma alloc_spaces_intros:
  "(\<And>ok ps v. (\<forall>x. balance v x = balance w x + holds_mem ps x) \<Longrightarrow> P (ok, ps, v)) \<Longrightarrow>
   returns (alloc_spaces al nn sz is [] w) P"
  using alloc_spaces_returns[of w "balance w" "[]" al nn sz "is"] by (auto elim!: returns_mono simp: fun_eq_iff)

lemma free_all_returns:
  "balance w = (\<lambda>x. b x + holds_mem ps x) \<Longrightarrow> returns (free_all ps w) (\<lambda>v. balance v = b)"
proof (induction ps arbitrary: w)
  case (Cons p ps)
  show ?case unfolding free_all.simps
    by (intro ret_intros Cons.IH) (simp add: Cons.prems req_delta_def fun_eq_iff)
qed (simp add: returns_Some)

lemma free_all_intros:
  "(\<And>v. (\<forall>x. balance v x = balance w x - holds_mem ps x) \<Longrightarrow> P v) \<Longrightarrow> returns (free_all ps w) P"
  using free_all_returns[of w "\<lambda>x. balance w x - holds_mem ps x" ps] by (auto elim!: returns_mono simp: fun_eq_iff)

lemmas count_valid_intros = count_valid_returns[OF refl, THEN returns_mono, unfolded split_paired_all split_conv]
lemmas mutex_inits_intros = mutex_inits_returns[OF refl, THEN returns_mono, unfolded split_paired_all split_conv]
lemmas mutex_destroys_intros = mutex_destroys_returns[OF refl, THEN returns_mono]

lemma ctrl_var_init_returns:
  "balance w = b \<Longrightarrow> returns (tc_ring_one_ctrl_var_init bl cores nodes w)
     (\<lambda>(r, m, t, v). balance v = (if r = 0 then (\<lambda>x. b x + holds_mem [m, t] x) else b))"
  unfolding tc_ring_one_ctrl_var_init_def
  by (intro count_valid_intros mutex_inits_intros mutex_destroys_intros ret_intros)
     (auto simp: fun_eq_iff req_delta_def)

lemmas ctrl_var_init_intros = ctrl_var_init_returns[OF refl, THEN returns_mono, unfolded split_paired_all split_conv]

text \<open>Everything a configuration holds.\<close>

definition ring_mem :: "ring_config \<Rightarrow> int list" where
  "ring_mem c = test_space_base c @ [base_mem c, flag_mem c, mutex_mem c, threads_mem c]"

lemma tc_ring_one_init_returns:
  "balance w = b \<Longrightarrow> returns (tc_ring_one_init al sz bl cores nodes w)
     (\<lambda>(r, c, v). case c of None \<Rightarrow> r \<noteq> 0 \<and> balance v = b
        | Some c \<Rightarrow> r = 0 \<and> balance v = (\<lambda>x. b x + holds_mem (ring_mem c) x))"
  unfolding tc_ring_one_init_def
  by (intro ctrl_var_init_intros alloc_spaces_intros free_all_intros ret_intros)
     (auto simp: fun_eq_iff req_delta_def ring_mem_def)

lemma tc_ring_one_release_returns:
  "balance w = (\<lambda>x. b x + holds_mem (ring_mem c) x) \<Longrightarrow> returns (tc_ring_one_release nodes c w)
     (\<lambda>v. balance v = (\<lambda>x. b x + of_bool (x = Mem (threads_mem c))))"
  unfolding tc_ring_one_release_def
  by (intro free_all_intros mutex_destroys_intros ret_intros)
     (auto simp: fun_eq_iff req_delta_def ring_mem_def)

lemma create_threads_returns:
  "balance w = b \<Longrightarrow> returns (create_threads bl is tids w) (\<lambda>(r, ts, f, v). balance v = b)"
  by (induction "is" arbitrary: tids w)
     (auto intro!: is_core_invalid_intros ret_intros simp: fun_eq_iff bind_thread_to_core_def)

lemma join_all_returns:
  "balance w = b \<Longrightarrow> returns (join_all cancel bl tids is w) (\<lambda>v. balance v = b)"
  by (induction "is" arbitrary: w) (auto intro!: is_core_invalid_intros ret_intros simp: fun_eq_iff)

lemmas threads_intros = create_threads_returns[OF refl, THEN returns_mono, unfolded split_paired_all split_conv]
  join_all_returns[OF refl, THEN returns_mono]

lemma release_intros:
  "(\<And>v. (\<forall>x. balance v x = balance w x - holds_mem (ring_mem c) x + of_bool (x = Mem (threads_mem c))) \<Longrightarrow> P v) \<Longrightarrow>
   returns (tc_ring_one_release nodes c w) P"
  using tc_ring_one_release_returns[of w "\<lambda>x. balance w x - holds_mem (ring_mem c) x" c nodes]
  by (auto elim!: returns_mono simp: fun_eq_iff)

lemma tc_ring_one_exec_returns:
  "balance w = b \<Longrightarrow> returns (tc_ring_one_exec al sz bl cores nodes errs w)
     (\<lambda>(r, v). balance v = b \<and> (r = TC_SUCCESS \<longrightarrow> errs = 0))"
  unfolding tc_ring_one_exec_def
  by (intro tc_ring_one_init_returns[OF refl, THEN returns_mono, unfolded split_paired_all split_conv]
      release_intros threads_intros ret_intros)
     (auto simp: fun_eq_iff req_delta_def split: if_splits)

lemmas exec_intros = tc_ring_one_exec_returns[OF refl, THEN returns_mono, unfolded split_paired_all split_conv]

lemma soc_report_returns:
  "balance w = b \<Longrightarrow> returns (soc_ring_sentry_report J l d w) (\<lambda>v. balance v = b)"
  unfolding soc_ring_sentry_report_def
  by (intro report_result_returns[THEN returns_mono, unfolded split_paired_all split_conv] ret_intros) simp

lemmas soc_report_intros = soc_report_returns[OF refl, THEN returns_mono]

lemma post_process_returns:
  "balance w = b \<Longrightarrow> returns (tc_ring_one_post_process J h r w) (\<lambda>v. balance v = b)"
  unfolding tc_ring_one_post_process_def tc_ring_one_execute_panic_def
  by (intro soc_report_intros ret_intros) (auto simp: fun_eq_iff req_delta_def)

lemma tc_ring_one_main_returns:
  "balance w = b \<Longrightarrow> returns (tc_ring_one_main J al nodes sz h bl cores errs w)
     (\<lambda>(r, v). balance v = b \<and> (r = TC_SUCCESS \<longrightarrow> errs = 0))"
  unfolding tc_ring_one_main_def
  by (intro exec_intros post_process_returns[OF refl, THEN returns_mono] ret_intros) auto

end
