(* ===== verification/SocRing.thy ===== *)
theory SocRing
  imports TcRing
begin

text \<open>
  \<open>soc_ring_sentry/soc_ring_sentry.c\<close>: the configuration of the ring test from the environment
  and the program around it. The environment is a function from names to values; the parser of
  the cpu list is libnuma's, the argument \<open>numa_parse\<close>.
\<close>

abbreviation DEFAULT_INTENSITY_DELAY :: int where "DEFAULT_INTENSITY_DELAY \<equiv> 600"
abbreviation DEFAULT_HANDLE :: int where "DEFAULT_HANDLE \<equiv> 1"
abbreviation DEFAULT_LOOP_CNT :: int where "DEFAULT_LOOP_CNT \<equiv> 0"
abbreviation LIMITE_MEM_SIZE :: int where "LIMITE_MEM_SIZE \<equiv> 64"
abbreviation KB :: int where "KB \<equiv> 1024"
abbreviation DEFAULT_MEM_SIZE :: int where "DEFAULT_MEM_SIZE \<equiv> 4194304"
abbreviation UINT64_MAX :: int where "UINT64_MAX \<equiv> 18446744073709551615"
abbreviation HANDLE_LEVEL_INVALID :: int where "HANDLE_LEVEL_INVALID \<equiv> 4"

type_synonym environment = "string \<Rightarrow> string option"

record ring_globals =
  g_intensity_delay :: int
  g_handle :: int
  g_mem_size :: int
  g_loop_cnt :: int
  g_blacklist :: "bool list option"
  blacklist_mem :: int

text \<open>The value when the text is accepted.\<close>

definition soc_ring_sentry_envtoull :: "string option \<Rightarrow> int option" where
  "soc_ring_sentry_envtoull env = (case env of
      None \<Rightarrow> None
    | Some s \<Rightarrow>
        if s \<noteq> [] \<and> hd s = CHR ''-'' then None
        else
          let (v, endptr, erange) = strtoull s in
          if \<not> erange \<and> length endptr \<noteq> length s \<and> dropWhile is_space endptr = [] then Some v else None)"

definition soc_ring_sentry_intensity_delay_init :: "environment \<Rightarrow> ring_globals \<Rightarrow> ring_globals" where
  "soc_ring_sentry_intensity_delay_init env g =
     (let g = g\<lparr>g_intensity_delay := DEFAULT_INTENSITY_DELAY\<rparr> in
      case soc_ring_sentry_envtoull (env ''SOC_RING_SENTRY_INTENSITY_DELAY'') of
        Some v \<Rightarrow> g\<lparr>g_intensity_delay := v\<rparr> | None \<Rightarrow> g)"

definition soc_ring_sentry_handle_init :: "environment \<Rightarrow> ring_globals \<Rightarrow> ring_globals" where
  "soc_ring_sentry_handle_init env g =
     (let g = g\<lparr>g_handle := DEFAULT_HANDLE\<rparr> in
      case soc_ring_sentry_envtoull (env ''SOC_RING_SENTRY_FAULT_HANDLING'') of
        Some v \<Rightarrow> if v < HANDLE_LEVEL_INVALID then g\<lparr>g_handle := v\<rparr> else g | None \<Rightarrow> g)"

definition soc_ring_sentry_mem_size_init :: "environment \<Rightarrow> ring_globals \<Rightarrow> ring_globals" where
  "soc_ring_sentry_mem_size_init env g =
     (let g = g\<lparr>g_mem_size := DEFAULT_MEM_SIZE\<rparr> in
      case soc_ring_sentry_envtoull (env ''SOC_RING_SENTRY_MEM_SIZE'') of
        Some v \<Rightarrow>
          if v \<noteq> 0 \<and> v < UINT64_MAX div KB \<and> v mod LIMITE_MEM_SIZE = 0
          then g\<lparr>g_mem_size := to_u64 (v * KB)\<rparr> else g
      | None \<Rightarrow> g)"

definition soc_ring_sentry_loop_cnt_init :: "environment \<Rightarrow> ring_globals \<Rightarrow> ring_globals" where
  "soc_ring_sentry_loop_cnt_init env g =
     (let g = g\<lparr>g_loop_cnt := DEFAULT_LOOP_CNT\<rparr> in
      case soc_ring_sentry_envtoull (env ''SOC_RING_SENTRY_LOOP_CNT'') of
        Some v \<Rightarrow> g\<lparr>g_loop_cnt := v\<rparr> | None \<Rightarrow> g)"

text \<open>The text logged about the blacklist: cores are added while the buffer has room.\<close>

fun blacklist_text :: "nat \<Rightarrow> bool list \<Rightarrow> nat list \<Rightarrow> string \<Rightarrow> string" where
  "blacklist_text log_buf_len bl [] buf = buf"
| "blacklist_text log_buf_len bl (i # is) buf =
     (if bl ! i then
        let (t, n) = snprintf (log_buf_len - length buf) (dec_nat i @ '' '') in
        if n < 0 \<or> int (log_buf_len - length buf) \<le> n then buf @ t
        else blacklist_text log_buf_len bl is (buf @ t)
      else blacklist_text log_buf_len bl is buf)"

definition soc_ring_sentry_blacklist_init ::
  "(string \<Rightarrow> nat set option) \<Rightarrow> environment \<Rightarrow> nat \<Rightarrow> ring_globals \<Rightarrow> world \<Rightarrow> (ring_globals \<times> world) option" where
  "soc_ring_sentry_blacklist_init numa_parse env core_num g w = do {
     (m, w) \<leftarrow> call (Q_malloc core_num) w;
     if m < 0 then Some (g\<lparr>g_blacklist := None\<rparr>, w)
     else do {
       let g = g\<lparr>g_blacklist := Some (replicate core_num False), blacklist_mem := m\<rparr>;
       case env ''SOC_RING_SENTRY_BLACKLIST'' of
         None \<Rightarrow> Some (g, w)
       | Some s \<Rightarrow>
           if s = [] then Some (g, w)
           else (case numa_parse s of
               None \<Rightarrow> Some (g, w)
             | Some cpuset \<Rightarrow> do {
                 let bl = map (\<lambda>i. i \<in> cpuset) [0..<core_num];
                 let g = g\<lparr>g_blacklist := Some bl\<rparr>;
                 let log_buf_len = length ''blacklist cores: '' + core_num * 4 + 2;
                 (log_buf, w) \<leftarrow> call (Q_malloc log_buf_len) w;
                 if log_buf < 0 then Some (g, w)
                 else do {
                   let logged = blacklist_text log_buf_len bl [0..<core_num] ''blacklist cores: '';
                   (_, w) \<leftarrow> call (Q_free log_buf) w;
                   Some (g, w) } }) } }"

definition soc_ring_sentry_init ::
  "(string \<Rightarrow> nat set option) \<Rightarrow> environment \<Rightarrow> nat \<Rightarrow> ring_globals \<Rightarrow> world \<Rightarrow> (ring_globals \<times> world) option" where
  "soc_ring_sentry_init numa_parse env core_num g w =
     soc_ring_sentry_blacklist_init numa_parse env core_num
       (soc_ring_sentry_loop_cnt_init env (soc_ring_sentry_mem_size_init env
         (soc_ring_sentry_handle_init env (soc_ring_sentry_intensity_delay_init env g)))) w"

definition get_system_core_num :: "world \<Rightarrow> (nat \<times> world) option" where
  "get_system_core_num w = do {
     (n, w) \<leftarrow> call (Q_sysconf 83) w;
     Some (if 0 < n then nat n else 1, w) }"

text \<open>
  \<open>soc_ring_sentry_exec\<close>. A blacklist that could not be allocated is a null pointer, which
  \<open>is_core_invalid\<close> reads through; the empty list of the model has no slot to read.
\<close>

definition soc_ring_sentry_exec ::
  "(json \<Rightarrow> string) \<Rightarrow> (string \<Rightarrow> nat set option) \<Rightarrow> environment \<Rightarrow> nat set option \<Rightarrow> nat \<Rightarrow> nat
     \<Rightarrow> ring_globals \<Rightarrow> world \<Rightarrow> (int \<times> ring_globals \<times> world) option" where
  "soc_ring_sentry_exec J numa_parse env allowed numa_node errors g w = do {
     (core_num, w) \<leftarrow> get_system_core_num w;
     (g, w) \<leftarrow> soc_ring_sentry_init numa_parse env core_num g w;
     (ret, w) \<leftarrow> tc_ring_one_main J allowed numa_node (nat (g_mem_size g)) (nat (g_handle g))
                    (case g_blacklist g of Some b \<Rightarrow> b | None \<Rightarrow> []) core_num errors w;
     w \<leftarrow> (if ret = 0 then soc_ring_sentry_report J 0 ''SOC STL test pass'' w else Some w);
     (g, w) \<leftarrow> (case g_blacklist g of
         None \<Rightarrow> Some (g, w)
       | Some _ \<Rightarrow> do {
           (_, w) \<leftarrow> call (Q_free (blacklist_mem g)) w;
           Some (g\<lparr>g_blacklist := None\<rparr>, w) });
     Some (ret, g, w) }"

text \<open>\<open>main\<close>: the arguments after the program name, the first option \<open>getopt\<close> returns.\<close>

definition soc_ring_main ::
  "nat \<Rightarrow> char option \<Rightarrow> (world \<Rightarrow> (int \<times> ring_globals \<times> world) option) \<Rightarrow> world \<Rightarrow> (int \<times> world) option" where
  "soc_ring_main argc opt exec w =
     (if 2 < argc then Some (- 1, w)
      else if argc = 2 then
        (case opt of
           None \<Rightarrow> Some (0, w)
         | Some c \<Rightarrow> if c = CHR ''h'' then Some (0, w) else if c = CHR ''g'' then Some (0, w) else Some (- 1, w))
      else do { (_, _, w) \<leftarrow> exec w; Some (0, w) })"

lemma to_u64_range: "0 \<le> to_u64 x \<and> to_u64 x \<le> UINT64_MAX"
  using pos_mod_bound[of "2 ^ 64" x] by (simp add: to_u64_def)

lemma strtoull_range: "strtoull s = (v, r, e) \<Longrightarrow> 0 \<le> v \<and> v \<le> UINT64_MAX"
  using to_u64_range by (auto simp: strtoull_def Let_def split: option.splits if_splits)

lemma envtoull_range: "soc_ring_sentry_envtoull env = Some v \<Longrightarrow> 0 \<le> v \<and> v \<le> UINT64_MAX"
  by (auto simp: soc_ring_sentry_envtoull_def Let_def split: option.splits prod.splits if_splits dest: strtoull_range)

lemma mem_size_init_ok:
  "let m = g_mem_size (soc_ring_sentry_mem_size_init env g) in 0 < m \<and> m mod 65536 = 0 \<and> m \<le> UINT64_MAX"
proof (cases "soc_ring_sentry_envtoull (env ''SOC_RING_SENTRY_MEM_SIZE'')")
  case (Some v)
  have r: "0 \<le> v" using envtoull_range[OF Some] by simp
  show ?thesis
  proof (cases "v \<noteq> 0 \<and> v < UINT64_MAX div KB \<and> v mod LIMITE_MEM_SIZE = 0")
    case True
    then obtain k where "v = 64 * k" by (metis mod_0_imp_dvd dvdE)
    moreover have "to_u64 (v * KB) = v * KB" using True r by (simp add: to_u64_def)
    ultimately show ?thesis using True r Some by (simp add: soc_ring_sentry_mem_size_init_def Let_def)
  qed (auto simp: soc_ring_sentry_mem_size_init_def Some)
qed (simp add: soc_ring_sentry_mem_size_init_def)

lemma blacklist_init_returns:
  "balance w = b \<Longrightarrow> returns (soc_ring_sentry_blacklist_init np env n g w)
     (\<lambda>(g', v). balance v = (\<lambda>x. b x + of_bool (g_blacklist g' \<noteq> None \<and> x = Mem (blacklist_mem g'))) \<and>
        g_intensity_delay g' = g_intensity_delay g \<and> g_handle g' = g_handle g \<and> g_mem_size g' = g_mem_size g \<and>
        g_loop_cnt g' = g_loop_cnt g \<and> (\<forall>bl. g_blacklist g' = Some bl \<longrightarrow> length bl = n))"
  unfolding soc_ring_sentry_blacklist_init_def
  by (intro ret_intros) (auto simp: fun_eq_iff req_delta_def)


lemmas ring_init_defs = soc_ring_sentry_loop_cnt_init_def soc_ring_sentry_handle_init_def
  soc_ring_sentry_intensity_delay_init_def

lemma ring_init_simps [simp]:
  "g_mem_size (soc_ring_sentry_loop_cnt_init env g) = g_mem_size g"
  "g_handle (soc_ring_sentry_loop_cnt_init env g) = g_handle g"
  "g_intensity_delay (soc_ring_sentry_loop_cnt_init env g) = g_intensity_delay g"
  "g_handle (soc_ring_sentry_mem_size_init env g) = g_handle g"
  "g_intensity_delay (soc_ring_sentry_mem_size_init env g) = g_intensity_delay g"
  "g_intensity_delay (soc_ring_sentry_handle_init env g) = g_intensity_delay g"
  by (simp_all add: ring_init_defs soc_ring_sentry_mem_size_init_def Let_def split: option.split)

lemma handle_init_ok: "let h = g_handle (soc_ring_sentry_handle_init env g) in 0 \<le> h \<and> h \<le> 3"
  using envtoull_range by (auto simp: soc_ring_sentry_handle_init_def Let_def split: option.split)

lemma loop_cnt_init_ok: "let n = g_loop_cnt (soc_ring_sentry_loop_cnt_init env g) in 0 \<le> n \<and> n \<le> UINT64_MAX"
  using envtoull_range by (auto simp: soc_ring_sentry_loop_cnt_init_def Let_def split: option.split)

text \<open>Whatever the environment holds, the settings of the ring test are in range: the test space of a
  node is a positive multiple of the 64 KiB block that fits 64 bits, the error handling is one of
  the four known ones, and the blacklist, if there is one, has an entry for every core.\<close>

lemma ring_settings_ok:
  assumes "soc_ring_sentry_init np env cores g w = Some (g', w')"
  shows "0 < g_mem_size g' \<and> g_mem_size g' mod int BLOCK_SIZE = 0 \<and> g_mem_size g' < 2 ^ 64 \<and>
    0 \<le> g_handle g' \<and> g_handle g' \<le> 3 \<and> 0 \<le> g_loop_cnt g' \<and> g_loop_cnt g' < 2 ^ 64 \<and>
    (\<forall>bl. g_blacklist g' = Some bl \<longrightarrow> length bl = cores)"
proof -
  let ?h = "soc_ring_sentry_handle_init env (soc_ring_sentry_intensity_delay_init env g)"
  let ?m = "soc_ring_sentry_mem_size_init env ?h"
  have r: "g_handle g' = g_handle ?h" "g_mem_size g' = g_mem_size ?m"
      "g_loop_cnt g' = g_loop_cnt (soc_ring_sentry_loop_cnt_init env ?m)"
      "\<forall>bl. g_blacklist g' = Some bl \<longrightarrow> length bl = cores"
    using returnsD[OF blacklist_init_returns[OF refl] assms[unfolded soc_ring_sentry_init_def]] by simp_all
  show ?thesis
    using mem_size_init_ok[of env ?h] handle_init_ok[of env "soc_ring_sentry_intensity_delay_init env g"]
      loop_cnt_init_ok[of env ?m] r(4)
    unfolding Let_def r(1-3) by simp
qed

lemma ring_settings_ok_example:
  "(case soc_ring_sentry_init (\<lambda>_. Some {1})
      (\<lambda>n. if n = ''SOC_RING_SENTRY_MEM_SIZE'' then Some ''128'' else Some ''2'') 2
      \<lparr>g_intensity_delay = 0, g_handle = 0, g_mem_size = 0, g_loop_cnt = 0, g_blacklist = None, blacklist_mem = 0\<rparr>
      (boot [ans 1 [], ans 2 [], ans 0 []]) of
     Some (g', w') \<Rightarrow> g_mem_size g' = 131072 \<and> 0 < g_mem_size g' \<and> g_handle g' \<le> 3 | None \<Rightarrow> False)"
proof -
  let ?x = "soc_ring_sentry_init (\<lambda>_. Some {1})
      (\<lambda>n. if n = ''SOC_RING_SENTRY_MEM_SIZE'' then Some ''128'' else Some ''2'') 2
      \<lparr>g_intensity_delay = 0, g_handle = 0, g_mem_size = 0, g_loop_cnt = 0, g_blacklist = None, blacklist_mem = 0\<rparr>
      (boot [ans 1 [], ans 2 [], ans 0 []])"
  have "map_option (g_mem_size \<circ> fst) ?x = Some 131072" by code_simp
  then obtain g' w' where e: "?x = Some (g', w')" "g_mem_size g' = 131072" by auto
  from ring_settings_ok[OF e(1)] e(2) show ?thesis unfolding e(1) by simp
qed

lemma soc_ring_init_returns:
  "balance w = b \<Longrightarrow> returns (soc_ring_sentry_init np env n g w)
     (\<lambda>(g', v). balance v = (\<lambda>x. b x + of_bool (g_blacklist g' \<noteq> None \<and> x = Mem (blacklist_mem g'))))"
  unfolding soc_ring_sentry_init_def by (rule returns_mono[OF blacklist_init_returns]) auto

lemma soc_ring_exec_returns:
  "balance w = b \<Longrightarrow> returns (soc_ring_sentry_exec J np env al nodes errs g w)
     (\<lambda>(r, g', v). balance v = b \<and> g_blacklist g' = None \<and> (r = TC_SUCCESS \<longrightarrow> errs = 0))"
  unfolding soc_ring_sentry_exec_def get_system_core_num_def
  by (intro soc_ring_init_returns[OF refl, THEN returns_mono, unfolded split_paired_all split_conv]
      tc_ring_one_main_returns[OF refl, THEN returns_mono, unfolded split_paired_all split_conv]
      soc_report_intros ret_intros) (auto simp: fun_eq_iff req_delta_def)


definition demo_soc :: world where
  "demo_soc = boot ([ans 1 [], ans 10 [], ans (- 1) []] @ replicate 9 (ans (- 1) []))"

definition demo_globals :: ring_globals where
  "demo_globals = \<lparr>g_intensity_delay = 0, g_handle = 0, g_mem_size = 0, g_loop_cnt = 0, g_blacklist = None,
     blacklist_mem = 0\<rparr>"


text \<open>The settings accept a negative number that stands after a white space: strtoull skips the
  space and negates in 64 bits, while the test for a minus sign looks at the first character only.\<close>

lemma envtoull_minus:
  assumes "0 < n" and "n < 2 ^ 64" and "is_space c"
  shows "soc_ring_sentry_envtoull (Some (c # CHR ''-'' # dec_nat n)) = Some (2 ^ 64 - int n) \<and>
    soc_ring_sentry_envtoull (Some (CHR ''-'' # dec_nat n)) = None"
proof -
  have "strtoull (c # CHR ''-'' # dec_nat n) = (2 ^ 64 - int n, [], False)"
  proof -
    have d: "takeWhile is_digit (dec_nat n) = dec_nat n" "dropWhile is_digit (dec_nat n) = []"
      using dec_nat_digits[of n] by (simp_all add: takeWhile_eq_all_conv dropWhile_eq_Nil_conv)
    have "\<not> is_space (CHR ''-'')" by code_simp
    moreover have "takeWhile is_digit (dec_nat n) \<noteq> []" unfolding d(1) by simp
    moreover have "scan_number (c # CHR ''-'' # dec_nat n) =
        (if takeWhile is_digit (dec_nat n) = [] then None
         else Some (True, takeWhile is_digit (dec_nat n), dropWhile is_digit (dec_nat n)))"
      using assms(3) calculation by (simp add: scan_number_def Let_def)
    ultimately have "scan_number (c # CHR ''-'' # dec_nat n) = Some (True, dec_nat n, [])"
      unfolding d by simp
    moreover have "- int n mod 2 ^ 64 = 2 ^ 64 - int n" 
      using assms(1,2) by (simp add: zmod_zminus1_eq_if)
    ultimately show ?thesis using assms(2) by (simp add: strtoull_def to_u64_def)
  qed
  moreover have "c \<noteq> CHR ''-''" using assms(3) by (auto simp: is_space_def char_val_def)
  ultimately show ?thesis by (simp add: soc_ring_sentry_envtoull_def)
qed

lemma envtoull_minus_example:
  "soc_ring_sentry_envtoull (Some ('' -'' @ dec_nat 5)) = Some 18446744073709551611"
  using envtoull_minus[of 5 "CHR '' ''"] by (simp add: is_space_def char_val_def)

end
