(* ===== verification/BmcLog.thy ===== *)
theory BmcLog
  imports XalarmMsg
begin

text \<open>
  \<open>sentry_msg_monitor/bmc_log_lib.c\<close>: the result of a power-off acknowledgement as an ipmitool
  command. The buffer \<open>power_off_res_hex_str\<close> is not initialised; what it holds is the argument
  \<open>junk\<close>, and \<open>string_to_ascii_hex\<close> appends to the string it finds there.
\<close>

abbreviation RMRS_SUCCESS :: int where "RMRS_SUCCESS \<equiv> 0"
abbreviation RMRS_MIGRATE_TIMEOUT :: int where "RMRS_MIGRATE_TIMEOUT \<equiv> 9"
abbreviation RMRS_UNKNOWN_CODE :: int where "RMRS_UNKNOWN_CODE \<equiv> 10"
abbreviation SINGLE_ASCII_HEX_STR_LEN :: nat where "SINGLE_ASCII_HEX_STR_LEN \<equiv> 8"
abbreviation POWER_RESULT_STR_MAX_LEN :: nat where "POWER_RESULT_STR_MAX_LEN \<equiv> 55"
abbreviation HEX_STR_SIZE :: nat where "HEX_STR_SIZE \<equiv> 440"
abbreviation IPMITOOL_COMMAND_STR_MAX_LEN :: nat where "IPMITOOL_COMMAND_STR_MAX_LEN \<equiv> 490"

definition ipmitool_prefix :: string where
  "ipmitool_prefix = ''ipmitool raw 0x30 0x92 0xdb 0x07 0x00 0x0f 0x01 ''"

definition rmrs_result_strings :: "string list" where
  "rmrs_result_strings =
     [''Memory return succeeded'', ''Node communication failed'', ''Memory migration failed'',
      ''Local memory shortage error'', ''Borrowed memory shortage error'',
      ''Resource acquisition failed'', ''Memory borrowing failed or timed out'',
      ''Memory return failed or timed out'', ''Partial node memory return succeeded'',
      ''Memory migration succeeded with timeout'']"

definition get_rmrs_result_string :: "int \<Rightarrow> string option" where
  "get_rmrs_result_string t =
     (if t < 0 \<or> RMRS_UNKNOWN_CODE \<le> t then None else Some (rmrs_result_strings ! nat t))"

text \<open>\<open>"0x%02x "\<close> of a character.\<close>

definition hex_item :: "char \<Rightarrow> string" where
  "hex_item c = ''0x'' @ hexw 2 (char_val c) @ '' ''"

text \<open>The loop: the string in the buffer so far, \<open>None\<close> when there is no room.\<close>

fun hex_loop :: "string \<Rightarrow> nat \<Rightarrow> string \<Rightarrow> string option" where
  "hex_loop ascii sz [] = Some ascii"
| "hex_loop ascii sz (c # cs) =
     (let (hex, n) = snprintf SINGLE_ASCII_HEX_STR_LEN (hex_item c) in
      if n \<le> 0 \<or> int SINGLE_ASCII_HEX_STR_LEN \<le> n then None
      else if int sz - int (length ascii) - 1 < int SINGLE_ASCII_HEX_STR_LEN then None
      else hex_loop (ascii @ take SINGLE_ASCII_HEX_STR_LEN hex) sz cs)"

definition string_to_ascii_hex :: "string \<Rightarrow> string \<Rightarrow> nat \<Rightarrow> string option" where
  "string_to_ascii_hex raw junk sz =
     (if sz = 0 then None
      else case hex_loop (cstr junk) sz raw of
          None \<Rightarrow> None
        | Some a \<Rightarrow> Some (if raw \<noteq> [] then butlast a else a))"

definition bmc_execute_command :: "string \<Rightarrow> world \<Rightarrow> (int \<times> world) option" where
  "bmc_execute_command command w = do {
     (fp, w) \<leftarrow> call (Q_popen command) w;
     if fp < 0 then Some (- 1, w)
     else do {
       (_, _, w) \<leftarrow> fetch (Q_fgets fp 4096) w;
       (ret, w) \<leftarrow> call (Q_pclose fp) w;
       if ret < 0 then Some (- 1, w)
       else if ret mod 128 \<noteq> 0 then Some (- 1, w)
       else Some (- (ret div 256 mod 256), w) } }"

definition report_power_off_result_to_bmc :: "string \<Rightarrow> int \<Rightarrow> world \<Rightarrow> (int \<times> world) option" where
  "report_power_off_result_to_bmc junk res w = (case get_rmrs_result_string res of
      None \<Rightarrow> Some (- 1, w)
    | Some s \<Rightarrow>
        (let (power_off_res_str, ret) =
               snprintf POWER_RESULT_STR_MAX_LEN (''power_off,'' @ s @ '','' @ dec_int res) in
         if ret \<le> 0 then Some (ret, w)
         else case string_to_ascii_hex power_off_res_str junk HEX_STR_SIZE of
             None \<Rightarrow> Some (- 1, w)
           | Some hex \<Rightarrow>
               (let (command, ret) = snprintf IPMITOOL_COMMAND_STR_MAX_LEN (ipmitool_prefix @ hex) in
                if ret \<le> 0 then Some (- 1, w)
                else do {
                  (ret, w) \<leftarrow> bmc_execute_command command w;
                  Some (if ret < 0 then ret else 0, w) })))"

definition report_result_to_bmc :: "string \<Rightarrow> int \<Rightarrow> int \<Rightarrow> world \<Rightarrow> (int \<times> world) option" where
  "report_result_to_bmc junk ack_result ioctl_result w =
     report_power_off_result_to_bmc junk
       (if ack_result = RMRS_SUCCESS \<and> ioctl_result \<noteq> 0 then RMRS_MIGRATE_TIMEOUT else ack_result) w"

section \<open>The command\<close>

text \<open>The characters of a text as \<open>0x\<close> codes with a space between them.\<close>

definition hex_text :: "string \<Rightarrow> string" where
  "hex_text s = butlast (concat (map hex_item s))"

lemma hex_item_length: "length (hex_item c) = 5"
proof -
  have "char_val c < 256" by (rule char_val_bound)
  moreover have "length (hex_nat n) \<le> 2" if "n < 256" for n
  proof (cases "n < 16")
    case True
    then show ?thesis by (subst hex_nat.simps) simp
  next
    case False
    then have "hex_nat n = hex_nat (n div 16) @ [digit_char (n mod 16)]" by (subst hex_nat.simps) simp
    moreover have "hex_nat (n div 16) = [digit_char (n div 16)]"
      using that by (subst hex_nat.simps) (simp add: div_less_iff_less_mult)
    ultimately show ?thesis by simp
  qed
  ultimately show ?thesis by (simp add: hex_item_def hexw_def pad0_length)
qed

lemma hex_loop_fits:
  "length a + 5 * length s + 4 < sz \<Longrightarrow> hex_loop a sz s = Some (a @ concat (map hex_item s))"
proof (induction s arbitrary: a)
  case (Cons c s)
  have "snprintf 8 (hex_item c) = (hex_item c, 5)" by (simp add: snprintf_def hex_item_length)
  then show ?case using Cons by (simp add: hex_item_length Let_def)
qed simp

lemma length_hex_text: "length (hex_text s) \<le> 5 * length s"
proof -
  have "length (concat (map hex_item s)) = 5 * length s" by (induction s) (simp_all add: hex_item_length)
  then show ?thesis by (simp add: hex_text_def)
qed

definition result_text :: "int \<Rightarrow> string" where
  "result_text res = ''power_off,'' @ rmrs_result_strings ! nat res @ '','' @ dec_int res"

lemma result_text_length:
  assumes "0 \<le> res" and "res < 10"
  shows "length (result_text res) \<le> 54 \<and> result_text res \<noteq> []"
proof -
  have "nat res < length rmrs_result_strings" using assms by (simp add: rmrs_result_strings_def)
  then have "rmrs_result_strings ! nat res \<in> set rmrs_result_strings" by (rule nth_mem)
  moreover have "\<forall>s \<in> set rmrs_result_strings. length s \<le> 39" by (simp add: rmrs_result_strings_def)
  ultimately have "length (rmrs_result_strings ! nat res) \<le> 39" by blast
  moreover have "length (dec_int res) \<le> 2" using length_dec_int[of res 1] assms by simp
  ultimately show ?thesis by (simp add: result_text_def)
qed

text \<open>C36: With a cleared buffer, the result of a power-off acknowledgement is sent to the BMC as one
  ipmitool command that carries every character of the result text, uncut by any of the three
  buffers; a code without a text sends nothing; and a kernel failure turns success into the
  timeout code.\<close>

theorem bmc_command_exact:
  assumes "cstr junk = []"
  shows "report_result_to_bmc junk ack ioctl w =
    (let res = (if ack = RMRS_SUCCESS \<and> ioctl \<noteq> 0 then RMRS_MIGRATE_TIMEOUT else ack) in
     if res < 0 \<or> RMRS_UNKNOWN_CODE \<le> res then Some (- 1, w)
     else do {
       (ret, w) \<leftarrow> bmc_execute_command (ipmitool_prefix @ hex_text (result_text res)) w;
       Some (if ret < 0 then ret else 0, w) })"
proof -
  have "report_power_off_result_to_bmc junk res w =
     (if res < 0 \<or> RMRS_UNKNOWN_CODE \<le> res then Some (- 1, w)
     else do {
       (ret, w) \<leftarrow> bmc_execute_command (ipmitool_prefix @ hex_text (result_text res)) w;
       Some (if ret < 0 then ret else 0, w) })" for res
  proof (cases "res < 0 \<or> 10 \<le> res")
    case True
    then show ?thesis by (simp add: report_power_off_result_to_bmc_def get_rmrs_result_string_def)
  next
    case False
    let ?t = "result_text res"
    have l: "length ?t \<le> 54" "?t \<noteq> []" using result_text_length[of res] False by auto
    have 1: "snprintf 55 ?t = (?t, int (length ?t))" using l by (simp add: snprintf_def)
    have "hex_loop [] 440 ?t = Some (concat (map hex_item ?t))" using hex_loop_fits[of "[]" ?t 440] l by simp
    then have 2: "string_to_ascii_hex ?t junk 440 = Some (hex_text ?t)"
      using l assms by (simp add: string_to_ascii_hex_def hex_text_def)
    let ?c = "ipmitool_prefix @ hex_text ?t"
    have c: "\<not> int (length ?c) \<le> 0" "length ?c < 490" using length_hex_text[of ?t] l by (simp_all add: ipmitool_prefix_def)
    then have 3: "snprintf 490 ?c = (?c, int (length ?c))" by (simp add: snprintf_def)
    have 0: "get_rmrs_result_string res = Some (rmrs_result_strings ! nat res)"
      using False by (simp add: get_rmrs_result_string_def)
    have l': "\<not> int (length ?t) \<le> 0" using l by simp
    have r: "\<not> (res < 0 \<or> RMRS_UNKNOWN_CODE \<le> res)" using False by simp
    show ?thesis
      unfolding report_power_off_result_to_bmc_def 0 option.case
        result_text_def[symmetric] 1 2 3 Let_def prod.case if_not_P[OF l'] if_not_P[OF c(1)] if_not_P[OF r] ..
  qed
  then show ?thesis by (simp add: report_result_to_bmc_def Let_def)
qed

theorem bmc_command_exact_witness:
  "report_result_to_bmc [] 0 1 (boot [ans 3 [], ans 0 []]) = do {
     (ret, w) \<leftarrow> bmc_execute_command (ipmitool_prefix @ hex_text ''power_off,Memory migration succeeded with timeout,9'') (boot [ans 3 [], ans 0 []]);
     Some (if ret < 0 then ret else 0, w) }"
proof -
  have "result_text 9 = ''power_off,Memory migration succeeded with timeout,9''" by code_simp
  then show ?thesis using bmc_command_exact[of "[]" 0 1 "boot [ans 3 [], ans 0 []]"] by (simp add: cstr_def)
qed

end
