(* ===== verification/UbFault.thy ===== *)
theory UbFault
  imports XalarmMsg
begin

text \<open>
  \<open>sentry_msg_monitor/ub_fault_lib.c\<close>: from a faulty offset of a shared memory device to the
  threads that map it, and the SIGBUS each of them is sent. The growth of the identifier arrays
  is a call of \<open>realloc\<close>; the handle of the array stays the same in the model.
\<close>

abbreviation ID_CAPACITY :: nat where "ID_CAPACITY \<equiv> 10"

section \<open>Reading a line of /proc/PID/maps\<close>

text \<open>\<open>%lx\<close>: the value, at most the largest 64-bit number, and the rest.\<close>

definition scan_lx :: "string \<Rightarrow> (u64 \<times> string) option" where
  "scan_lx s =
     (let t = dropWhile is_space s;
          u = (if starts_with ''0x'' t then drop 2 t else t);
          ds = takeWhile (\<lambda>c. hex_digit_val c \<noteq> None) u
      in if ds = [] then None
         else Some (word_of_nat (min (nat_of_hex ds) (2 ^ 64 - 1)),
                    dropWhile (\<lambda>c. hex_digit_val c \<noteq> None) u))"

text \<open>\<open>%Ns\<close>: at most \<open>n\<close> characters that are not white space.\<close>

definition scan_word :: "nat \<Rightarrow> string \<Rightarrow> (string \<times> string) option" where
  "scan_word n s =
     (let t = dropWhile is_space s; x = take n (takeWhile (\<lambda>c. \<not> is_space c) t)
      in if x = [] then None else Some (x, drop (length x) t))"

text \<open>\<open>sscanf (line, "%lx-%lx %7s %lx %1023s", ...) = 5\<close>: start, end and offset.\<close>

definition scan_maps_line :: "string \<Rightarrow> (u64 \<times> u64 \<times> u64) option" where
  "scan_maps_line line = do {
     (st, r) \<leftarrow> scan_lx line;
     r \<leftarrow> (case r of c # r \<Rightarrow> if c = CHR ''-'' then Some r else None | [] \<Rightarrow> None);
     (en, r) \<leftarrow> scan_lx r;
     (_, r) \<leftarrow> scan_word 7 r;
     (offs, r) \<leftarrow> scan_lx r;
     (_, _) \<leftarrow> scan_word 1023 r;
     Some (st, en, offs) }"

section \<open>Processes and threads\<close>

text \<open>
  The loop over the output of lsof: the process numbers, each once. The array grows by doubling
  when it is full; a failed \<open>realloc\<close> ends the loop.
\<close>

function pid_loop :: "int \<Rightarrow> int list \<Rightarrow> nat \<Rightarrow> world \<Rightarrow> (int list \<times> world) option" where
  "pid_loop fp pids capacity w = do {
     (r, line, w) \<leftarrow> fetch (Q_fgets fp 1024) w;
     if r < 0 then Some (pids, w)
     else do {
       let pid = atoi (cstr (take 1023 line));
       if pid \<le> 0 then Some (pids, w)
       else if pid \<in> set pids then pid_loop fp pids capacity w
       else if capacity \<le> length pids then do {
         (r, w) \<leftarrow> call (Q_library ''realloc'' []) w;
         if r < 0 then Some (pids, w) else pid_loop fp (pids @ [pid]) (capacity * 2) w }
       else pid_loop fp (pids @ [pid]) capacity w } }"
  by pat_completeness auto
termination
  by (relation "measure (\<lambda>(f, p, c, w). length (script w))") (auto dest!: fetch_script call_script)

declare pid_loop.simps [simp del]

text \<open>The count (-1 on an error), the array and its allocation (-1 when there is none).\<close>

definition find_processes_by_device :: "string \<Rightarrow> world \<Rightarrow> (int \<times> int list \<times> int \<times> world) option" where
  "find_processes_by_device obmm_shmdev_name w = do {
     let command = fst (snprintf 512 (''/usr/bin/lsof '' @ [CHR 0x22] @ obmm_shmdev_name @ [CHR 0x22] @
           '' | awk '' @ [CHR 0x27] @ ''NR > 1 {print $2}'' @ [CHR 0x27]));
     (pids_mem, w) \<leftarrow> call (Q_malloc (ID_CAPACITY * 4)) w;
     if pids_mem < 0 then Some (- 1, [], - 1, w)
     else do {
       (fp, w) \<leftarrow> call (Q_popen command) w;
       if fp < 0 then do { (_, w) \<leftarrow> call (Q_free pids_mem) w; Some (- 1, [], - 1, w) }
       else do {
         (pids, w) \<leftarrow> pid_loop fp [] ID_CAPACITY w;
         (_, w) \<leftarrow> call (Q_pclose fp) w;
         Some (int (length pids), pids, pids_mem, w) } } }"

definition offset_in_mapping :: "u64 \<Rightarrow> u64 \<times> u64 \<times> u64 \<Rightarrow> u64 option" where
  "offset_in_mapping obmm_offset m = (case m of (st, en, offs) \<Rightarrow>
     if obmm_offset \<le> (en - st) + offs \<and> offs \<le> obmm_offset then Some (st - offs + obmm_offset) else None)"

function maps_loop :: "int \<Rightarrow> string \<Rightarrow> u64 \<Rightarrow> world \<Rightarrow> (u64 option \<times> world) option" where
  "maps_loop fp obmm_shmdev_name obmm_offset w = do {
     (r, line, w) \<leftarrow> fetch (Q_fgets fp 1024) w;
     if r < 0 then Some (None, w)
     else do {
       let line = cstr (take 1023 line);
       if strstr line obmm_shmdev_name = None then maps_loop fp obmm_shmdev_name obmm_offset w
       else case scan_maps_line line of
           None \<Rightarrow> maps_loop fp obmm_shmdev_name obmm_offset w
         | Some m \<Rightarrow> (case offset_in_mapping obmm_offset m of
             Some virt_addr \<Rightarrow> Some (Some virt_addr, w)
           | None \<Rightarrow> maps_loop fp obmm_shmdev_name obmm_offset w) } }"
  by pat_completeness auto
termination
  by (relation "measure (\<lambda>(f, n, d, w). length (script w))") (auto dest!: fetch_script)

declare maps_loop.simps [simp del]

text \<open>\<open>Some\<close> virtual address when the thread maps the faulty offset.\<close>

definition is_accessing_faulty_address ::
  "string \<Rightarrow> string \<Rightarrow> u64 \<Rightarrow> world \<Rightarrow> (u64 option \<times> world) option" where
  "is_accessing_faulty_address obmm_shmdev_name tid_maps_str obmm_offset w = do {
     (fp, w) \<leftarrow> call (Q_fopen tid_maps_str ''r'') w;
     if fp < 0 then Some (None, w)
     else do {
       (v, w) \<leftarrow> maps_loop fp obmm_shmdev_name obmm_offset w;
       (_, w) \<leftarrow> call (Q_fclose fp) w;
       Some (v, w) } }"

definition is_positive_integer :: "string \<Rightarrow> bool" where
  "is_positive_integer s = (if s = [] then False else list_all is_digit s)"

text \<open>
  The loop over /proc/PID/task: the threads found, and \<open>virt_addr\<close> as the last of them set it.
  The first character \<open>readdir\<close> delivers says whether the entry is a directory.
\<close>

partial_function (option) task_loop ::
  "string \<Rightarrow> int \<Rightarrow> u64 \<Rightarrow> int \<Rightarrow> int list \<Rightarrow> nat \<Rightarrow> u64 option \<Rightarrow> world
     \<Rightarrow> (int list \<times> u64 option \<times> world) option" where
  "task_loop name pid obmm_offset dir tids capacity virt w = do {
     (r, entry, w) \<leftarrow> fetch (Q_readdir dir) w;
     if r < 0 then Some (tids, virt, w)
     else if entry \<noteq> [] \<and> hd entry = CHR ''d'' \<and> is_positive_integer (cstr (tl entry)) then do {
       let tid = atoi (cstr (tl entry));
       let path = fst (snprintf 128 (''/proc/'' @ dec_int pid @ ''/task/'' @ dec_int tid @ ''/maps''));
       (v, w) \<leftarrow> is_accessing_faulty_address name path obmm_offset w;
       case v of
         None \<Rightarrow> task_loop name pid obmm_offset dir tids capacity virt w
       | Some a \<Rightarrow>
           if capacity \<le> length tids then do {
             (r, w) \<leftarrow> call (Q_library ''realloc'' []) w;
             if r < 0 then Some (tids, Some a, w)
             else task_loop name pid obmm_offset dir (tids @ [tid]) (capacity * 2) (Some a) w }
           else task_loop name pid obmm_offset dir (tids @ [tid]) capacity (Some a) w }
     else task_loop name pid obmm_offset dir tids capacity virt w }"

text \<open>The status, the threads, the address, and the allocation of \<open>tids\<close>.\<close>

definition check_process_mapping ::
  "string \<Rightarrow> int \<Rightarrow> u64 \<Rightarrow> world \<Rightarrow> (int \<times> int list \<times> u64 option \<times> int \<times> world) option" where
  "check_process_mapping name pid obmm_offset w = do {
     (tids_mem, w) \<leftarrow> call (Q_malloc (ID_CAPACITY * 4)) w;
     if tids_mem < 0 then Some (- 1, [], None, - 1, w)
     else do {
       (dir, w) \<leftarrow> call (Q_opendir (fst (snprintf 128 (''/proc/'' @ dec_int pid @ ''/task/'')))) w;
       if dir < 0 then Some (- 1, [], None, tids_mem, w)
       else do {
         (tids, virt, w) \<leftarrow> task_loop name pid obmm_offset dir [] ID_CAPACITY None w;
         (_, w) \<leftarrow> call (Q_closedir dir) w;
         Some (if tids \<noteq> [] then 0 else - 1, tids, virt, tids_mem, w) } } }"

definition send_sigbus_to_thread :: "int \<Rightarrow> u64 \<Rightarrow> world \<Rightarrow> (int \<times> world) option" where
  "send_sigbus_to_thread tid virt_addr w =
     call (Q_library ''sigqueue'' [dec_int tid, ''SIGBUS'', dec_nat (unat virt_addr)]) w"

fun send_all_sigbus :: "int list \<Rightarrow> u64 \<Rightarrow> world \<Rightarrow> world option" where
  "send_all_sigbus [] virt_addr w = Some w"
| "send_all_sigbus (t # ts) virt_addr w = do {
     (_, w) \<leftarrow> send_sigbus_to_thread t virt_addr w;
     send_all_sigbus ts virt_addr w }"

fun process_loop :: "string \<Rightarrow> u64 \<Rightarrow> int list \<Rightarrow> world \<Rightarrow> world option" where
  "process_loop name obmm_offset [] w = Some w"
| "process_loop name obmm_offset (p # ps) w = do {
     (r, tids, virt, tids_mem, w) \<leftarrow> check_process_mapping name p obmm_offset w;
     w \<leftarrow> (if r = 0 then send_all_sigbus tids (the virt) w else Some w);
     w \<leftarrow> (if 0 \<le> tids_mem then do { (_, w) \<leftarrow> call (Q_free tids_mem) w; Some w } else Some w);
     process_loop name obmm_offset ps w }"

definition find_and_send_sigbus_to_thread :: "nat \<Rightarrow> u64 \<Rightarrow> world \<Rightarrow> (int \<times> world) option" where
  "find_and_send_sigbus_to_thread memid obmm_offset w = do {
     let name = fst (snprintf 256 (''/dev/obmm_shmdev'' @ dec_nat memid));
     (pid_count, pids, pids_mem, w) \<leftarrow> find_processes_by_device name w;
     w \<leftarrow> (if pid_count \<le> 0 then Some w else process_loop name obmm_offset pids w);
     w \<leftarrow> (if 0 \<le> pids_mem then do { (_, w) \<leftarrow> call (Q_free pids_mem) w; Some w } else Some w);
     Some (0, w) }"

section \<open>Addresses\<close>

lemma mapping_length:
  assumes "st \<le> en" and "unat offs + (unat en - unat st) < 2 ^ 64"
  shows "unat ((en - st :: u64) + offs) = unat offs + (unat en - unat st)"
proof -
  have "unat (en - st) = unat en - unat st" using assms(1) by (rule unat_sub)
  moreover have "unat (en - st) + unat offs < 2 ^ LENGTH(64)" using assms(2) calculation by simp
  ultimately show ?thesis by (simp only: unat_add_lem[THEN iffD1])
qed

lemma offset_in_mapping_spec:
  assumes "st \<le> en" and "unat offs + (unat en - unat st) < 2 ^ 64"
  shows "(case offset_in_mapping off (st, en, offs) of
      None \<Rightarrow> unat off < unat offs \<or> unat offs + (unat en - unat st) < unat off
    | Some a \<Rightarrow> unat offs \<le> unat off \<and> unat off \<le> unat offs + (unat en - unat st) \<and>
        unat a = unat st + (unat off - unat offs))"
proof (cases "off \<le> (en - st) + offs \<and> offs \<le> off")
  case True
  then have o: "unat offs \<le> unat off" "unat off \<le> unat offs + (unat en - unat st)"
    using mapping_length[OF assms] by (simp_all add: word_le_nat_alt)
  have d: "unat (off - offs) = unat off - unat offs" using True by (simp add: unat_sub)
  have "unat st + (unat off - unat offs) \<le> unat en" using o assms(1) by (simp add: word_le_nat_alt)
  also have "\<dots> < 2 ^ LENGTH(64)" by (rule unsigned_less)
  finally have "unat (st + (off - offs)) = unat st + (unat off - unat offs)" using d by (simp only: unat_add_lem[THEN iffD1])
  moreover have e: "st - offs + off = st + (off - offs)" by simp
  ultimately have "unat (st - offs + off) = unat st + (unat off - unat offs)" unfolding e by simp
  moreover have "offset_in_mapping off (st, en, offs) = Some (st - offs + off)"
    using True by (simp add: offset_in_mapping_def)
  ultimately show ?thesis using o by simp
next
  case False
  then show ?thesis using mapping_length[OF assms] by (auto simp: offset_in_mapping_def word_le_nat_alt)
qed

text \<open>A thread is taken to map the faulty offset exactly when the offset lies between the mapping's
  offset and that offset plus the length of the mapping, and the address in the signal is as far
  from the start of the mapping. The upper bound is included: the offset one past the mapping
  counts too, with an address the mapping does not cover.\<close>

lemma offset_in_mapping_iff:
  assumes "st \<le> en" and "unat offs + (unat en - unat st) < 2 ^ 64"
  shows "(case offset_in_mapping off (st, en, offs) of
      None \<Rightarrow> unat off < unat offs \<or> unat offs + (unat en - unat st) < unat off
    | Some a \<Rightarrow> unat offs \<le> unat off \<and> unat off \<le> unat offs + (unat en - unat st) \<and>
        unat a = unat st + (unat off - unat offs)) \<and>
    offset_in_mapping (offs + (en - st)) (st, en, offs) = Some en"
proof
  show "offset_in_mapping (offs + (en - st)) (st, en, offs) = Some en"
    using mapping_length[OF assms] by (simp add: offset_in_mapping_def word_le_nat_alt algebra_simps)
qed (rule offset_in_mapping_spec[OF assms])

lemma offset_in_mapping_iff_example:
  "offset_in_mapping (0x3000 + (0x9000 - 0x7000)) (0x7000, 0x9000, 0x3000) = Some 0x9000"
  using offset_in_mapping_iff[of "0x7000" "0x9000" "0x3000" 0] by simp

section \<open>Contracts\<close>

text \<open>The processes found are distinct and positive, and the loop only takes from the script.\<close>

lemma pid_loop_returns:
  "balance w = b \<Longrightarrow> distinct pids \<and> (\<forall>p \<in> set pids. 0 < p) \<Longrightarrow> length (script w) \<le> n \<Longrightarrow>
   returns (pid_loop fp pids cap w)
     (\<lambda>(ps, v). balance v = b \<and> distinct ps \<and> (\<forall>p \<in> set ps. 0 < p) \<and> length (script v) \<le> n)"
proof (induction "length (script w)" arbitrary: w pids cap n rule: less_induct)
  case less
  show ?case
    by (subst pid_loop.simps, intro ret_intros less.hyps)
       (use less.prems in \<open>auto simp: fun_eq_iff req_delta_def\<close>)
qed

lemma find_processes_returns:
  "balance w = b \<Longrightarrow> length (script w) \<le> n \<Longrightarrow> returns (find_processes_by_device name w)
     (\<lambda>(c, ps, m, v). balance v = (\<lambda>x. b x + of_bool (0 \<le> m \<and> x = Mem m)) \<and> distinct ps \<and>
        (\<forall>p \<in> set ps. 0 < p) \<and> (0 \<le> c \<longrightarrow> c = int (length ps)) \<and> length (script v) \<le> n)"
  unfolding find_processes_by_device_def
  by (intro pid_loop_returns[where pids = "[]", OF refl _ order_refl, THEN returns_mono, unfolded split_paired_all split_conv] ret_intros)
     (auto simp: fun_eq_iff req_delta_def)

lemma maps_loop_returns:
  "balance w = b \<Longrightarrow> length (script w) \<le> n \<Longrightarrow> returns (maps_loop fp name off w)
     (\<lambda>(r, v). balance v = b \<and> length (script v) \<le> n)"
proof (induction "length (script w)" arbitrary: w n rule: less_induct)
  case less
  show ?case
    by (subst maps_loop.simps, intro ret_intros less.hyps)
       (use less.prems in \<open>auto simp: fun_eq_iff req_delta_def\<close>)
qed

lemma is_accessing_returns:
  "balance w = b \<Longrightarrow> length (script w) \<le> n \<Longrightarrow> returns (is_accessing_faulty_address name path off w)
     (\<lambda>(r, v). balance v = b \<and> length (script v) \<le> n)"
  unfolding is_accessing_faulty_address_def
  by (intro maps_loop_returns[OF refl order_refl, THEN returns_mono, unfolded split_paired_all split_conv] ret_intros)
     (auto simp: fun_eq_iff req_delta_def)

lemmas is_accessing_intros = is_accessing_returns[OF refl order_refl, THEN returns_mono, unfolded split_paired_all split_conv]

lemma task_loop_returns:
  "balance w = b \<Longrightarrow> length (script w) \<le> n \<Longrightarrow> (tids \<noteq> [] \<longrightarrow> virt \<noteq> None) \<Longrightarrow>
   returns (task_loop name pid off dir tids cap virt w)
     (\<lambda>(ts, a, v). balance v = b \<and> length (script v) \<le> n \<and> (ts \<noteq> [] \<longrightarrow> a \<noteq> None))"
proof (induction "length (script w)" arbitrary: w n tids cap virt rule: less_induct)
  case less
  show ?case
    by (subst task_loop.simps, intro is_accessing_intros ret_intros less.hyps)
       (use less.prems in \<open>auto simp: fun_eq_iff req_delta_def\<close>)
qed


lemma check_process_returns:
  "balance w = b \<Longrightarrow> length (script w) \<le> n \<Longrightarrow> returns (check_process_mapping name pid off w)
     (\<lambda>(r, ts, a, m, v). balance v = (\<lambda>x. b x + of_bool (0 \<le> m \<and> x = Mem m)) \<and> length (script v) \<le> n \<and>
        (r = 0 \<longrightarrow> ts \<noteq> [] \<and> a \<noteq> None))"
  unfolding check_process_mapping_def
  by (intro task_loop_returns[where tids = "[]", OF refl order_refl, THEN returns_mono, unfolded split_paired_all split_conv] ret_intros)
     (auto simp: fun_eq_iff req_delta_def)

lemma send_all_returns:
  "balance w = b \<Longrightarrow> length (script w) \<le> n \<Longrightarrow> returns (send_all_sigbus ts a w)
     (\<lambda>v. balance v = b \<and> length (script v) \<le> n)"
  by (induction ts arbitrary: w n) (auto intro!: ret_intros simp: fun_eq_iff send_sigbus_to_thread_def)

lemmas process_intros = check_process_returns[OF refl order_refl, THEN returns_mono, unfolded split_paired_all split_conv]
  send_all_returns[OF refl order_refl, THEN returns_mono]

lemma process_loop_returns:
  "balance w = b \<Longrightarrow> length (script w) \<le> n \<Longrightarrow> returns (process_loop name off ps w)
     (\<lambda>v. balance v = b \<and> length (script v) \<le> n)"
proof (induction ps arbitrary: w n)
  case (Cons p ps)
  show ?case unfolding process_loop.simps
    by (intro process_intros ret_intros Cons.IH) (use Cons.prems in \<open>auto simp: fun_eq_iff req_delta_def\<close>)
qed (simp add: returns_Some)

lemma find_and_send_returns:
  "balance w = b \<Longrightarrow> length (script w) \<le> n \<Longrightarrow> returns (find_and_send_sigbus_to_thread memid off w)
     (\<lambda>(r, v). balance v = b \<and> length (script v) \<le> n \<and> r = 0)"
  unfolding find_and_send_sigbus_to_thread_def
  by (intro find_processes_returns[OF refl order_refl, THEN returns_mono, unfolded split_paired_all split_conv]
      process_loop_returns[OF refl order_refl, THEN returns_mono] ret_intros)
     (auto simp: fun_eq_iff req_delta_def)

text \<open>The processes found for a device are distinct and have positive numbers, however often lsof
  lists them and whether or not the array can grow; the count is their number; the pipe to lsof
  is closed, and the array is the only thing held on return, or nothing when there is none.\<close>

lemma processes_found:
  assumes "find_processes_by_device name w = Some (c, ps, m, w')"
  shows "distinct ps \<and> (\<forall>p \<in> set ps. 0 < p) \<and> (0 \<le> c \<longrightarrow> c = int (length ps)) \<and>
    balance w' = (\<lambda>x. balance w x + of_bool (0 \<le> m \<and> x = Mem m))"
  using returnsD[OF find_processes_returns[OF refl order_refl] assms] by simp

lemma processes_found_example:
  "case find_processes_by_device ''/dev/obmm_shmdev1''
       (boot [ans 5 [], ans 6 [], ans 0 ''12'', ans 0 ''7'', ans 0 ''12'', ans (- 1) [], ans 0 []]) of
     Some (c, ps, m, w') \<Rightarrow> ps = [12, 7] \<and> distinct ps \<and> c = int (length ps) | None \<Rightarrow> False"
proof -
  let ?x = "find_processes_by_device ''/dev/obmm_shmdev1''
       (boot [ans 5 [], ans 6 [], ans 0 ''12'', ans 0 ''7'', ans 0 ''12'', ans (- 1) [], ans 0 []])"
  have "map_option (\<lambda>(c, ps, m, v). (c, ps, m)) ?x = Some (2, [12, 7], 5)" by code_simp
  then obtain w' where e: "?x = Some (2, [12, 7], 5, w')" by auto
  from processes_found[OF e] show ?thesis unfolding e by simp
qed

end
