(* ===== verification/SmhMonitor.thy ===== *)
theory SmhMonitor
  imports XalarmLib UbFault BmcLog
begin

text \<open>
  \<open>sentry_msg_monitor/sentry_msg_monitor.c\<close>: the bridge between the kernel's sentry_msg_helper
  device and xalarmd. The sender thread reads kernel messages, prints them and reports them as
  alarms; the receiver thread subscribes to the acknowledgements, parses them back into kernel
  messages and hands them to the device. The message structure is its 88 bytes; libobmm's query
  is the argument \<open>obmm\<close>, json-c's printer the argument \<open>J\<close>.
\<close>

section \<open>The message of the kernel\<close>

abbreviation MSG_STR_MAX_LEN :: nat where "MSG_STR_MAX_LEN \<equiv> 1024"
abbreviation MAX_RETRY_NUM :: nat where "MAX_RETRY_NUM \<equiv> 3"
abbreviation SMH_MSG_SIZE :: nat where "SMH_MSG_SIZE \<equiv> 88"
abbreviation SMH_VERSION_MAJOR :: nat where "SMH_VERSION_MAJOR \<equiv> 1"
abbreviation OOM_EVENT_MAX_NUMA_NODES :: nat where "OOM_EVENT_MAX_NUMA_NODES \<equiv> 8"
abbreviation ALARM_REBOOT_EVENT :: int where "ALARM_REBOOT_EVENT \<equiv> 1003"
abbreviation ALARM_REBOOT_ACK_EVENT :: int where "ALARM_REBOOT_ACK_EVENT \<equiv> 1004"
abbreviation ALARM_OOM_EVENT :: int where "ALARM_OOM_EVENT \<equiv> 1005"
abbreviation ALARM_OOM_ACK_EVENT :: int where "ALARM_OOM_ACK_EVENT \<equiv> 1006"
abbreviation ALARM_PANIC_EVENT :: int where "ALARM_PANIC_EVENT \<equiv> 1007"
abbreviation ALARM_PANIC_ACK_EVENT :: int where "ALARM_PANIC_ACK_EVENT \<equiv> 1008"
abbreviation ALARM_KERNEL_REBOOT_EVENT :: int where "ALARM_KERNEL_REBOOT_EVENT \<equiv> 1009"
abbreviation ALARM_KERNEL_REBOOT_ACK_EVENT :: int where "ALARM_KERNEL_REBOOT_ACK_EVENT \<equiv> 1010"
abbreviation ALARM_UBUS_MEM_EVENT :: int where "ALARM_UBUS_MEM_EVENT \<equiv> 1013"
abbreviation ALARM_LINK_EVENT :: int where "ALARM_LINK_EVENT \<equiv> 1016"

datatype smh_type =
    SMH_MESSAGE_POWER_OFF | SMH_MESSAGE_OOM | SMH_MESSAGE_PANIC | SMH_MESSAGE_KERNEL_REBOOT
  | SMH_MESSAGE_UB_MEM_ERR | SMH_MESSAGE_PANIC_ACK | SMH_MESSAGE_KERNEL_REBOOT_ACK
  | SMH_MESSAGE_HEARTBEAT | SMH_MESSAGE_HEARTBEAT_ACK | SMH_MESSAGE_LINK_EVENT | SMH_MESSAGE_UNKNOWN

definition smh_type_of :: "nat \<Rightarrow> smh_type" where
  "smh_type_of n =
     (if n < 10
      then [SMH_MESSAGE_POWER_OFF, SMH_MESSAGE_OOM, SMH_MESSAGE_PANIC, SMH_MESSAGE_KERNEL_REBOOT,
            SMH_MESSAGE_UB_MEM_ERR, SMH_MESSAGE_PANIC_ACK, SMH_MESSAGE_KERNEL_REBOOT_ACK,
            SMH_MESSAGE_HEARTBEAT, SMH_MESSAGE_HEARTBEAT_ACK, SMH_MESSAGE_LINK_EVENT] ! n
      else SMH_MESSAGE_UNKNOWN)"

text \<open>\<open>struct sentry_msg_helper_msg\<close>: the accessors of the fields in the 88 bytes.\<close>

definition field_nat :: "nat \<Rightarrow> nat \<Rightarrow> string \<Rightarrow> nat" where
  "field_nat offs n b = le_nat (take n (drop offs b))"

definition field_int :: "nat \<Rightarrow> string \<Rightarrow> int" where
  "field_int offs b = to_i32 (int (field_nat offs 4 b))"

definition put_bytes :: "nat \<Rightarrow> string \<Rightarrow> string \<Rightarrow> string" where
  "put_bytes offs s b = take offs b @ s @ drop (offs + length s) b"

definition smh_type_field :: "string \<Rightarrow> smh_type" where "smh_type_field b = smh_type_of (field_nat 0 4 b)"
definition smh_msgid :: "string \<Rightarrow> nat" where "smh_msgid b = field_nat 8 8 b"
definition smh_res :: "string \<Rightarrow> nat" where "smh_res b = field_nat 80 8 b"
definition smh_cna :: "string \<Rightarrow> nat" where "smh_cna b = field_nat 32 4 b"
definition smh_eid :: "string \<Rightarrow> string" where "smh_eid b = cstr (drop 36 b)"

section \<open>Set-up\<close>

text \<open>\<open>SMH_VERSION_CHECK\<close> fills major and minor.\<close>

abbreviation SMH_VERSION_CHECK :: int where "SMH_VERSION_CHECK \<equiv> 0x80087D11"
abbreviation SMH_MSG_ACK :: int where "SMH_MSG_ACK \<equiv> 0x7D10"
abbreviation F_SETLK :: int where "F_SETLK \<equiv> 6"
abbreviation F_WRLCK :: int where "F_WRLCK \<equiv> 1"
abbreviation F_UNLCK :: int where "F_UNLCK \<equiv> 2"

definition check_kernel_compat :: "int \<Rightarrow> world \<Rightarrow> (int \<times> world) option" where
  "check_kernel_compat fd w = do {
     (ret, d, w) \<leftarrow> fetch (Q_ioctl fd SMH_VERSION_CHECK []) w;
     if ret < 0 then Some (0, w)
     else if field_nat 0 4 (fill 8 d) \<noteq> SMH_VERSION_MAJOR then Some (- 1, w)
     else Some (0, w) }"

definition handle_file_lock :: "int \<Rightarrow> bool \<Rightarrow> world \<Rightarrow> (int \<times> world) option" where
  "handle_file_lock fd lock w = call (Q_fcntl fd F_SETLK (if lock then F_WRLCK else F_UNLCK)) w"

definition PID_FILE_PATH :: string where "PID_FILE_PATH = ''/var/run/sentry_msg_monitor.pid''"

definition check_and_set_pid_file :: "world \<Rightarrow> (int \<times> world) option" where
  "check_and_set_pid_file w = do {
     (fd, w) \<leftarrow> call (Q_open PID_FILE_PATH (64 OR 2)) w;
     if fd < 0 then Some (- 1, w)
     else do {
       (ret, w) \<leftarrow> handle_file_lock fd True w;
       if ret < 0 then do { (_, w) \<leftarrow> call (Q_close fd) w; Some (ret, w) } else Some (fd, w) } }"

definition release_pid_file :: "int \<Rightarrow> world \<Rightarrow> (int \<times> world) option" where
  "release_pid_file fd w = do {
     (ret, w) \<leftarrow> handle_file_lock fd False w;
     if ret < 0 then do { (_, w) \<leftarrow> call (Q_close fd) w; Some (ret, w) }
     else do {
       (_, w) \<leftarrow> call (Q_close fd) w;
       call (Q_remove PID_FILE_PATH) w } }"

definition smh_dev_get_fd :: "world \<Rightarrow> (int \<times> world) option" where
  "smh_dev_get_fd w = call (Q_open ''/dev/sentry_msg_helper'' 2) w"

section \<open>Printing a kernel message\<close>

text \<open>\<open>enum ras_err_type\<close> 0 to 17 to \<open>enum sentry_ubus_mem_err_type\<close>; 1000 is NO_REPORT.\<close>

definition convert_ubus_type_to_sentry_type :: "int \<Rightarrow> int" where
  "convert_ubus_type_to_sentry_type t =
     (if t = 0 then 0
      else if t = 9 then 1
      else if t = 13 then 2
      else if t = 14 \<or> t = 3 \<or> t = 4 then 3
      else if t = 15 \<or> t = 5 \<or> t = 6 then 4
      else if t = 16 then 5
      else if t = 17 \<or> t = 1 \<or> t = 2 \<or> t = 7 \<or> t = 8 then 6
      else if t = 10 \<or> t = 11 then 1000
      else - 1)"

text \<open>\<open>snprintf (str, 1024, ...)\<close> and the check of its result; the second part is \<open>str\<close>.\<close>

definition print_msg :: "string \<Rightarrow> int \<times> string" where
  "print_msg s = (if MSG_STR_MAX_LEN \<le> length s then - 1 else 0, fst (snprintf MSG_STR_MAX_LEN s))"

definition convert_power_off_smh_smg_to_str :: "string \<Rightarrow> int \<times> string" where
  "convert_power_off_smh_smg_to_str m = print_msg (dec_nat (smh_msgid m))"

text \<open>The node list: \<open>offset\<close> is the length printed so far.\<close>

fun nid_loop :: "string \<Rightarrow> nat list \<Rightarrow> string \<Rightarrow> string option" where
  "nid_loop m [] acc = Some acc"
| "nid_loop m (i # is) acc =
     (let (t, res) = snprintf (MSG_STR_MAX_LEN - length acc)
            (dec_int (field_int (36 + 4 * i) m) @ (if i < OOM_EVENT_MAX_NUMA_NODES - 1 then '','' else []))
      in if int MSG_STR_MAX_LEN \<le> res then None else nid_loop m is (acc @ t))"

definition oom_text :: "string \<Rightarrow> string \<Rightarrow> string" where
  "oom_text m nid_str =
     dec_nat (smh_msgid m) @ ''_{nr_nid:'' @ dec_int (field_int 32 m) @ '',nid:['' @ nid_str @
     ''],sync:'' @ dec_int (field_int 68 m) @ '',timeout:'' @ dec_int (field_int 72 m) @
     '',reason:'' @ dec_int (field_int 76 m) @ ''}''"

definition convert_oom_smh_smg_to_str :: "string \<Rightarrow> world \<Rightarrow> (int \<times> string \<times> world) option" where
  "convert_oom_smh_smg_to_str m w = do {
     (p, w) \<leftarrow> call (Q_malloc MSG_STR_MAX_LEN) w;
     if p < 0 then Some (- 1, [], w)
     else case nid_loop m [0..<OOM_EVENT_MAX_NUMA_NODES] [] of
         None \<Rightarrow> do { (_, w) \<leftarrow> call (Q_free p) w; Some (- 1, [], w) }
       | Some nid_str \<Rightarrow> do {
           let (ret, str) = print_msg (oom_text m nid_str);
           (_, w) \<leftarrow> call (Q_free p) w;
           Some (ret, str, w) } }"

definition remote_text :: "nat \<Rightarrow> nat \<Rightarrow> string \<Rightarrow> string" where
  "remote_text msgid cna eid =
     dec_nat msgid @ ''_{cna:'' @ dec_nat cna @ '',eid:'' @ eid @ ''}''"

definition convert_remote_smh_smg_to_str :: "string \<Rightarrow> int \<times> string" where
  "convert_remote_smh_smg_to_str m = print_msg (remote_text (smh_msgid m) (smh_cna m) (smh_eid m))"

definition to_i64 :: "int \<Rightarrow> int" where
  "to_i64 x = (x + 2 ^ 63) mod 2 ^ 64 - 2 ^ 63"

definition ub_json :: "string \<Rightarrow> int \<Rightarrow> int \<Rightarrow> nat \<Rightarrow> nat \<Rightarrow> json" where
  "ub_json m sentry_type raw_type pa memid =
     JObject [(''msgid'', JInt (to_i64 (int (smh_msgid m)))),
              (''sentry_ubus_mem_err_type'', JInt sentry_type),
              (''raw_ubus_mem_err_type'', JInt raw_type),
              (''pa'', JString (''0x'' @ hex_nat pa)),
              (''memid'', JInt (to_i64 (int memid)))]"

definition convert_ub_mem_err_smh_msg_to_str ::
  "(json \<Rightarrow> string) \<Rightarrow> (nat \<Rightarrow> (nat \<times> u64) option) \<Rightarrow> string \<Rightarrow> world \<Rightarrow> (int \<times> string \<times> world) option" where
  "convert_ub_mem_err_smh_msg_to_str J obmm m w =
     (let raw_err_type = field_int 48 m;
          sentry_err_type = convert_ubus_type_to_sentry_type raw_err_type;
          pa = field_nat 32 8 m
      in if sentry_err_type = 1000 then Some (- 1, [], w)
         else if sentry_err_type = - 1 then Some (- 1, [], w)
         else case obmm pa of
             None \<Rightarrow> Some (- 1, [], w)
           | Some (memid, obmm_offset) \<Rightarrow> do {
               w \<leftarrow> (if field_int 40 m = 0 \<and> field_int 44 m \<noteq> 0 then do {
                       (_, w) \<leftarrow> find_and_send_sigbus_to_thread memid obmm_offset w;
                       Some w }
                     else Some w);
               (r, w) \<leftarrow> call (Q_library ''json_object_to_json_string'' []) w;
               if r < 0 then Some (- 1, [], w)
               else do {
                 let (ret, str) = print_msg (J (ub_json m sentry_err_type raw_err_type pa memid));
                 Some (ret, str, w) } })"

definition convert_link_event_smh_msg_to_str :: "string \<Rightarrow> int \<times> string" where
  "convert_link_event_smh_msg_to_str m = print_msg
     (dec_nat (smh_msgid m) @ ''_{port_id:'' @ dec_nat (field_nat 32 2 m) @ '',scna:'' @
      dec_nat (field_nat 36 4 m) @ '',event:'' @ (if field_int 40 m \<noteq> 0 then ''up'' else ''down'') @ ''}'')"

definition convert_smh_msg_to_str ::
  "(json \<Rightarrow> string) \<Rightarrow> (nat \<Rightarrow> (nat \<times> u64) option) \<Rightarrow> string \<Rightarrow> world \<Rightarrow> (int \<times> string \<times> world) option" where
  "convert_smh_msg_to_str J obmm m w =
     (let pure = (\<lambda>(r, s). Some (r, s, w)) in
      case smh_type_field m of
        SMH_MESSAGE_POWER_OFF \<Rightarrow> pure (convert_power_off_smh_smg_to_str m)
      | SMH_MESSAGE_OOM \<Rightarrow> convert_oom_smh_smg_to_str m w
      | SMH_MESSAGE_PANIC \<Rightarrow> pure (convert_remote_smh_smg_to_str m)
      | SMH_MESSAGE_KERNEL_REBOOT \<Rightarrow> pure (convert_remote_smh_smg_to_str m)
      | SMH_MESSAGE_UB_MEM_ERR \<Rightarrow> convert_ub_mem_err_smh_msg_to_str J obmm m w
      | SMH_MESSAGE_LINK_EVENT \<Rightarrow> pure (convert_link_event_smh_msg_to_str m)
      | _ \<Rightarrow> Some (- 1, [], w))"

definition convert_msg_type_to_xalarm_type :: "smh_type \<Rightarrow> int" where
  "convert_msg_type_to_xalarm_type t = (case t of
      SMH_MESSAGE_POWER_OFF \<Rightarrow> ALARM_REBOOT_EVENT
    | SMH_MESSAGE_OOM \<Rightarrow> ALARM_OOM_EVENT
    | SMH_MESSAGE_PANIC \<Rightarrow> ALARM_PANIC_EVENT
    | SMH_MESSAGE_KERNEL_REBOOT \<Rightarrow> ALARM_KERNEL_REBOOT_EVENT
    | SMH_MESSAGE_UB_MEM_ERR \<Rightarrow> ALARM_UBUS_MEM_EVENT
    | SMH_MESSAGE_LINK_EVENT \<Rightarrow> ALARM_LINK_EVENT
    | _ \<Rightarrow> 0)"

section \<open>Parsing an acknowledgement\<close>

text \<open>\<open>%lu\<close> and \<open>%u\<close> of \<open>sscanf\<close>, and a literal of the format.\<close>

definition scan_lu :: "string \<Rightarrow> (nat \<times> string) option" where
  "scan_lu s = (case scan_number s of
      None \<Rightarrow> None | Some _ \<Rightarrow> (let (v, r, _) = strtoull s in Some (nat v, r)))"

definition scan_u :: "string \<Rightarrow> (nat \<times> string) option" where
  "scan_u s = map_option (\<lambda>(v, r). (v mod 2 ^ 32, r)) (scan_lu s)"

definition scan_lit :: "string \<Rightarrow> string \<Rightarrow> string option" where
  "scan_lit p s = (if starts_with p s then Some (drop (length p) s) else None)"

text \<open>\<open>%39[^}]\<close>: at least one and at most 39 characters other than a closing brace.\<close>

definition scan_eid :: "string \<Rightarrow> (string \<times> string) option" where
  "scan_eid s = (let x = take 39 (takeWhile (\<lambda>c. c \<noteq> CHR ''}'') s)
                 in if x = [] then None else Some (x, drop (length x) s))"

text \<open>What each conversion stores; the bytes stored before a failing one stay in the message.\<close>

definition set_msgid :: "nat \<Rightarrow> string \<Rightarrow> string" where "set_msgid n m = put_bytes 8 (le_bytes 8 n) m"
definition set_cna :: "nat \<Rightarrow> string \<Rightarrow> string" where "set_cna n m = put_bytes 32 (le_bytes 4 n) m"
definition set_eid :: "string \<Rightarrow> string \<Rightarrow> string" where "set_eid s m = put_bytes 36 (s @ [NUL]) m"
definition set_res :: "nat \<Rightarrow> string \<Rightarrow> string" where "set_res n m = put_bytes 80 (le_bytes 8 n) m"

definition parse_general_ack :: "string \<Rightarrow> string \<Rightarrow> int \<times> string" where
  "parse_general_ack s m = (case scan_lu s of
      None \<Rightarrow> (- 1, m)
    | Some (msgid, r) \<Rightarrow>
        (let m = set_msgid msgid m in
         case Option.bind (scan_lit ''_'' r) scan_lu of
           None \<Rightarrow> (- 1, m)
         | Some (res, r) \<Rightarrow> (if r \<noteq> [] then - 1 else 0, set_res res m)))"

definition parse_remote_ack :: "string \<Rightarrow> string \<Rightarrow> int \<times> string" where
  "parse_remote_ack s m = (case scan_lu s of
      None \<Rightarrow> (- 1, m)
    | Some (msgid, r) \<Rightarrow>
        (let m = set_msgid msgid m in
         case Option.bind (scan_lit ''_{cna:'' r) scan_u of
           None \<Rightarrow> (- 1, m)
         | Some (cna, r) \<Rightarrow>
             (let m = set_cna cna m in
              case Option.bind (scan_lit '',eid:'' r) scan_eid of
                None \<Rightarrow> (- 1, m)
              | Some (eid, r) \<Rightarrow>
                  (let m = set_eid eid m in
                   case Option.bind (scan_lit ''}_'' r) scan_lu of
                     None \<Rightarrow> (- 1, m)
                   | Some (res, r) \<Rightarrow> (if r \<noteq> [] then - 1 else 0, set_res res m)))))"

definition convert_str_to_smh_msg :: "alarm_msg \<Rightarrow> string \<Rightarrow> int \<times> string" where
  "convert_str_to_smh_msg al_msg m =
     (if msg_id al_msg = ALARM_REBOOT_ACK_EVENT \<or> msg_id al_msg = ALARM_OOM_ACK_EVENT
      then parse_general_ack (msg_paras al_msg) m
      else if msg_id al_msg = ALARM_PANIC_ACK_EVENT \<or> msg_id al_msg = ALARM_KERNEL_REBOOT_ACK_EVENT
      then parse_remote_ack (msg_paras al_msg) m
      else (- 1, m))"

section \<open>The sender\<close>

text \<open>
  The retries of a report: \<open>n\<close> attempts left, the last return value. -EINVAL and any other
  negative value end them; a bad connection sleeps a second and tries again.
\<close>

fun report_retry :: "nat \<Rightarrow> int \<Rightarrow> string \<Rightarrow> int \<Rightarrow> world \<Rightarrow> (int \<times> world) option" where
  "report_retry 0 alarm_type str ret w = Some (ret, w)"
| "report_retry (Suc n) alarm_type str ret w = do {
     (ret, w) \<leftarrow> xalarm_report_event alarm_type (Some str) (length str) w;
     if ret = 0 then Some (ret, w)
     else if ret = - EINVAL then Some (ret, w)
     else if ret = - ENOTCONN \<or> ret = - ECOMM \<or> ret = - ENODEV then do {
       (_, w) \<leftarrow> call (Q_sleep 1) w;
       report_retry n alarm_type str ret w }
     else if ret < 0 then Some (ret, w)
     else report_retry n alarm_type str ret w }"

text \<open>
  One message: read, print, report. The result says whether the loop goes on.
\<close>

definition sender_iter ::
  "(json \<Rightarrow> string) \<Rightarrow> (nat \<Rightarrow> (nat \<times> u64) option) \<Rightarrow> int \<Rightarrow> world \<Rightarrow> (bool \<times> world) option" where
  "sender_iter J obmm fd w = do {
     (ret, m, w) \<leftarrow> fetch (Q_read fd SMH_MSG_SIZE) (w\<lparr>errno := 0\<rparr>);
     if ret \<noteq> int SMH_MSG_SIZE then
       Some (errno w = ERESTART \<or> errno w = EFAULT \<or> errno w = EAGAIN, w)
     else do {
       (ret, str, w) \<leftarrow> convert_smh_msg_to_str J obmm m w;
       if ret < 0 then Some (True, w)
       else do {
         let alarm_type = convert_msg_type_to_xalarm_type (smh_type_field m);
         if alarm_type = 0 then Some (True, w)
         else do {
           (_, w) \<leftarrow> report_retry MAX_RETRY_NUM alarm_type str 0 w;
           Some (True, w) } } } }"

partial_function (option) sender_loop ::
  "(json \<Rightarrow> string) \<Rightarrow> (nat \<Rightarrow> (nat \<times> u64) option) \<Rightarrow> int \<Rightarrow> world \<Rightarrow> world option" where
  "sender_loop J obmm fd w = do {
     (go, w) \<leftarrow> sender_iter J obmm fd w;
     if go then sender_loop J obmm fd w else Some w }"

text \<open>\<open>partner\<close> is the other thread's identifier, 0 when it has none yet.\<close>

definition cancel_partner :: "int \<Rightarrow> world \<Rightarrow> world option" where
  "cancel_partner partner w =
     (if partner \<noteq> 0 then do { (_, w) \<leftarrow> call (Q_thread_cancel partner) w; Some w } else Some w)"

definition sender_thread ::
  "(json \<Rightarrow> string) \<Rightarrow> (nat \<Rightarrow> (nat \<times> u64) option) \<Rightarrow> int \<Rightarrow> world \<Rightarrow> world option" where
  "sender_thread J obmm partner w = do {
     (fd, w) \<leftarrow> smh_dev_get_fd w;
     if fd < 0 then cancel_partner partner w
     else do {
       (str, w) \<leftarrow> call (Q_malloc MSG_STR_MAX_LEN) w;
       if str < 0 then do { (_, w) \<leftarrow> call (Q_close fd) w; cancel_partner partner w }
       else do {
         w \<leftarrow> sender_loop J obmm fd w;
         w \<leftarrow> (if 0 < fd then do { (_, w) \<leftarrow> call (Q_close fd) w; Some w } else Some w);
         (_, w) \<leftarrow> call (Q_free str) w;
         cancel_partner partner w } } }"

text \<open>The clean-up handlers, for a thread that is cancelled.\<close>

record sender_cleanup_data =
  scd_fd :: int
  scd_str :: "int option"

definition sender_cleanup :: "sender_cleanup_data \<Rightarrow> world \<Rightarrow> (sender_cleanup_data \<times> world) option" where
  "sender_cleanup scd w = do {
     (scd, w) \<leftarrow> (if 0 < scd_fd scd then do {
                     (_, w) \<leftarrow> call (Q_close (scd_fd scd)) w;
                     Some (scd\<lparr>scd_fd := - 1\<rparr>, w) }
                   else Some (scd, w));
     (case scd_str scd of
        None \<Rightarrow> Some (scd, w)
      | Some p \<Rightarrow> do {
          (_, w) \<leftarrow> call (Q_free p) w;
          Some (scd\<lparr>scd_str := None\<rparr>, w) }) }"

record receiver_cleanup_data =
  rcd_fd :: int
  rcd_al_msg :: "int option"
  rcd_register :: "alarm_register option"

definition receiver_cleanup :: "receiver_cleanup_data \<Rightarrow> world \<Rightarrow> (receiver_cleanup_data \<times> world) option" where
  "receiver_cleanup rcd w = do {
     (rcd, w) \<leftarrow> (if 0 < rcd_fd rcd then do {
                     (_, w) \<leftarrow> call (Q_close (rcd_fd rcd)) w;
                     Some (rcd\<lparr>rcd_fd := - 1\<rparr>, w) }
                   else Some (rcd, w));
     (rcd, w) \<leftarrow> (case rcd_al_msg rcd of
        None \<Rightarrow> Some (rcd, w)
      | Some p \<Rightarrow> do { (_, w) \<leftarrow> call (Q_free p) w; Some (rcd\<lparr>rcd_al_msg := None\<rparr>, w) });
     w \<leftarrow> xalarm_unregister_event (rcd_register rcd) w;
     Some (rcd\<lparr>rcd_register := None\<rparr>, w) }"

section \<open>The receiver\<close>

definition receiver_filter :: alarm_subscription_info where
  "receiver_filter =
     \<lparr>id_list = [ALARM_REBOOT_ACK_EVENT, ALARM_OOM_ACK_EVENT, ALARM_PANIC_ACK_EVENT,
                 ALARM_KERNEL_REBOOT_ACK_EVENT] @ replicate 124 0, sub_len = 4\<rparr>"

text \<open>The registration with its retries: the last status and the handle.\<close>

fun register_retry ::
  "(json \<Rightarrow> string) \<Rightarrow> nat \<Rightarrow> world \<Rightarrow> (alarm_register option \<times> world) option" where
  "register_retry J 0 w = Some (None, w)"
| "register_retry J (Suc n) w = do {
     (ret, reg, w) \<leftarrow> xalarm_register_event J True receiver_filter w;
     if ret = 0 then Some (reg, w)
     else if ret = - ENOTCONN then do {
       (_, w) \<leftarrow> call (Q_sleep 1) w;
       register_retry J n w }
     else Some (None, w) }"

text \<open>
  The acknowledgement ioctl with its retries: the last result, and whether the thread leaves for
  \<open>un_register\<close>.
\<close>

fun ack_retry :: "nat \<Rightarrow> int \<Rightarrow> string \<Rightarrow> int \<Rightarrow> world \<Rightarrow> (int \<times> bool \<times> world) option" where
  "ack_retry 0 fd m ret w = Some (ret, False, w)"
| "ack_retry (Suc n) fd m ret w = do {
     (ret, w) \<leftarrow> call (Q_ioctl fd SMH_MSG_ACK m) (w\<lparr>errno := 0\<rparr>);
     if ret = 0 then Some (ret, False, w)
     else if errno w = ERESTART \<or> errno w = ETIME \<or> errno w = ENOENT then Some (ret, False, w)
     else if errno w = EFAULT then do {
       (_, w) \<leftarrow> call (Q_sleep 1) w;
       ack_retry n fd m ret w }
     else if ret < 0 then Some (ret, True, w)
     else ack_retry n fd m ret w }"

text \<open>
  What one wake-up of the receiver leads to: go on with the message buffer, register again, or
  leave. \<open>junk\<close> is the uninitialised buffer of \<open>report_power_off_result_to_bmc\<close>.
\<close>

datatype wakeup = Go_on string | Re_register | Un_register

definition receiver_iter ::
  "string \<Rightarrow> int \<Rightarrow> alarm_register \<Rightarrow> string \<Rightarrow> world \<Rightarrow> (wakeup \<times> world) option" where
  "receiver_iter junk fd reg m w = do {
     (_, w) \<leftarrow> call (Q_usleep 1) w;
     (ret, msg, w) \<leftarrow> xalarm_get_event True (Some reg) w;
     if ret = - ENOTCONN \<or> ret = - ECONNRESET \<or> ret = - EBADF then Some (Re_register, w)
     else if ret < 0 then Some (Un_register, w)
     else do {
       let al_msg = the msg;
       let (ret, m) = convert_str_to_smh_msg al_msg m;
       if ret < 0 then Some (Go_on m, w)
       else do {
         (ret, leave, w) \<leftarrow> ack_retry MAX_RETRY_NUM fd m 0 w;
         w \<leftarrow> (if msg_id al_msg = ALARM_REBOOT_ACK_EVENT then do {
                  (_, w) \<leftarrow> report_result_to_bmc junk (to_i32 (int (smh_res m))) ret w;
                  Some w }
                else Some w);
         Some (if leave then Un_register else Go_on m, w) } } }"

text \<open>The loop; the handle on return is \<open>None\<close> when a registration failed.\<close>

partial_function (option) receiver_loop ::
  "(json \<Rightarrow> string) \<Rightarrow> string \<Rightarrow> int \<Rightarrow> alarm_register \<Rightarrow> string \<Rightarrow> world
     \<Rightarrow> (alarm_register option \<times> world) option" where
  "receiver_loop J junk fd reg m w = do {
     (k, w) \<leftarrow> receiver_iter junk fd reg m w;
     case k of
       Go_on m \<Rightarrow> receiver_loop J junk fd reg m w
     | Un_register \<Rightarrow> Some (Some reg, w)
     | Re_register \<Rightarrow> do {
         w \<leftarrow> xalarm_unregister_event (Some reg) w;
         (r, w) \<leftarrow> register_retry J MAX_RETRY_NUM w;
         case r of None \<Rightarrow> Some (None, w) | Some reg \<Rightarrow> receiver_loop J junk fd reg m w } }"

definition receiver_thread ::
  "(json \<Rightarrow> string) \<Rightarrow> string \<Rightarrow> string \<Rightarrow> int \<Rightarrow> world \<Rightarrow> world option" where
  "receiver_thread J junk m partner w = do {
     (fd, w) \<leftarrow> smh_dev_get_fd w;
     if fd < 0 then cancel_partner partner w
     else do {
       let close_fd = (\<lambda>w. do {
         w \<leftarrow> (if 0 < fd then do { (_, w) \<leftarrow> call (Q_close fd) w; Some w } else Some w);
         cancel_partner partner w });
       (al_msg, w) \<leftarrow> call (Q_malloc 8216) w;
       if al_msg < 0 then close_fd w
       else do {
         (r, w) \<leftarrow> register_retry J MAX_RETRY_NUM w;
         w \<leftarrow> (case r of
                  None \<Rightarrow> Some w
                | Some reg \<Rightarrow> do {
                    (reg, w) \<leftarrow> receiver_loop J junk fd reg m w;
                    xalarm_unregister_event reg w });
         (_, w) \<leftarrow> call (Q_free al_msg) w;
         close_fd w } } }"

section \<open>main\<close>

definition smh_main :: "world \<Rightarrow> (int \<times> world) option" where
  "smh_main w = do {
     (pid_fd, w) \<leftarrow> check_and_set_pid_file w;
     if pid_fd < 0 then Some (pid_fd, w)
     else do {
       (smh_fd, w) \<leftarrow> smh_dev_get_fd w;
       if smh_fd < 0 then do { (_, w) \<leftarrow> release_pid_file pid_fd w; Some (smh_fd, w) }
       else do {
         (ret, w) \<leftarrow> check_kernel_compat smh_fd w;
         if ret < 0 then do {
           (_, w) \<leftarrow> call (Q_close smh_fd) w;
           (_, w) \<leftarrow> release_pid_file pid_fd w;
           Some (ret, w) }
         else do {
           (_, w) \<leftarrow> call (Q_close smh_fd) w;
           (sender, w) \<leftarrow> call (Q_thread_create ''sender_thread'') w;
           (ret, w) \<leftarrow>
             (if sender < 0 then Some (errno w, w)
              else do {
                (receiver, w) \<leftarrow> call (Q_thread_create ''receiver_thread'') w;
                if receiver < 0 then do {
                  let ret = errno w;
                  (_, w) \<leftarrow> call (Q_thread_cancel sender) w;
                  (_, w) \<leftarrow> call (Q_thread_join sender) w;
                  Some (ret, w) }
                else do {
                  (_, w) \<leftarrow> call (Q_thread_join sender) w;
                  (_, w) \<leftarrow> call (Q_thread_join receiver) w;
                  Some (0, w) } });
           (_, w) \<leftarrow> release_pid_file pid_fd w;
           Some (ret, w) } } } }"

section \<open>Acknowledgements\<close>

lemma length_put_bytes [simp]: "offs + length s \<le> length b \<Longrightarrow> length (put_bytes offs s b) = length b"
  by (simp add: put_bytes_def)

lemma drop_put_same [simp]:
  "offs + length s \<le> length b \<Longrightarrow> n = length s \<Longrightarrow> take n (drop offs (put_bytes offs s b)) = s"
  by (simp add: put_bytes_def)

lemma put_bytes_nth:
  "offs + length s \<le> length b \<Longrightarrow> i < length b \<Longrightarrow>
   put_bytes offs s b ! i = (if offs \<le> i \<and> i < offs + length s then s ! (i - offs) else b ! i)"
  by (auto simp: put_bytes_def nth_append)

lemma take_drop_put_other [simp]:
  "offs + length s \<le> length b \<Longrightarrow> k + n \<le> offs \<or> offs + length s \<le> k \<Longrightarrow>
   take n (drop k (put_bytes offs s b)) = take n (drop k b)"
  by (rule nth_equalityI) (auto simp: put_bytes_nth)

text \<open>Every field keeps what was stored in it when another one is written.\<close>

lemmas smh_field_defs = smh_msgid_def smh_res_def smh_cna_def set_msgid_def set_res_def set_cna_def
  set_eid_def field_nat_def

lemma length_set [simp]:
  "length m = SMH_MSG_SIZE \<Longrightarrow> length (set_msgid n m) = SMH_MSG_SIZE"
  "length m = SMH_MSG_SIZE \<Longrightarrow> length (set_res n m) = SMH_MSG_SIZE"
  "length m = SMH_MSG_SIZE \<Longrightarrow> length (set_cna n m) = SMH_MSG_SIZE"
  "length m = SMH_MSG_SIZE \<Longrightarrow> length s \<le> 39 \<Longrightarrow> length (set_eid s m) = SMH_MSG_SIZE"
  by (simp_all add: smh_field_defs)

lemma field_set [simp]:
  "length m = SMH_MSG_SIZE \<Longrightarrow> n < 2 ^ 64 \<Longrightarrow> smh_msgid (set_msgid n m) = n"
  "length m = SMH_MSG_SIZE \<Longrightarrow> n < 2 ^ 64 \<Longrightarrow> smh_res (set_res n m) = n"
  "length m = SMH_MSG_SIZE \<Longrightarrow> n < 2 ^ 32 \<Longrightarrow> smh_cna (set_cna n m) = n"
  unfolding smh_field_defs by (subst drop_put_same; simp)+

lemma takeWhile_prefix:
  "take k ys = take k xs \<Longrightarrow> length (takeWhile P xs) < k \<Longrightarrow> k \<le> length xs \<Longrightarrow> takeWhile P ys = takeWhile P xs"
proof (induction k arbitrary: xs ys)
  case (Suc k)
  then obtain x xs' where x: "xs = x # xs'" by (cases xs) auto
  then obtain ys' where y: "ys = x # ys'" "take k ys' = take k xs'" using Suc.prems by (cases ys) auto
  show ?case
  proof (cases "P x")
    case True
    then have "takeWhile P ys' = takeWhile P xs'" using Suc.prems x y by (intro Suc.IH) auto
    then show ?thesis using x y True by simp
  qed (use x y in simp)
qed simp

lemma cstr_eid: "length m = SMH_MSG_SIZE \<Longrightarrow> length s \<le> 39 \<Longrightarrow> NUL \<notin> set s \<Longrightarrow> smh_eid (set_eid s m) = s"
    by (simp add: smh_eid_def set_eid_def put_bytes_def cstr_def) (subst takeWhile_append2, auto)

lemma field_other [simp]:
  "length m = SMH_MSG_SIZE \<Longrightarrow> smh_msgid (set_res n m) = smh_msgid m"
  "length m = SMH_MSG_SIZE \<Longrightarrow> smh_msgid (set_cna n m) = smh_msgid m"
  "length m = SMH_MSG_SIZE \<Longrightarrow> length s \<le> 39 \<Longrightarrow> smh_msgid (set_eid s m) = smh_msgid m"
  "length m = SMH_MSG_SIZE \<Longrightarrow> smh_cna (set_res n m) = smh_cna m"
  "length m = SMH_MSG_SIZE \<Longrightarrow> length s \<le> 39 \<Longrightarrow> smh_cna (set_eid s m) = smh_cna m"
  by (simp_all add: smh_field_defs)

lemma smh_eid_set_res:
  assumes "length m = SMH_MSG_SIZE" and "length (smh_eid m) \<le> 39"
  shows "smh_eid (set_res n m) = smh_eid m"
proof -
  have t: "take 44 (drop 36 (set_res n m)) = take 44 (drop 36 m)"
    using assms(1) by (simp add: set_res_def)
  have l: "length (takeWhile (\<lambda>c. c \<noteq> NUL) (drop 36 m)) < 44" using assms(2) by (simp add: smh_eid_def cstr_def)
  show ?thesis using takeWhile_prefix[OF t l] assms(1) by (simp add: smh_eid_def cstr_def)
qed


lemma scan_lu_dec [simp]: "no_digit_hd rest \<Longrightarrow> n < 2 ^ 64 \<Longrightarrow> scan_lu (dec_nat n @ rest) = Some (n, rest)"
  by (simp add: scan_lu_def scan_dec_nat strtoull_dec_nat)

lemma scan_lu_dec0 [simp]: "n < 2 ^ 64 \<Longrightarrow> scan_lu (dec_nat n) = Some (n, [])"
  using scan_lu_dec[of "[]" n] by (simp add: no_digit_hd_def)

lemma scan_u_dec [simp]: "no_digit_hd rest \<Longrightarrow> n < 2 ^ 32 \<Longrightarrow> scan_u (dec_nat n @ rest) = Some (n, rest)"
  by (simp add: scan_u_def)

lemma scan_lit_append [simp]: "scan_lit p (p @ s) = Some s"
  by (simp add: scan_lit_def)

definition eid_ok :: "string \<Rightarrow> bool" where
  "eid_ok e \<longleftrightarrow> e \<noteq> [] \<and> length e \<le> 39 \<and> CHR ''}'' \<notin> set e"

lemma scan_eid_append [simp]: "eid_ok e \<Longrightarrow> scan_eid (e @ ''}_'' @ s) = Some (e, ''}_'' @ s)"
  by (auto simp: eid_ok_def scan_eid_def Let_def takeWhile_append)

lemma no_digit_hd_lit [simp]:
  "no_digit_hd (''_'' @ s)" "no_digit_hd (''_{cna:'' @ s)" "no_digit_hd ('',eid:'' @ s)"
  by (simp_all add: no_digit_hd_def is_digit_def)

lemma smh_eid_no_nul: "NUL \<notin> set (smh_eid m)"
  by (auto simp: smh_eid_def cstr_def dest: set_takeWhileD)

lemma le_nat_less: "le_nat s < 256 ^ length s"
proof -
  have "le_nat s = le_nat s mod 256 ^ length s" using le_nat_bytes[of "length s" "le_nat s"] le_bytes_inj by simp
  then show ?thesis by (metis mod_less_divisor zero_less_numeral zero_less_power)
qed

lemma field_nat_less: "field_nat offs n b < 256 ^ n"
proof -
  have "field_nat offs n b < 256 ^ length (take n (drop offs b))" unfolding field_nat_def by (rule le_nat_less)
  also have "\<dots> \<le> 256 ^ n" by (rule power_increasing) simp_all
  finally show ?thesis .
qed

lemma smh_msgid_less: "smh_msgid m < 2 ^ 64" and smh_cna_less: "smh_cna m < 2 ^ 32"
  using field_nat_less[of 8 8 m] field_nat_less[of 32 4 m] by (simp_all add: smh_msgid_def smh_cna_def)

lemma parse_remote:
  assumes "length m = SMH_MSG_SIZE" and "a < 2 ^ 64" and "c < 2 ^ 32" and "eid_ok e" and "NUL \<notin> set e" and "r < 2 ^ 64"
  shows "\<exists>m'. parse_remote_ack (remote_text a c e @ ''_'' @ dec_nat r) m = (0, m') \<and>
    smh_msgid m' = a \<and> smh_cna m' = c \<and> smh_eid m' = e \<and> smh_res m' = r \<and> length m' = SMH_MSG_SIZE"
proof -
  have l: "length e \<le> 39" using assms(4) by (simp add: eid_ok_def)
  have t: "remote_text a c e @ ''_'' @ dec_nat r =
      dec_nat a @ ''_{cna:'' @ (dec_nat c @ ('',eid:'' @ (e @ (''}_'' @ dec_nat r))))" by (simp add: remote_text_def)
  let ?m = "set_res r (set_eid e (set_cna c (set_msgid a m)))"
  have "parse_remote_ack (remote_text a c e @ ''_'' @ dec_nat r) m = (0, ?m)"
    unfolding t parse_remote_ack_def
    by (simp only: scan_lu_dec no_digit_hd_lit assms option.case prod.case Let_def scan_lit_append bind.bind_lunit
        scan_u_dec scan_eid_append scan_lu_dec0 simp_thms if_False)
  moreover have "smh_eid ?m = e" using assms l by (subst smh_eid_set_res) (simp_all add: cstr_eid)
  ultimately show ?thesis using assms l by (intro exI[of _ ?m]) simp
qed


lemma remote_text_length: "eid_ok e \<Longrightarrow> a < 2 ^ 64 \<Longrightarrow> c < 2 ^ 32 \<Longrightarrow> length (remote_text a c e) < MSG_STR_MAX_LEN"
  using length_dec_nat[of a 20] length_dec_nat[of c 10] by (simp add: remote_text_def eid_ok_def)

lemma print_msg_short: "length s < MSG_STR_MAX_LEN \<Longrightarrow> print_msg s = (0, s)"
  by (simp add: print_msg_def snprintf_def)


definition demo_panic :: string where
  "demo_panic = put_bytes 0 (le_bytes 4 2) (set_msgid 77 (set_cna 5 (set_eid ''fe80'' (replicate 88 NUL))))"

definition demo_ack :: alarm_msg where
  "demo_ack = \<lparr>msg_id = ALARM_PANIC_ACK_EVENT, msg_time = (0, 0), msg_paras = ''77_{cna:5,eid:fe80}'' @ ''_'' @ dec_nat 3\<rparr>"


text \<open>An acknowledgement of a power-off or out-of-memory message is the message's identifier, an
  underscore and the result: exactly these numbers are stored, and a text that goes on after the
  result is refused.\<close>

lemma general_ack_roundtrip:
  assumes "msg_id al = ALARM_REBOOT_ACK_EVENT \<or> msg_id al = ALARM_OOM_ACK_EVENT" and "length m0 = SMH_MSG_SIZE"
    and "msg_paras al = dec_nat a @ ''_'' @ dec_nat res @ rest" and "a < 2 ^ 64" and "res < 2 ^ 64"
    and "no_digit_hd rest"
  shows "\<exists>m'. convert_str_to_smh_msg al m0 = (if rest = [] then 0 else - 1, m') \<and>
    smh_msgid m' = a \<and> smh_res m' = res"
proof -
  have "parse_general_ack (dec_nat a @ ''_'' @ dec_nat res @ rest) m0 =
      (if rest = [] then 0 else - 1, set_res res (set_msgid a m0))"
    unfolding parse_general_ack_def
    by (simp only: scan_lu_dec no_digit_hd_lit assms option.case prod.case Let_def scan_lit_append bind.bind_lunit) simp
  then show ?thesis using assms(1-5) by (auto simp: convert_str_to_smh_msg_def)
qed

lemma general_ack_roundtrip_example:
  "\<exists>m'. convert_str_to_smh_msg \<lparr>msg_id = ALARM_REBOOT_ACK_EVENT, msg_time = (0, 0),
      msg_paras = dec_nat 12 @ ''_'' @ dec_nat 0 @ []\<rparr> (replicate 88 NUL) = (0, m') \<and> smh_msgid m' = 12 \<and> smh_res m' = 0"
  using general_ack_roundtrip[of "\<lparr>msg_id = ALARM_REBOOT_ACK_EVENT, msg_time = (0, 0),
      msg_paras = dec_nat 12 @ ''_'' @ dec_nat 0 @ []\<rparr>" "replicate 88 NUL" 12 0 "[]"]
  by (simp add: no_digit_hd_def)

section \<open>Resources of the sender\<close>

lemmas find_and_send_intros = find_and_send_returns[OF refl order_refl, THEN returns_mono, unfolded split_paired_all split_conv]

lemma convert_oom_returns:
  "returns (convert_oom_smh_smg_to_str m w)
     (\<lambda>(r, s, v). balance v = balance w \<and> length (script v) \<le> length (script w))"
  unfolding convert_oom_smh_smg_to_str_def by (intro ret_intros) (auto simp: fun_eq_iff req_delta_def)

lemma convert_ub_returns:
  "returns (convert_ub_mem_err_smh_msg_to_str J obmm m w)
     (\<lambda>(r, s, v). balance v = balance w \<and> length (script v) \<le> length (script w))"
  unfolding convert_ub_mem_err_smh_msg_to_str_def
  by (intro find_and_send_intros ret_intros) (auto simp: fun_eq_iff)

lemmas convert_intros = convert_oom_returns[THEN returns_mono, unfolded split_paired_all split_conv]
  convert_ub_returns[THEN returns_mono, unfolded split_paired_all split_conv]

lemma convert_smh_returns:
  "returns (convert_smh_msg_to_str J obmm m w)
     (\<lambda>(r, s, v). balance v = balance w \<and> length (script v) \<le> length (script w))"
  unfolding convert_smh_msg_to_str_def Let_def
  by (cases "smh_type_field m") (auto intro!: convert_intros ret_intros)

lemma report_retry_returns:
  "balance w = b \<Longrightarrow> length (script w) \<le> n \<Longrightarrow> returns (report_retry k t s r w)
     (\<lambda>(r, v). balance v = b \<and> length (script v) \<le> n)"
proof (induction k arbitrary: r w n)
  case (Suc k)
  show ?case unfolding report_retry.simps
    by (intro report_event_returns[THEN returns_mono, unfolded split_paired_all split_conv] ret_intros Suc.IH)
       (use Suc.prems in \<open>auto simp: fun_eq_iff\<close>)
qed (simp add: returns_Some)

lemma sender_iter_returns:
  "balance w = b \<Longrightarrow> returns (sender_iter J obmm fd w)
     (\<lambda>(go, v). balance v = b \<and> length (script v) < length (script w))"
  unfolding sender_iter_def
  by (intro convert_smh_returns[THEN returns_mono, unfolded split_paired_all split_conv]
      report_retry_returns[OF refl order_refl, THEN returns_mono, unfolded split_paired_all split_conv] ret_intros)
     (auto simp: fun_eq_iff)

lemma sender_loop_returns:
  "balance w = b \<Longrightarrow> returns (sender_loop J obmm fd w) (\<lambda>v. balance v = b)"
proof (induction "length (script w)" arbitrary: w rule: less_induct)
  case less
  show ?case
    by (subst sender_loop.simps,
        intro sender_iter_returns[OF refl, THEN returns_mono, unfolded split_paired_all split_conv] ret_intros less.hyps)
       (use less.prems in auto)
qed

lemma cancel_partner_returns: "balance w = b \<Longrightarrow> returns (cancel_partner p w) (\<lambda>v. balance v = b)"
  unfolding cancel_partner_def by (intro ret_intros) (auto simp: fun_eq_iff)

lemma sender_thread_returns:
  "returns (sender_thread J obmm p w) (\<lambda>v. \<forall>x. x \<noteq> Fd 0 \<longrightarrow> balance v x = balance w x)"
  unfolding sender_thread_def smh_dev_get_fd_def
  by (intro sender_loop_returns[OF refl, THEN returns_mono] cancel_partner_returns[OF refl, THEN returns_mono] ret_intros)
     (auto simp: req_delta_def)


declare sender_loop.simps [code]


section \<open>Delivery\<close>

text \<open>The whole alarm records sent so far.\<close>

definition full_alarms :: "world \<Rightarrow> (string \<times> string) list" where
  "full_alarms w = filter (\<lambda>(p, d). length d = ALARM_INFO_SIZE) (dgrams w)"

definition alarm_for :: "int \<Rightarrow> string \<Rightarrow> string \<Rightarrow> bool" where
  "alarm_for aid str d \<longleftrightarrow> length d = ALARM_INFO_SIZE \<and> usAlarmId (decode_alarm_info d) = aid \<and>
     cstr (pucParas (decode_alarm_info d)) = str"

lemma report_event_full:
  "returns (xalarm_report_event aid (Some str) (length str) w)
     (\<lambda>(r, v). if r = 0 then (\<exists>d. full_alarms v = full_alarms w @ [(PATH_REPORT_ALARM, d)] \<and> alarm_for aid str d)
               else r < 0 \<and> full_alarms v = full_alarms w)"
proof (rule returnsI)
  fix x assume e: "xalarm_report_event aid (Some str) (length str) w = Some x"
  obtain r v where x: "x = (r, v)" by force
  from report_event_cases[OF e[unfolded x]] show "case x of (r, v) \<Rightarrow> if r = 0 then
      (\<exists>d. full_alarms v = full_alarms w @ [(PATH_REPORT_ALARM, d)] \<and> alarm_for aid str d)
      else r < 0 \<and> full_alarms v = full_alarms w"
    unfolding x by (auto simp: full_alarms_def alarm_for_def alarm_info_roundtrip length_encode)
qed

lemma report_retry_full:
  "full_alarms w = a \<Longrightarrow> r0 < 0 \<or> 0 < k \<Longrightarrow> returns (report_retry k aid str r0 w)
     (\<lambda>(r, v). if r = 0 then (\<exists>d. full_alarms v = a @ [(PATH_REPORT_ALARM, d)] \<and> alarm_for aid str d)
               else r < 0 \<and> full_alarms v = a)"
proof (induction k arbitrary: r0 w)
  case (Suc k)
  have sleep: "full_alarms v = full_alarms u" if "call (Q_sleep 1) u = Some (r, v)" for r u v
    using call_other_dgrams(1)[OF that] by (simp add: full_alarms_def)
  show ?case unfolding report_retry.simps
    by (intro report_event_full[THEN returns_mono, unfolded split_paired_all split_conv] ret_intros Suc.IH)
       (use Suc.prems sleep in auto)
qed (simp add: returns_Some)

text \<open>C26: The monitor reports an event at most once: whatever xalarmd and the kernel answer to the
  attempts, the report succeeds with exactly one whole alarm record sent, which decodes to the
  event's alarm number and text, or it fails and no whole record was sent.\<close>

theorem event_reported_once:
  assumes "report_retry MAX_RETRY_NUM aid str 0 w = Some (r, w')"
  shows "if r = 0 then (\<exists>d. full_alarms w' = full_alarms w @ [(PATH_REPORT_ALARM, d)] \<and> alarm_for aid str d)
         else r < 0 \<and> full_alarms w' = full_alarms w"
  using returnsD[OF report_retry_full[OF refl] assms] by simp

theorem event_reported_once_witness:
  "case report_retry MAX_RETRY_NUM 1003 ''7'' 0
      (boot [ans 0 (replicate 16 NUL), fails ENODEV, ans 0 [], ans 0 (replicate 16 NUL), ans 5 [], ans 8216 [], ans 0 []]) of
     Some (r, w') \<Rightarrow> r = 0 \<and> (\<exists>d. full_alarms w' = [(PATH_REPORT_ALARM, d)] \<and> usAlarmId (decode_alarm_info d) = 1003)
   | None \<Rightarrow> False"
proof -
  let ?x = "report_retry MAX_RETRY_NUM 1003 ''7'' 0
      (boot [ans 0 (replicate 16 NUL), fails ENODEV, ans 0 [], ans 0 (replicate 16 NUL), ans 5 [], ans 8216 [], ans 0 []])"
  have len: "length (encode_alarm_info i) = ALARM_INFO_SIZE" if "length (pucParas i) = ALARM_INFO_MAX_PARAS_LEN" for i
    using that by (simp add: encode_alarm_info_def)
  have "map_option fst ?x = Some 0"
    by (simp add: numeral_3_eq_3 xalarm_report_event_def gettimeofday_def boot_def fetch_def call_def sys_def
        posix_def ans_def fails_def sendto_retry.simps len cstr_def Let_def)
  then obtain w' where e: "?x = Some (0, w')" by auto
  have "full_alarms (boot s) = []" for s by (simp add: full_alarms_def)
  with event_reported_once[OF e] show ?thesis unfolding e by (auto simp: alarm_for_def)
qed

end
