(* ===== verification/EbpfKernel.thy ===== *)
theory EbpfKernel
  imports Prelude "HOL-Library.AList"
begin

text \<open>
  \<open>ebpf_collector/ebpf_collector.bpf.c\<close>: the probes on block requests and bios and the BPF maps
  they keep: the IOs in flight with their start time, the counters per device, and per second of
  start time a count per device. A hash map is an association list of bounded length with the
  semantics of \<open>bpf_map_update_elem\<close>; its laws are the locale \<open>bpf_hash\<close>. Kernel structures are
  functions from addresses to the fields the probes read; a map key is the first four bytes of
  what the key pointer points to, so an address is truncated to 32 bits. The clock is an argument.
\<close>

section \<open>BPF hash maps\<close>

type_synonym 'v bpf_map = "(nat \<times> 'v) list"

abbreviation BPF_ANY :: nat where "BPF_ANY \<equiv> 0"
abbreviation BPF_NOEXIST :: nat where "BPF_NOEXIST \<equiv> 1"
abbreviation E2BIG :: int where "E2BIG \<equiv> 7"

definition bpf_lookup :: "'v bpf_map \<Rightarrow> nat \<Rightarrow> 'v option" where
  "bpf_lookup m k = map_of m k"

definition bpf_update :: "nat \<Rightarrow> nat \<Rightarrow> nat \<Rightarrow> 'v \<Rightarrow> 'v bpf_map \<Rightarrow> int \<times> 'v bpf_map" where
  "bpf_update max_entries flag k v m =
     (if bpf_lookup m k \<noteq> None then
        (if flag = BPF_NOEXIST then (- EEXIST, m) else (0, AList.update k v m))
      else if max_entries \<le> length m then (- E2BIG, m)
      else (0, AList.update k v m))"

definition bpf_delete :: "nat \<Rightarrow> 'v bpf_map \<Rightarrow> 'v bpf_map" where
  "bpf_delete k m = AList.delete k m"

definition wf_map :: "nat \<Rightarrow> 'v bpf_map \<Rightarrow> bool" where
  "wf_map max_entries m \<longleftrightarrow> distinct (map fst m) \<and> length m \<le> max_entries"

locale bpf_hash =
  fixes lookup :: "'m \<Rightarrow> nat \<Rightarrow> 'v option"
    and update :: "nat \<Rightarrow> nat \<Rightarrow> 'v \<Rightarrow> 'm \<Rightarrow> int \<times> 'm"
    and delete :: "nat \<Rightarrow> 'm \<Rightarrow> 'm"
    and wf :: "'m \<Rightarrow> bool"
  assumes update_ok: "update flag k v m = (0, m') \<Longrightarrow> lookup m' = (lookup m)(k \<mapsto> v)"
    and update_err: "update flag k v m = (e, m') \<Longrightarrow> e \<noteq> 0 \<Longrightarrow> m' = m \<and> e < 0"
    and update_noexist: "lookup m k \<noteq> None \<Longrightarrow> fst (update BPF_NOEXIST k v m) \<noteq> 0"
    and update_exists: "lookup m k \<noteq> None \<Longrightarrow> fst (update BPF_ANY k v m) = 0"
    and delete_lookup: "wf m \<Longrightarrow> lookup (delete k m) = (lookup m)(k := None)"
    and wf_update: "wf m \<Longrightarrow> wf (snd (update flag k v m))"
    and wf_delete: "wf m \<Longrightarrow> wf (delete k m)"
begin

lemma update_frame: "k' \<noteq> k \<Longrightarrow> lookup (snd (update flag k v m)) k' = lookup m k'"
proof (cases "update flag k v m")
  case (Pair e m')
  assume "k' \<noteq> k"
  with Pair show ?thesis using update_ok[of flag k v m m'] update_err[of flag k v m e m'] by (cases "e = 0") auto
qed

lemma insert_then_delete:
  "wf m \<Longrightarrow> lookup m k = None \<Longrightarrow> update flag k v m = (0, m') \<Longrightarrow> lookup (delete k m') = lookup m"
  using wf_update[of m flag k v] delete_lookup[of m' k] update_ok[of flag k v m m'] by (auto simp: fun_eq_iff)

end

text \<open>Deleting a key of a map without duplicates takes out exactly its binding.\<close>

lemma delete_split:
  "distinct (map fst m) \<Longrightarrow> map_of m k = Some v \<Longrightarrow>
   \<exists>xs ys. m = xs @ (k, v) # ys \<and> AList.delete k m = xs @ ys"
proof (induction m)
  case (Cons e m)
  obtain a b where e: "e = (a, b)" by (cases e)
  show ?case
  proof (cases "a = k")
    case True
    with Cons.prems e have "k \<notin> fst ` set m" and b: "b = v" by auto
    then have "AList.delete k m = m" by (simp add: delete_id)
    then have "e # m = [] @ (k, v) # m \<and> AList.delete k (e # m) = [] @ m"
      using e True b by simp
    then show ?thesis by blast
  next
    case False
    with Cons e obtain xs ys where "m = xs @ (k, v) # ys" "AList.delete k m = xs @ ys" by auto
    then have "e # m = (e # xs) @ (k, v) # ys \<and> AList.delete k (e # m) = (e # xs) @ ys"
      using e False by simp
    then show ?thesis by blast
  qed
qed simp

lemma update_new: "k \<notin> fst ` set m \<Longrightarrow> AList.update k v m = m @ [(k, v)]"
  by (induction m) auto

interpretation bpf: bpf_hash bpf_lookup "bpf_update max_entries" bpf_delete "wf_map max_entries"
proof unfold_locales
  fix m :: "'a bpf_map" and flag k :: nat and v :: 'a
  assume wf: "wf_map max_entries m"
  show "bpf_lookup (bpf_delete k m) = (bpf_lookup m)(k := None)"
    by (simp add: bpf_lookup_def bpf_delete_def fun_eq_iff delete_conv')
  show "wf_map max_entries (bpf_delete k m)"
    using wf length_delete_le[of k m]
    by (auto simp: wf_map_def bpf_delete_def intro!: distinct_delete intro: le_trans)
  show "wf_map max_entries (snd (bpf_update max_entries flag k v m))"
  proof (cases "k \<in> fst ` set m")
    case True
    then have "map fst (AList.update k v m) = map fst m" by (simp add: update_keys)
    moreover from this have "length (AList.update k v m) = length m" by (metis length_map)
    ultimately show ?thesis using wf by (simp add: wf_map_def bpf_update_def)
  next
    case False
    with wf show ?thesis
      by (auto simp: wf_map_def bpf_update_def bpf_lookup_def map_of_eq_None_iff update_new)
  qed
qed (auto simp: bpf_update_def bpf_lookup_def update_conv' split: if_splits)

section \<open>Data\<close>

abbreviation MAP_SIZE :: nat where "MAP_SIZE \<equiv> 15"
abbreviation MAX_IO_TIME :: nat where "MAX_IO_TIME \<equiv> 130"
abbreviation THRESHOLD :: u64 where "THRESHOLD \<equiv> 1000000000"
abbreviation DURATION_THRESHOLD :: u64 where "DURATION_THRESHOLD \<equiv> 500000000"
abbreviation BATCH_COUT :: nat where "BATCH_COUT \<equiv> 100"
abbreviation RES_ENTRIES :: nat where "RES_ENTRIES \<equiv> 128"
abbreviation IO_ENTRIES :: nat where "IO_ENTRIES \<equiv> 10000"

record stage_data =
  start_count :: u64
  finish_count :: u64
  finish_over_time :: u64
  duration :: u64
  sd_major :: int
  sd_minor :: int
  io_type :: string

definition zero_stage :: stage_data where
  "zero_stage = \<lparr>start_count = 0, finish_count = 0, finish_over_time = 0, duration = 0,
     sd_major = 0, sd_minor = 0, io_type = replicate 8 (CHR 0x00)\<rparr>"

record io_counter =
  start_time :: u64
  ic_major :: int
  ic_minor :: int

record update_params =
  up_major :: int
  up_minor :: int
  up_cmd_flags :: u32
  curr_start_range :: u64

text \<open>The fields of a request or a bio that the probes read.\<close>

record kreq =
  rq_major :: int
  rq_minor :: int
  rq_cmd_flags :: u32
  rq_next :: nat

text \<open>The maps of one stage, and the events of the ring buffer (stage, period, error).\<close>

record stage_maps =
  io_map :: "io_counter bpf_map"
  io_res :: "stage_data list"
  io_res_2 :: "int list bpf_map"
  ring :: "(int \<times> int \<times> int) list"

definition init_stage_maps :: stage_maps where
  "init_stage_maps = \<lparr>io_map = [], io_res = replicate RES_ENTRIES zero_stage, io_res_2 = [], ring = []\<rparr>"

abbreviation STAGE_RQ_DRIVER :: int where "STAGE_RQ_DRIVER \<equiv> 1"
abbreviation STAGE_BIO :: int where "STAGE_BIO \<equiv> 2"
abbreviation PERIOD_START :: int where "PERIOD_START \<equiv> 1"
abbreviation PERIOD_END :: int where "PERIOD_END \<equiv> 2"
abbreviation ERROR_MAJOR_ZERO :: int where "ERROR_MAJOR_ZERO \<equiv> 1"
abbreviation ERROR_UPDATE_FAIL :: int where "ERROR_UPDATE_FAIL \<equiv> 4"

text \<open>\<open>reserved\<close> says whether \<open>bpf_ringbuf_reserve\<close> found room.\<close>

definition log_event :: "bool \<Rightarrow> int \<Rightarrow> int \<Rightarrow> int \<Rightarrow> stage_maps \<Rightarrow> stage_maps" where
  "log_event reserved stage period err s =
     (if \<not> reserved then s else s\<lparr>ring := ring s @ [(stage, period, err)]\<rparr>)"

definition blk_fill_rwbs :: "string \<Rightarrow> u32 \<Rightarrow> string" where
  "blk_fill_rwbs rwbs op =
     (let m = unat (op AND 0xFF);
          c = (if m = 1 \<or> m = 7 then CHR ''W'' else if m = 3 then CHR ''D'' else if m = 5 then CHR ''E''
               else if m = 2 then CHR ''F'' else if m = 0 then CHR ''R'' else CHR ''N'');
          flag = (\<lambda>b ch. if bit op b then ch else CHR ''#'')
      in rwbs[0 := c, 1 := flag 17 (CHR ''F''), 2 := flag 19 (CHR ''A''), 3 := flag 11 (CHR ''S''),
              4 := flag 12 (CHR ''M'')])"

definition update_curr_data_in_start :: "update_params \<Rightarrow> stage_data \<Rightarrow> stage_data" where
  "update_curr_data_in_start p d =
     d\<lparr>start_count := start_count d + 1, sd_major := up_major p, sd_minor := up_minor p,
       io_type := blk_fill_rwbs (io_type d) (up_cmd_flags p)\<rparr>"

definition update_curr_data_in_finish :: "update_params \<Rightarrow> u64 \<Rightarrow> stage_data \<Rightarrow> stage_data" where
  "update_curr_data_in_finish p dur d =
     (let d = d\<lparr>finish_count := finish_count d + 1, sd_major := up_major p, sd_minor := up_minor p,
                io_type := blk_fill_rwbs (io_type d) (up_cmd_flags p)\<rparr>
      in if DURATION_THRESHOLD < dur then d\<lparr>finish_over_time := finish_over_time d + 1\<rparr> else d)"

definition init_io_counter :: "u64 \<Rightarrow> int \<Rightarrow> int \<Rightarrow> io_counter" where
  "init_io_counter now maj mnr = \<lparr>start_time = now, ic_major = maj, ic_minor = mnr\<rparr>"

text \<open>The four searches differ in the array only: the first slot of the device, or 15.\<close>

fun find_key :: "stage_data list \<Rightarrow> int \<Rightarrow> int \<Rightarrow> nat \<Rightarrow> nat \<Rightarrow> nat" where
  "find_key res maj mnr key 0 = key"
| "find_key res maj mnr key (Suc n) =
     (if sd_major (res ! key) = maj \<and> sd_minor (res ! key) = mnr then key
      else find_key res maj mnr (key + 1) n)"

definition find_matching_key_rq_driver :: "stage_data list \<Rightarrow> int \<Rightarrow> int \<Rightarrow> nat" where
  "find_matching_key_rq_driver blk_res maj mnr = find_key blk_res maj mnr 0 MAP_SIZE"

definition find_matching_key_bio :: "stage_data list \<Rightarrow> int \<Rightarrow> int \<Rightarrow> nat" where
  "find_matching_key_bio bio_res maj mnr = find_key bio_res maj mnr 0 MAP_SIZE"

definition find_matching_key_wbt :: "stage_data list \<Rightarrow> int \<Rightarrow> int \<Rightarrow> nat" where
  "find_matching_key_wbt wbt_res maj mnr = find_key wbt_res maj mnr 0 MAP_SIZE"

definition find_matching_key_get_tag :: "stage_data list \<Rightarrow> int \<Rightarrow> int \<Rightarrow> nat" where
  "find_matching_key_get_tag tag_res maj mnr = find_key tag_res maj mnr 0 MAP_SIZE"

text \<open>The 32-bit map key an address or a start second is read as.\<close>

definition key32 :: "nat \<Rightarrow> nat" where
  "key32 p = p mod 2 ^ 32"

definition new_stage :: "u64 \<Rightarrow> u64 \<Rightarrow> update_params \<Rightarrow> stage_data" where
  "new_stage finished over p =
     \<lparr>start_count = 1, finish_count = finished, finish_over_time = over, duration = 0,
      sd_major = up_major p, sd_minor = up_minor p,
      io_type = blk_fill_rwbs (replicate 8 (CHR 0x00)) (up_cmd_flags p)\<rparr>"

text \<open>\<open>bpf_map_lookup_elem\<close> and \<open>bpf_map_update_elem\<close> on an array.\<close>

definition array_lookup :: "'v list \<Rightarrow> nat \<Rightarrow> 'v option" where
  "array_lookup a k = (if k < length a then Some (a ! k) else None)"

text \<open>The count of the second \<open>sec\<close>, slot \<open>key\<close>: a new second starts from zero.\<close>

definition count_add :: "int \<Rightarrow> nat \<Rightarrow> nat \<Rightarrow> int list bpf_map \<Rightarrow> int list bpf_map" where
  "count_add n sec key m = (case bpf_lookup m sec of
      None \<Rightarrow> snd (bpf_update MAX_IO_TIME BPF_ANY sec (replicate MAP_SIZE 0) m)
    | Some c \<Rightarrow> if key < MAP_SIZE then AList.update sec (c[key := to_i32 (c ! key + n)]) m else m)"

section \<open>Request probes\<close>

definition kprobe_blk_mq_start_request :: "bool \<Rightarrow> u64 \<Rightarrow> nat \<Rightarrow> kreq \<Rightarrow> stage_maps \<Rightarrow> stage_maps" where
  "kprobe_blk_mq_start_request reserved now rq r s =
     (if rq_major r = 0 then log_event reserved STAGE_RQ_DRIVER PERIOD_START ERROR_MAJOR_ZERO s
      else
        let key = find_matching_key_rq_driver (io_res s) (rq_major r) (rq_minor r) in
        if MAP_SIZE \<le> key then s
        else
          let zero = init_io_counter now (rq_major r) (rq_minor r) in
          if bpf_lookup (io_map s) (key32 rq) \<noteq> None then s
          else
            let (err, m) = bpf_update IO_ENTRIES BPF_NOEXIST (key32 rq) zero (io_map s) in
            if err \<noteq> 0 then log_event reserved STAGE_RQ_DRIVER PERIOD_START ERROR_UPDATE_FAIL s
            else
              let s = s\<lparr>io_map := m\<rparr>;
                  range = start_time zero div THRESHOLD;
                  p = \<lparr>up_major = rq_major r, up_minor = rq_minor r, up_cmd_flags = rq_cmd_flags r,
                       curr_start_range = range\<rparr>;
                  s = s\<lparr>io_res := (case array_lookup (io_res s) key of
                         None \<Rightarrow> (io_res s)[key := new_stage 0 0 p]
                       | Some d \<Rightarrow> (io_res s)[key := update_curr_data_in_start p d])\<rparr>
              in s\<lparr>io_res_2 := count_add 1 (key32 (unat range)) key (io_res_2 s)\<rparr>)"

text \<open>
  The common part of the two request finishes, from the lookup of the counters on: the device
  counters and the count of the start second.
\<close>

definition finish_res :: "u64 \<Rightarrow> update_params \<Rightarrow> nat \<Rightarrow> stage_data list \<Rightarrow> stage_data list" where
  "finish_res dur p key res = (case array_lookup res key of
      None \<Rightarrow> res[key := new_stage 1 (if DURATION_THRESHOLD < dur then 1 else 0) p]
    | Some d \<Rightarrow> res[key := update_curr_data_in_finish p dur (d\<lparr>duration := duration d + dur\<rparr>)])"

text \<open>
  One request of a batch: \<open>False\<close> for the three \<open>continue\<close>s, which leave the loop variable
  \<open>rq\<close> where it is.
\<close>

definition end_request :: "bool \<Rightarrow> u64 \<Rightarrow> nat \<Rightarrow> kreq \<Rightarrow> stage_maps \<Rightarrow> bool \<times> stage_maps" where
  "end_request reserved now rq r s =
     (if rq_major r = 0 then (False, log_event reserved STAGE_RQ_DRIVER PERIOD_END ERROR_MAJOR_ZERO s)
      else
        let key = find_matching_key_rq_driver (io_res s) (rq_major r) (rq_minor r) in
        if MAP_SIZE \<le> key then (False, s)
        else case bpf_lookup (io_map s) (key32 rq) of
            None \<Rightarrow> (False, s)
          | Some counter \<Rightarrow>
              (let dur = now - start_time counter;
                   range = start_time counter div THRESHOLD;
                   p = \<lparr>up_major = rq_major r, up_minor = rq_minor r, up_cmd_flags = rq_cmd_flags r,
                        curr_start_range = range\<rparr>;
                   s = s\<lparr>io_res := finish_res dur p key (io_res s)\<rparr>;
                   s = s\<lparr>io_res_2 := count_add (- 1) (key32 (unat range)) key (io_res_2 s)\<rparr>
               in (True, s\<lparr>io_map := bpf_delete (key32 rq) (io_map s)\<rparr>)))"

text \<open>The loop over the batch: at most \<open>BATCH_COUT + 1\<close> rounds; \<open>clock i\<close> is read in round \<open>i\<close>.\<close>

fun end_batch_loop ::
  "(nat \<Rightarrow> bool) \<Rightarrow> (nat \<Rightarrow> u64) \<Rightarrow> (nat \<Rightarrow> kreq) \<Rightarrow> nat list \<Rightarrow> nat \<Rightarrow> stage_maps \<Rightarrow> stage_maps" where
  "end_batch_loop reserved clock mem [] rq s = s"
| "end_batch_loop reserved clock mem (i # is) rq s =
     (let (advanced, s) = end_request (reserved i) (clock i) rq (mem rq) s in
      if \<not> advanced then end_batch_loop reserved clock mem is rq s
      else
        let rq = rq_next (mem rq) in
        if rq = 0 then s
        else
          let s = (if BATCH_COUT \<le> i then log_event (reserved i) STAGE_RQ_DRIVER PERIOD_END (int i) s else s)
          in end_batch_loop reserved clock mem is rq s)"

definition kprobe_blk_mq_end_request_batch ::
  "(nat \<Rightarrow> bool) \<Rightarrow> (nat \<Rightarrow> u64) \<Rightarrow> (nat \<Rightarrow> kreq) \<Rightarrow> nat \<Rightarrow> stage_maps \<Rightarrow> stage_maps" where
  "kprobe_blk_mq_end_request_batch reserved clock mem req_list s =
     end_batch_loop reserved clock mem [0..<BATCH_COUT + 1] req_list s"

definition kprobe_blk_mq_free_request :: "bool \<Rightarrow> u64 \<Rightarrow> nat \<Rightarrow> kreq \<Rightarrow> stage_maps \<Rightarrow> stage_maps" where
  "kprobe_blk_mq_free_request reserved now rq r s = snd (end_request reserved now rq r s)"

section \<open>Bio probes\<close>

definition kprobe_blk_mq_submit_bio :: "bool \<Rightarrow> u64 \<Rightarrow> nat \<Rightarrow> kreq \<Rightarrow> stage_maps \<Rightarrow> stage_maps" where
  "kprobe_blk_mq_submit_bio reserved now bio r s =
     (if rq_major r = 0 then log_event reserved STAGE_BIO PERIOD_START ERROR_MAJOR_ZERO s
      else
        let key = find_matching_key_bio (io_res s) (rq_major r) (rq_minor r) in
        if MAP_SIZE \<le> key then s
        else
          let zero = init_io_counter now (rq_major r) (rq_minor r) in
          if bpf_lookup (io_map s) (key32 bio) \<noteq> None then s
          else
            let (err, m) = bpf_update IO_ENTRIES BPF_NOEXIST (key32 bio) zero (io_map s) in
            if err \<noteq> 0 then s
            else
              let s = s\<lparr>io_map := m\<rparr>;
                  range = start_time zero div THRESHOLD;
                  p = \<lparr>up_major = rq_major r, up_minor = rq_minor r, up_cmd_flags = rq_cmd_flags r,
                       curr_start_range = range\<rparr>;
                  s = s\<lparr>io_res := (case array_lookup (io_res s) key of
                         None \<Rightarrow> (io_res s)[key := new_stage 0 0 p]
                       | Some d \<Rightarrow> (io_res s)[key := update_curr_data_in_start p d])\<rparr>
              in s\<lparr>io_res_2 := count_add 1 (key32 (unat range)) key (io_res_2 s)\<rparr>)"

text \<open>The guarded decrement of \<open>bio_endio\<close>.\<close>

definition count_sub_guarded :: "nat \<Rightarrow> nat \<Rightarrow> int list bpf_map \<Rightarrow> int list bpf_map" where
  "count_sub_guarded sec key m = (case bpf_lookup m sec of
      None \<Rightarrow> snd (bpf_update MAX_IO_TIME BPF_ANY sec (replicate MAP_SIZE 0) m)
    | Some c \<Rightarrow>
        if key < MAP_SIZE \<and> 0 < c ! key then AList.update sec (c[key := to_i32 (c ! key - 1)]) m else m)"

definition kprobe_bio_endio :: "bool \<Rightarrow> u64 \<Rightarrow> nat \<Rightarrow> kreq \<Rightarrow> stage_maps \<Rightarrow> stage_maps" where
  "kprobe_bio_endio reserved now bio r s =
     (if rq_major r = 0 then log_event reserved STAGE_BIO PERIOD_END ERROR_MAJOR_ZERO s
      else
        let key = find_matching_key_bio (io_res s) (rq_major r) (rq_minor r) in
        if MAP_SIZE \<le> key then s
        else case bpf_lookup (io_map s) (key32 bio) of
            None \<Rightarrow> s
          | Some counter \<Rightarrow>
              (let dur = now - start_time counter;
                   range = start_time counter div THRESHOLD;
                   p = \<lparr>up_major = rq_major r, up_minor = rq_minor r, up_cmd_flags = rq_cmd_flags r,
                        curr_start_range = range\<rparr>;
                   s = s\<lparr>io_res := finish_res dur p key (io_res s)\<rparr>;
                   s = s\<lparr>io_res_2 := count_sub_guarded (key32 (unat range)) key (io_res_2 s)\<rparr>
               in s\<lparr>io_map := bpf_delete (key32 bio) (io_map s)\<rparr>))"

section \<open>Which slot a device has\<close>

text \<open>The devices of the result array; the probes never change them once a slot is claimed.\<close>

definition devs :: "stage_data list \<Rightarrow> (int \<times> int) list" where
  "devs res = map (\<lambda>d. (sd_major d, sd_minor d)) res"

definition slot_of :: "(int \<times> int) list \<Rightarrow> int \<times> int \<Rightarrow> nat" where
  "slot_of ds d = length (takeWhile (\<lambda>x. x \<noteq> d) (take MAP_SIZE ds))"

lemma find_key_takeWhile:
  "key + n \<le> length res \<Longrightarrow>
   find_key res maj mnr key n =
     key + length (takeWhile (\<lambda>x. x \<noteq> (maj, mnr)) (take n (drop key (devs res))))"
proof (induction n arbitrary: key)
  case (Suc n)
  have "drop key (devs res) = (sd_major (res ! key), sd_minor (res ! key)) # drop (Suc key) (devs res)"
    using Suc.prems by (simp add: devs_def drop_map Cons_nth_drop_Suc[symmetric])
  with Suc show ?case by simp
qed simp

lemma find_key_slot:
  "MAP_SIZE \<le> length res \<Longrightarrow> find_key res maj mnr 0 MAP_SIZE = slot_of (devs res) (maj, mnr)"
  by (simp add: find_key_takeWhile slot_of_def)

lemmas find_matching_keys = find_matching_key_rq_driver_def find_matching_key_bio_def
  find_matching_key_wbt_def find_matching_key_get_tag_def

lemma slot_of_less:
  assumes "slot_of ds d < MAP_SIZE" and "MAP_SIZE \<le> length ds"
  shows "ds ! slot_of ds d = d"
proof -
  have "slot_of ds d < length (take MAP_SIZE ds)" using assms by simp
  then have "take MAP_SIZE ds ! slot_of ds d = d"
    unfolding slot_of_def using nth_length_takeWhile by blast
  with assms show ?thesis by simp
qed

lemma slot_of_min: "k < slot_of ds d \<Longrightarrow> ds ! k \<noteq> d"
proof -
  assume k: "k < slot_of ds d"
  let ?t = "takeWhile (\<lambda>x. x \<noteq> d) (take MAP_SIZE ds)"
  from k have "?t ! k \<in> set ?t" by (simp add: slot_of_def)
  then have "?t ! k \<noteq> d" by (auto dest: set_takeWhileD)
  moreover have "k < length (take MAP_SIZE ds)"
    using k length_takeWhile_le[of "\<lambda>x. x \<noteq> d" "take MAP_SIZE ds"] by (simp add: slot_of_def)
  ultimately show ?thesis
    using k by (simp add: slot_of_def takeWhile_nth)
qed

lemma slot_of_le: "slot_of ds d \<le> MAP_SIZE"
  using length_takeWhile_le[of "\<lambda>x. x \<noteq> d" "take MAP_SIZE ds"] by (simp add: slot_of_def)

text \<open>An update of a slot that keeps its device keeps the device table.\<close>

lemma devs_update:
  "k < length res \<Longrightarrow> devs res ! k = (sd_major d, sd_minor d) \<Longrightarrow> devs (res[k := d]) = devs res"
  by (simp add: devs_def map_update list_update_same_conv nth_map)

lemma length_devs [simp]: "length (devs res) = length res"
  by (simp add: devs_def)

lemma devs_nth: "k < length res \<Longrightarrow> devs res ! k = (sd_major (res ! k), sd_minor (res ! k))"
  by (simp add: devs_def)

section \<open>IOs in flight\<close>

definition flight :: "(io_counter \<Rightarrow> bool) \<Rightarrow> io_counter bpf_map \<Rightarrow> nat" where
  "flight P m = length (filter (\<lambda>e. P (snd e)) m)"

lemma flight_insert:
  "bpf_update n flag k v m = (0, m') \<Longrightarrow> bpf_lookup m k = None \<Longrightarrow>
   flight P m' = flight P m + of_bool (P v)"
  by (auto simp: bpf_update_def bpf_lookup_def flight_def map_of_eq_None_iff update_new split: if_splits)

lemma flight_delete:
  assumes "wf_map n m" "bpf_lookup m k = Some v"
  shows "flight P m = flight P (bpf_delete k m) + of_bool (P v)"
proof -
  obtain xs ys where "m = xs @ (k, v) # ys" "AList.delete k m = xs @ ys"
    using assms delete_split[of m k v] by (auto simp: wf_map_def bpf_lookup_def)
  then show ?thesis by (simp add: flight_def bpf_delete_def)
qed

lemma flight_le: "wf_map n m \<Longrightarrow> flight P m \<le> n"
  by (auto simp: flight_def wf_map_def intro: le_trans[OF length_filter_le])

lemma flight_mono: "(\<And>c. P c \<Longrightarrow> Q c) \<Longrightarrow> flight P m \<le> flight Q m"
  unfolding flight_def by (induction m) auto

definition dev_of :: "io_counter \<Rightarrow> int \<times> int" where
  "dev_of c = (ic_major c, ic_minor c)"

text \<open>
  The object behind an address is the one whose start was recorded: its disk has not changed and
  no other address in use has the same low 32 bits.
\<close>

definition consistent :: "(nat \<Rightarrow> kreq) \<Rightarrow> stage_maps \<Rightarrow> bool" where
  "consistent mem s \<longleftrightarrow>
     (\<forall>p c. bpf_lookup (io_map s) (key32 p) = Some c \<longrightarrow> dev_of c = (rq_major (mem p), rq_minor (mem p)))"

text \<open>The accounts of one stage: for the device of every slot, starts minus finishes is what flies.\<close>

definition acct :: "stage_maps \<Rightarrow> bool" where
  "acct s \<longleftrightarrow> wf_map IO_ENTRIES (io_map s) \<and> length (io_res s) = RES_ENTRIES \<and>
     (\<forall>d. fst d \<noteq> 0 \<longrightarrow> slot_of (devs (io_res s)) d < MAP_SIZE \<longrightarrow>
        (let r = io_res s ! slot_of (devs (io_res s)) d
         in start_count r - finish_count r = of_nat (flight (\<lambda>c. dev_of c = d) (io_map s))))"

section \<open>The probes as three cases\<close>

text \<open>What a probe does to the maps: nothing, one start recorded, one finish recorded.\<close>

definition same_maps :: "stage_maps \<Rightarrow> stage_maps \<Rightarrow> bool" where
  "same_maps s s' \<longleftrightarrow> io_map s' = io_map s \<and> io_res s' = io_res s \<and> io_res_2 s' = io_res_2 s"

definition starts :: "nat \<Rightarrow> io_counter \<Rightarrow> stage_maps \<Rightarrow> stage_maps \<Rightarrow> bool" where
  "starts a c s s' \<longleftrightarrow>
     (let k = slot_of (devs (io_res s)) (dev_of c); d = io_res s ! k in
      k < MAP_SIZE \<and> fst (dev_of c) \<noteq> 0 \<and> bpf_lookup (io_map s) a = None \<and>
      bpf_update IO_ENTRIES BPF_NOEXIST a c (io_map s) = (0, io_map s') \<and>
      (\<exists>t. io_res s' = (io_res s)[k := d\<lparr>start_count := start_count d + 1, io_type := t\<rparr>]) \<and>
      io_res_2 s' = count_add 1 (key32 (unat (start_time c div THRESHOLD))) k (io_res_2 s))"

definition finishes ::
  "(nat \<Rightarrow> nat \<Rightarrow> int list bpf_map \<Rightarrow> int list bpf_map) \<Rightarrow> nat \<Rightarrow> io_counter \<Rightarrow> stage_maps \<Rightarrow> stage_maps \<Rightarrow> bool"
where
  "finishes sub a c s s' \<longleftrightarrow>
     (let k = slot_of (devs (io_res s)) (dev_of c); d = io_res s ! k in
      k < MAP_SIZE \<and> fst (dev_of c) \<noteq> 0 \<and> bpf_lookup (io_map s) a = Some c \<and>
      io_map s' = bpf_delete a (io_map s) \<and>
      (\<exists>t o' l. io_res s' = (io_res s)[k := d\<lparr>finish_count := finish_count d + 1, finish_over_time := o',
           duration := l, io_type := t\<rparr>]) \<and>
      io_res_2 s' = sub (key32 (unat (start_time c div THRESHOLD))) k (io_res_2 s))"

lemma same_log [simp]: "same_maps s (log_event b st pe er s)" "same_maps s s"
  by (auto simp: same_maps_def log_event_def)

lemma same_dev:
  assumes "slot_of (devs res) (a, b) < MAP_SIZE" "length res = RES_ENTRIES"
  shows "sd_major (res ! slot_of (devs res) (a, b)) = a" "sd_minor (res ! slot_of (devs res) (a, b)) = b"
  using assms slot_of_less[of "devs res" "(a, b)"] devs_nth[of "slot_of (devs res) (a, b)" res] by simp_all

lemma start_same_dev:
  "sd_major d = up_major p \<Longrightarrow> sd_minor d = up_minor p \<Longrightarrow>
   update_curr_data_in_start p d =
     d\<lparr>start_count := start_count d + 1, io_type := blk_fill_rwbs (io_type d) (up_cmd_flags p)\<rparr>"
  by (cases d) (simp add: update_curr_data_in_start_def)

lemma finish_same_dev:
  "sd_major d = up_major p \<Longrightarrow> sd_minor d = up_minor p \<Longrightarrow>
   update_curr_data_in_finish p dur (d\<lparr>duration := l\<rparr>) =
     d\<lparr>finish_count := finish_count d + 1,
       finish_over_time := finish_over_time d + of_bool (DURATION_THRESHOLD < dur), duration := l,
       io_type := blk_fill_rwbs (io_type d) (up_cmd_flags p)\<rparr>"
  by (cases d) (simp add: update_curr_data_in_finish_def Let_def)

lemma res_upd_cong: "(\<And>x. x = d \<Longrightarrow> f x = g x) \<Longrightarrow> xs[k := f d] = xs[k := g d]" by simp

lemma start_blk_cases:
  assumes len: "length (io_res s) = RES_ENTRIES"
  shows "same_maps s (kprobe_blk_mq_start_request b now rq r s) \<or>
         starts (key32 rq) (init_io_counter now (rq_major r) (rq_minor r)) s
           (kprobe_blk_mq_start_request b now rq r s)"
  using len same_dev[of "io_res s" "rq_major r" "rq_minor r"]
  by (auto simp: kprobe_blk_mq_start_request_def find_matching_keys find_key_slot Let_def starts_def
      dev_of_def init_io_counter_def array_lookup_def start_same_dev split: prod.splits)

lemma start_bio_cases:
  assumes len: "length (io_res s) = RES_ENTRIES"
  shows "same_maps s (kprobe_blk_mq_submit_bio b now bio r s) \<or>
         starts (key32 bio) (init_io_counter now (rq_major r) (rq_minor r)) s
           (kprobe_blk_mq_submit_bio b now bio r s)"
  using len same_dev[of "io_res s" "rq_major r" "rq_minor r"]
  by (auto simp: kprobe_blk_mq_submit_bio_def find_matching_keys find_key_slot Let_def starts_def
      dev_of_def init_io_counter_def array_lookup_def start_same_dev split: prod.splits)

lemma finish_res_slot:
  assumes "length res = RES_ENTRIES" "slot_of (devs res) (a, b) < MAP_SIZE" "up_major p = a" "up_minor p = b"
  shows "\<exists>t o' l. finish_res dur p (slot_of (devs res) (a, b)) res =
     (let k = slot_of (devs res) (a, b); d = res ! k in
      res[k := d\<lparr>finish_count := finish_count d + 1, finish_over_time := o', duration := l, io_type := t\<rparr>])"
proof -
  let ?k = "slot_of (devs res) (a, b)"
  let ?d = "res ! ?k"
  have "finish_res dur p ?k res = res[?k := update_curr_data_in_finish p dur (?d\<lparr>duration := duration ?d + dur\<rparr>)]"
    using assms by (simp add: finish_res_def array_lookup_def)
  also have "\<dots> = res[?k := ?d\<lparr>finish_count := finish_count ?d + 1,
       finish_over_time := finish_over_time ?d + of_bool (DURATION_THRESHOLD < dur),
       duration := duration ?d + dur, io_type := blk_fill_rwbs (io_type ?d) (up_cmd_flags p)\<rparr>]"
    using assms same_dev[of res a b] by (subst finish_same_dev) auto
  finally show ?thesis unfolding Let_def by blast
qed

lemma end_request_cases:
  assumes len: "length (io_res s) = RES_ENTRIES"
    and con: "\<And>c. bpf_lookup (io_map s) (key32 rq) = Some c \<Longrightarrow> dev_of c = (rq_major r, rq_minor r)"
  shows "same_maps s (snd (end_request b now rq r s)) \<or>
         (\<exists>c. finishes (count_add (- 1)) (key32 rq) c s (snd (end_request b now rq r s)))"
proof (cases "bpf_lookup (io_map s) (key32 rq)")
  case None
  then show ?thesis by (auto simp: end_request_def Let_def)
next
  case (Some c)
  then show ?thesis
    using len con[OF Some] finish_res_slot[OF len, of "rq_major r" "rq_minor r"]
    by (auto simp: end_request_def find_matching_keys find_key_slot Let_def finishes_def intro!: exI[of _ c])
qed

lemma bio_endio_cases:
  assumes len: "length (io_res s) = RES_ENTRIES"
    and con: "\<And>c. bpf_lookup (io_map s) (key32 bio) = Some c \<Longrightarrow> dev_of c = (rq_major r, rq_minor r)"
  shows "same_maps s (kprobe_bio_endio b now bio r s) \<or>
         (\<exists>c. finishes count_sub_guarded (key32 bio) c s (kprobe_bio_endio b now bio r s))"
proof (cases "bpf_lookup (io_map s) (key32 bio)")
  case None
  then show ?thesis by (auto simp: kprobe_bio_endio_def Let_def)
next
  case (Some c)
  then show ?thesis
    using len con[OF Some] finish_res_slot[OF len, of "rq_major r" "rq_minor r"]
    by (auto simp: kprobe_bio_endio_def find_matching_keys find_key_slot Let_def finishes_def intro!: exI[of _ c])
qed

section \<open>Runs of the probes\<close>

text \<open>
  The collector initialises the result array with the devices before any probe counts; then the
  probes run in any order, and the collector deletes seconds it has reported.
\<close>

definition claimed :: "(int \<times> int) list \<Rightarrow> stage_maps" where
  "claimed ds = init_stage_maps\<lparr>io_res :=
     map (\<lambda>d. zero_stage\<lparr>sd_major := fst d, sd_minor := snd d\<rparr>) (take MAP_SIZE ds) @
     replicate (RES_ENTRIES - length (take MAP_SIZE ds)) zero_stage\<rparr>"

inductive rq_run :: "(int \<times> int) list \<Rightarrow> stage_maps \<Rightarrow> bool" for ds where
  rq_init: "rq_run ds (claimed ds)"
| rq_start: "rq_run ds s \<Longrightarrow> rq_run ds (kprobe_blk_mq_start_request b now rq r s)"
| rq_batch: "rq_run ds s \<Longrightarrow> consistent mem s \<Longrightarrow>
    rq_run ds (kprobe_blk_mq_end_request_batch bs clock mem rq s)"
| rq_free: "rq_run ds s \<Longrightarrow> consistent mem s \<Longrightarrow>
    rq_run ds (kprobe_blk_mq_free_request b now rq (mem rq) s)"
| rq_dump: "rq_run ds s \<Longrightarrow> rq_run ds (s\<lparr>io_res_2 := bpf_delete sec (io_res_2 s)\<rparr>)"

inductive bio_run :: "(int \<times> int) list \<Rightarrow> stage_maps \<Rightarrow> bool" for ds where
  bio_init: "bio_run ds (claimed ds)"
| bio_submit: "bio_run ds s \<Longrightarrow> bio_run ds (kprobe_blk_mq_submit_bio b now bio r s)"
| bio_end: "bio_run ds s \<Longrightarrow> consistent mem s \<Longrightarrow>
    bio_run ds (kprobe_bio_endio b now bio (mem bio) s)"
| bio_dump: "bio_run ds s \<Longrightarrow> bio_run ds (s\<lparr>io_res_2 := bpf_delete sec (io_res_2 s)\<rparr>)"

text \<open>The abstract run both refine; \<open>sub\<close> is the decrement.\<close>

inductive core_run ::
  "(nat \<Rightarrow> nat \<Rightarrow> int list bpf_map \<Rightarrow> int list bpf_map) \<Rightarrow> (int \<times> int) list \<Rightarrow> stage_maps \<Rightarrow> bool"
for sub ds where
  core_init: "core_run sub ds (claimed ds)"
| core_same: "core_run sub ds s \<Longrightarrow> same_maps s s' \<Longrightarrow> core_run sub ds s'"
| core_start: "core_run sub ds s \<Longrightarrow> starts a c s s' \<Longrightarrow> core_run sub ds s'"
| core_finish: "core_run sub ds s \<Longrightarrow> finishes sub a c s s' \<Longrightarrow> core_run sub ds s'"
| core_dump: "core_run sub ds s \<Longrightarrow> core_run sub ds (s\<lparr>io_res_2 := bpf_delete sec (io_res_2 s)\<rparr>)"

lemma claimed_devs [simp]:
  "devs (io_res (claimed ds)) = take MAP_SIZE ds @ replicate (RES_ENTRIES - length (take MAP_SIZE ds)) (0, 0)"
  by (simp add: claimed_def devs_def init_stage_maps_def comp_def zero_stage_def map_replicate_const)

lemma claimed_length [simp]: "length (io_res (claimed ds)) = RES_ENTRIES"
  by (simp add: claimed_def init_stage_maps_def)

text \<open>The device table of a run is the one it began with.\<close>

lemma starts_devs: "starts a c s s' \<Longrightarrow> length (io_res s) = RES_ENTRIES \<Longrightarrow> devs (io_res s') = devs (io_res s)"
  by (auto simp: starts_def Let_def devs_update devs_nth)

lemma finishes_devs:
  "finishes sub a c s s' \<Longrightarrow> length (io_res s) = RES_ENTRIES \<Longrightarrow> devs (io_res s') = devs (io_res s)"
  by (auto simp: finishes_def Let_def devs_update devs_nth)

lemma starts_length: "starts a c s s' \<Longrightarrow> length (io_res s') = length (io_res s)"
  by (auto simp: starts_def Let_def)

lemma finishes_length: "finishes sub a c s s' \<Longrightarrow> length (io_res s') = length (io_res s)"
  by (auto simp: finishes_def Let_def)

lemma core_table:
  "core_run sub ds s \<Longrightarrow> length (io_res s) = RES_ENTRIES \<and> devs (io_res s) = devs (io_res (claimed ds))"
proof (induction rule: core_run.induct)
  case core_init show ?case by simp
qed (auto simp: same_maps_def starts_devs finishes_devs starts_length finishes_length simp del: claimed_devs)

lemma core_wf: "core_run sub ds s \<Longrightarrow> wf_map IO_ENTRIES (io_map s)"
proof (induction rule: core_run.induct)
  case core_init
  show ?case by (simp add: claimed_def init_stage_maps_def wf_map_def)
next
  case (core_start s a c s')
  then show ?case
    using bpf.wf_update[of IO_ENTRIES "io_map s" BPF_NOEXIST a c] by (auto simp: starts_def Let_def)
next
  case (core_finish s a c s')
  then show ?case by (auto simp: finishes_def Let_def bpf.wf_delete)
qed (auto simp: same_maps_def)

lemma consistent_sub:
  "consistent mem s \<Longrightarrow> (\<And>k c. bpf_lookup (io_map s') k = Some c \<Longrightarrow> bpf_lookup (io_map s) k = Some c) \<Longrightarrow>
   consistent mem s'"
  by (simp add: consistent_def)

lemma end_request_run:
  assumes run: "core_run (count_add (- 1)) ds s" and con: "consistent mem s"
    and eq: "end_request b now rq (mem rq) s = (adv, s')"
  shows "core_run (count_add (- 1)) ds s' \<and> consistent mem s'"
proof -
  have "same_maps s s' \<or> (\<exists>c. finishes (count_add (- 1)) (key32 rq) c s s')"
    using end_request_cases[of s rq "mem rq" b now] core_table[OF run] con eq by (auto simp: consistent_def)
  then show ?thesis
  proof (elim disjE exE)
    assume "same_maps s s'"
    then show ?thesis using run con by (auto simp: same_maps_def consistent_def intro: core_same)
  next
    fix c assume f: "finishes (count_add (- 1)) (key32 rq) c s s'"
    then have "bpf_lookup (io_map s') = (bpf_lookup (io_map s))(key32 rq := None)"
      using core_wf[OF run] by (auto simp: finishes_def Let_def bpf.delete_lookup[of IO_ENTRIES])
    then show ?thesis
      using f run con by (auto intro: core_finish elim!: consistent_sub split: if_splits)
  qed
qed

lemma end_batch_run:
  "core_run (count_add (- 1)) ds s \<Longrightarrow> consistent mem s \<Longrightarrow>
   core_run (count_add (- 1)) ds (end_batch_loop bs clock mem is rq s)"
proof (induction "is" arbitrary: rq s)
  case (Cons i "is")
  obtain adv s' where e: "end_request (bs i) (clock i) rq (mem rq) s = (adv, s')" by force
  note r = end_request_run[OF Cons.prems e]
  have l: "core_run (count_add (- 1)) ds (log_event b st pe er s') \<and> consistent mem (log_event b st pe er s')"
    for b st pe er
    using r by (auto simp: log_event_def consistent_def same_maps_def intro: core_same)
  show ?case using r l by (auto simp: e Let_def intro: Cons.IH)
qed simp

lemma rq_refines: "rq_run ds s \<Longrightarrow> core_run (count_add (- 1)) ds s"
proof (induction rule: rq_run.induct)
  case (rq_start s b now rq r)
  then show ?case
    using start_blk_cases[of s b now rq r] core_table by (blast intro: core_same core_start)
next
  case (rq_free s mem b now rq)
  then show ?case
    using end_request_run[of ds s mem b now rq] by (cases "end_request b now rq (mem rq) s")
      (auto simp: kprobe_blk_mq_free_request_def)
qed (auto simp: kprobe_blk_mq_end_request_batch_def intro: core_run.intros end_batch_run)

lemma bio_refines: "bio_run ds s \<Longrightarrow> core_run count_sub_guarded ds s"
proof (induction rule: bio_run.induct)
  case (bio_submit s b now bio r)
  then show ?case
    using start_bio_cases[of s b now bio r] core_table by (blast intro: core_same core_start)
next
  case (bio_end s mem b now bio)
  then show ?case
    using bio_endio_cases[of s bio "mem bio" b now] core_table[of count_sub_guarded ds s]
    by (auto simp: consistent_def intro: core_same core_finish)
qed (auto intro: core_run.intros)

section \<open>Accounts\<close>

lemma slot_inj: "slot_of ds d = slot_of ds e \<Longrightarrow> slot_of ds d < MAP_SIZE \<Longrightarrow> MAP_SIZE \<le> length ds \<Longrightarrow> d = e"
  by (metis slot_of_less)

lemma starts_counts:
  assumes "starts a c s s'" "length (io_res s) = RES_ENTRIES" "j < MAP_SIZE"
  shows "start_count (io_res s' ! j) =
      start_count (io_res s ! j) + of_bool (slot_of (devs (io_res s)) (dev_of c) = j)"
    and "finish_count (io_res s' ! j) = finish_count (io_res s ! j)"
proof -
  let ?k = "slot_of (devs (io_res s)) (dev_of c)"
  obtain t where "io_res s' = (io_res s)[?k := (io_res s ! ?k)
      \<lparr>start_count := start_count (io_res s ! ?k) + 1, io_type := t\<rparr>]"
    using assms(1) unfolding starts_def Let_def by blast
  with assms show "start_count (io_res s' ! j) = start_count (io_res s ! j) + of_bool (?k = j)"
    and "finish_count (io_res s' ! j) = finish_count (io_res s ! j)"
    by (cases "?k = j"; simp)+
qed

lemma finishes_counts:
  assumes "finishes sub a c s s'" "length (io_res s) = RES_ENTRIES" "j < MAP_SIZE"
  shows "finish_count (io_res s' ! j) =
      finish_count (io_res s ! j) + of_bool (slot_of (devs (io_res s)) (dev_of c) = j)"
    and "start_count (io_res s' ! j) = start_count (io_res s ! j)"
proof -
  let ?k = "slot_of (devs (io_res s)) (dev_of c)"
  obtain t o' l where "io_res s' = (io_res s)[?k := (io_res s ! ?k)
      \<lparr>finish_count := finish_count (io_res s ! ?k) + 1, finish_over_time := o', duration := l, io_type := t\<rparr>]"
    using assms(1) unfolding finishes_def Let_def by blast
  with assms show "finish_count (io_res s' ! j) = finish_count (io_res s ! j) + of_bool (?k = j)"
    and "start_count (io_res s' ! j) = start_count (io_res s ! j)"
    by (cases "?k = j"; simp)+
qed

lemma RES_ge: "MAP_SIZE \<le> RES_ENTRIES" by simp

lemma acct_starts:
  assumes a: "acct s" and st: "starts k c s s'" and wf: "wf_map IO_ENTRIES (io_map s')"
  shows "acct s'"
proof -
  let ?ds = "devs (io_res s)"
  have len: "length (io_res s) = RES_ENTRIES" using a by (simp add: acct_def)
  have ds': "devs (io_res s') = ?ds" using starts_devs[OF st len] .
  have fl: "flight P (io_map s') = flight P (io_map s) + of_bool (P c)" for P
    using st by (auto simp: starts_def Let_def flight_insert)
  show ?thesis
    unfolding acct_def ds' Let_def
  proof (intro conjI allI impI)
    fix d assume d: "fst d \<noteq> 0" "slot_of ?ds d < MAP_SIZE"
    have old: "start_count (io_res s ! slot_of ?ds d) - finish_count (io_res s ! slot_of ?ds d) =
        of_nat (flight (\<lambda>c. dev_of c = d) (io_map s))"
      using a d by (cases d) (simp add: acct_def Let_def)
    have "slot_of ?ds (dev_of c) = slot_of ?ds d \<longleftrightarrow> dev_of c = d"
      using slot_inj[OF sym d(2), of "dev_of c"] len by (metis RES_ge length_devs)
    then have "start_count (io_res s' ! slot_of ?ds d) - finish_count (io_res s' ! slot_of ?ds d) =
        of_nat (flight (\<lambda>c. dev_of c = d) (io_map s)) + of_bool (dev_of c = d)"
      unfolding starts_counts[OF st len d(2)] old[symmetric] by simp
    then show "start_count (io_res s' ! slot_of ?ds d) - finish_count (io_res s' ! slot_of ?ds d) =
        of_nat (flight (\<lambda>c. dev_of c = d) (io_map s'))"
      unfolding fl by simp
  qed (use wf starts_length[OF st] len in auto)
qed

lemma acct_finishes:
  assumes a: "acct s" and fi: "finishes sub k c s s'" and wf: "wf_map IO_ENTRIES (io_map s')"
  shows "acct s'"
proof -
  let ?ds = "devs (io_res s)"
  have len: "length (io_res s) = RES_ENTRIES" and wf0: "wf_map IO_ENTRIES (io_map s)"
    using a by (simp_all add: acct_def)
  have ds': "devs (io_res s') = ?ds" using finishes_devs[OF fi len] .
  have fl: "flight P (io_map s) = flight P (io_map s') + of_bool (P c)" for P
    using fi flight_delete[OF wf0, of k c P] by (auto simp: finishes_def Let_def)
  show ?thesis
    unfolding acct_def ds' Let_def
  proof (intro conjI allI impI)
    fix d assume d: "fst d \<noteq> 0" "slot_of ?ds d < MAP_SIZE"
    have old: "start_count (io_res s ! slot_of ?ds d) - finish_count (io_res s ! slot_of ?ds d) =
        of_nat (flight (\<lambda>c. dev_of c = d) (io_map s))"
      using a d by (cases d) (simp add: acct_def Let_def)
    have "slot_of ?ds (dev_of c) = slot_of ?ds d \<longleftrightarrow> dev_of c = d"
      using slot_inj[OF sym d(2), of "dev_of c"] len by (metis RES_ge length_devs)
    then have "start_count (io_res s' ! slot_of ?ds d) - finish_count (io_res s' ! slot_of ?ds d) =
        of_nat (flight (\<lambda>c. dev_of c = d) (io_map s)) - of_bool (dev_of c = d)"
      unfolding finishes_counts[OF fi len d(2)] old[symmetric] by simp
    then show "start_count (io_res s' ! slot_of ?ds d) - finish_count (io_res s' ! slot_of ?ds d) =
        of_nat (flight (\<lambda>c. dev_of c = d) (io_map s'))"
      unfolding fl by simp
  qed (use wf finishes_length[OF fi] len in auto)
qed

lemma core_acct: "core_run sub ds s \<Longrightarrow> acct s"
proof (induction rule: core_run.induct)
  case core_init
  have "start_count r = 0 \<and> finish_count r = 0" if "r \<in> set (io_res (claimed ds))" for r
    using that by (auto simp: claimed_def init_stage_maps_def zero_stage_def)
  moreover have "io_res (claimed ds) ! k \<in> set (io_res (claimed ds))" if "k < MAP_SIZE" for k
    using that by simp
  ultimately have "k < MAP_SIZE \<Longrightarrow> start_count (io_res (claimed ds) ! k) = 0 \<and>
      finish_count (io_res (claimed ds) ! k) = 0" for k by blast
  then show ?case
    by (auto simp: acct_def Let_def simp del: claimed_devs)
      (auto simp: claimed_def init_stage_maps_def wf_map_def flight_def)
next
  case (core_start s a c s')
  then show ?case using acct_starts core_wf core_run.core_start by metis
next
  case (core_finish s a c s')
  then show ?case using acct_finishes core_wf core_run.core_finish by metis
qed (auto simp: acct_def same_maps_def)

text \<open>The guarded counts: what a second holds for a slot never exceeds what still flies.\<close>

definition in_second :: "(int \<times> int) list \<Rightarrow> nat \<Rightarrow> nat \<Rightarrow> io_counter \<Rightarrow> bool" where
  "in_second ds sec k c \<longleftrightarrow>
     key32 (unat (start_time c div THRESHOLD)) = sec \<and> slot_of ds (dev_of c) = k"

definition counted :: "stage_maps \<Rightarrow> bool" where
  "counted s \<longleftrightarrow> (\<forall>sec c. bpf_lookup (io_res_2 s) sec = Some c \<longrightarrow> length c = MAP_SIZE \<and>
     (\<forall>k < MAP_SIZE. 0 \<le> c ! k \<and> c ! k \<le> int (flight (in_second (devs (io_res s)) sec k) (io_map s))))"

lemma update_any_lookup:
  "bpf_lookup (snd (bpf_update n BPF_ANY k v m)) x = Some c \<Longrightarrow>
   bpf_lookup m x = Some c \<or> x = k \<and> c = v"
  by (auto simp: bpf_update_def bpf_lookup_def update_conv' split: if_splits)

lemma count_add_cases:
  assumes "bpf_lookup (count_add n sec k m) x = Some l"
  obtains "bpf_lookup m x = Some l" | "l = replicate MAP_SIZE 0"
  | l0 where "bpf_lookup m sec = Some l0" "x = sec" "l = l0[k := to_i32 (l0 ! k + n)]"
proof (cases "bpf_lookup m sec")
  case None
  with assms that show ?thesis
    using update_any_lookup[of MAX_IO_TIME sec "replicate MAP_SIZE 0" m x l] by (auto simp: count_add_def)
next
  case (Some l0)
  with assms that show ?thesis
    by (auto simp: count_add_def bpf_lookup_def update_conv' split: if_splits)
qed

lemma count_sub_guarded_cases:
  assumes "bpf_lookup (count_sub_guarded sec k m) x = Some l" "k < MAP_SIZE"
  obtains "bpf_lookup m x = Some l" "x = sec \<longrightarrow> l ! k \<le> 0" | "l = replicate MAP_SIZE 0"
  | l0 where "bpf_lookup m sec = Some l0" "0 < l0 ! k" "x = sec" "l = l0[k := to_i32 (l0 ! k - 1)]"
proof (cases "bpf_lookup m sec")
  case None
  with assms that show ?thesis
    using update_any_lookup[of MAX_IO_TIME sec "replicate MAP_SIZE 0" m x l]
    by (cases "x = sec") (auto simp: count_sub_guarded_def)
next
  case (Some l0)
  show ?thesis
  proof (cases "0 < l0 ! k")
    case True
    with Some assms that show ?thesis
      by (auto simp: count_sub_guarded_def bpf_lookup_def update_conv' split: if_splits)
  next
    case False
    with Some assms that show ?thesis by (cases "x = sec") (auto simp: count_sub_guarded_def)
  qed
qed

lemma counted_starts:
  assumes c: "counted s" and st: "starts a i s s'" and len: "length (io_res s) = RES_ENTRIES"
    and wf: "wf_map IO_ENTRIES (io_map s')"
  shows "counted s'"
proof -
  let ?ds = "devs (io_res s)"
  let ?k = "slot_of ?ds (dev_of i)"
  let ?sec = "key32 (unat (start_time i div THRESHOLD))"
  have ds': "devs (io_res s') = ?ds" using starts_devs[OF st len] .
  have fl: "flight P (io_map s') = flight P (io_map s) + of_bool (P i)" for P
    using st by (auto simp: starts_def Let_def flight_insert)
  have r2: "io_res_2 s' = count_add 1 ?sec ?k (io_res_2 s)" and k: "?k < MAP_SIZE"
    using st by (auto simp: starts_def Let_def)
  have hit: "in_second ?ds ?sec ?k i" by (simp add: in_second_def)
  have le: "int (flight P (io_map s')) \<le> int IO_ENTRIES" for P
    using flight_le[OF wf, of P] by linarith
  show ?thesis
    unfolding counted_def ds'
  proof (intro allI impI)
    fix sec l assume l: "bpf_lookup (io_res_2 s') sec = Some l"
    consider (old) "bpf_lookup (io_res_2 s) sec = Some l" | (new) "l = replicate MAP_SIZE 0"
      | (hit) l0 where "bpf_lookup (io_res_2 s) ?sec = Some l0" "sec = ?sec" "l = l0[?k := to_i32 (l0 ! ?k + 1)]"
      using l[unfolded r2] by (rule count_add_cases) (use that in blast)+
    then show "length l = MAP_SIZE \<and> (\<forall>k < MAP_SIZE. 0 \<le> l ! k \<and>
        l ! k \<le> int (flight (in_second ?ds sec k) (io_map s')))"
    proof cases
      case old
      then show ?thesis using c by (fastforce simp: counted_def fl)
    next
      case (hit l0)
      then have b: "length l0 = MAP_SIZE" "\<And>k. k < MAP_SIZE \<Longrightarrow> 0 \<le> l0 ! k \<and>
          l0 ! k \<le> int (flight (in_second ?ds ?sec k) (io_map s))"
        using c by (auto simp: counted_def)
      have "l0 ! ?k + 1 \<le> int (flight (in_second ?ds ?sec ?k) (io_map s'))"
        using b(2)[OF k] \<open>in_second ?ds ?sec ?k i\<close> by (simp add: fl)
      then have "to_i32 (l0 ! ?k + 1) = l0 ! ?k + 1"
        using b(2)[OF k] le[of "in_second ?ds ?sec ?k"] by (intro to_i32_id) auto
      then have t: "l ! k = (if k = ?k then l0 ! ?k + 1 else l0 ! k)" if "k < MAP_SIZE" for k
        using that b(1) hit by (simp add: nth_list_update)
      have "0 \<le> l ! k \<and> l ! k \<le> int (flight (in_second ?ds sec k) (io_map s'))" if "k < MAP_SIZE" for k
        using t[OF that] b(2)[OF that] hit \<open>in_second ?ds ?sec ?k i\<close> by (cases "k = ?k") (auto simp: fl)
      with b hit show ?thesis by simp
    qed simp
  qed
qed

lemma counted_finishes:
  assumes c: "counted s" and fi: "finishes count_sub_guarded a i s s'" and len: "length (io_res s) = RES_ENTRIES"
    and wf: "wf_map IO_ENTRIES (io_map s)"
  shows "counted s'"
proof -
  let ?ds = "devs (io_res s)"
  let ?k = "slot_of ?ds (dev_of i)"
  let ?sec = "key32 (unat (start_time i div THRESHOLD))"
  have ds': "devs (io_res s') = ?ds" using finishes_devs[OF fi len] .
  have fl: "flight P (io_map s) = flight P (io_map s') + of_bool (P i)" for P
    using fi flight_delete[OF wf, of a i P] by (auto simp: finishes_def Let_def)
  have r2: "io_res_2 s' = count_sub_guarded ?sec ?k (io_res_2 s)" and k: "?k < MAP_SIZE"
    using fi by (auto simp: finishes_def Let_def)
  have le: "int (flight P (io_map s)) \<le> int IO_ENTRIES" for P
    using flight_le[OF wf, of P] by linarith
  have miss: "in_second ?ds sec k i \<Longrightarrow> sec = ?sec \<and> k = ?k" for sec k
    by (auto simp: in_second_def)
  show ?thesis
    unfolding counted_def ds'
  proof (intro allI impI)
    fix sec l assume l: "bpf_lookup (io_res_2 s') sec = Some l"
    consider (old) "bpf_lookup (io_res_2 s) sec = Some l" "sec = ?sec \<longrightarrow> l ! ?k \<le> 0"
      | (new) "l = replicate MAP_SIZE 0"
      | (hit) l0 where "bpf_lookup (io_res_2 s) ?sec = Some l0" "0 < l0 ! ?k" "sec = ?sec"
          "l = l0[?k := to_i32 (l0 ! ?k - 1)]"
      using l[unfolded r2] k by (rule count_sub_guarded_cases) (use that in blast)+
    then show "length l = MAP_SIZE \<and> (\<forall>k < MAP_SIZE. 0 \<le> l ! k \<and>
        l ! k \<le> int (flight (in_second ?ds sec k) (io_map s')))"
    proof cases
      case old
      then have b: "length l = MAP_SIZE" "\<And>k. k < MAP_SIZE \<Longrightarrow> 0 \<le> l ! k \<and>
          l ! k \<le> int (flight (in_second ?ds sec k) (io_map s))"
        using c by (auto simp: counted_def)
      have "l ! k \<le> int (flight (in_second ?ds sec k) (io_map s'))" if "k < MAP_SIZE" for k
        using b(2)[OF that] old(2) miss[of sec k] by (cases "in_second ?ds sec k i") (auto simp: fl)
      with b show ?thesis by blast
    next
      case (hit l0)
      then have b: "length l0 = MAP_SIZE" "\<And>k. k < MAP_SIZE \<Longrightarrow> 0 \<le> l0 ! k \<and>
          l0 ! k \<le> int (flight (in_second ?ds ?sec k) (io_map s))"
        using c by (auto simp: counted_def)
      have t: "to_i32 (l0 ! ?k - 1) = l0 ! ?k - 1"
        using b(2)[OF k] hit le[of "in_second ?ds ?sec ?k"] by (intro to_i32_id) auto
      have u: "l ! k = (if k = ?k then l0 ! ?k - 1 else l0 ! k)" if "k < MAP_SIZE" for k
        using that b(1) hit t by (simp add: nth_list_update)
      have "0 \<le> l ! k \<and> l ! k \<le> int (flight (in_second ?ds sec k) (io_map s'))" if "k < MAP_SIZE" for k
      proof (cases "k = ?k")
        case True
        have "flight (in_second ?ds ?sec k) (io_map s) \<le> flight (in_second ?ds ?sec k) (io_map s') + 1"
          unfolding fl[of "in_second ?ds ?sec k"] by simp
        moreover have "0 < l0 ! k" and "l ! k = l0 ! k - 1" using True hit(2) u[OF that] by simp_all
        ultimately show ?thesis using b(2)[OF that] hit(3) by simp
      next
        case False
        then have "\<not> in_second ?ds ?sec k i" using miss by blast
        then have "flight (in_second ?ds ?sec k) (io_map s) = flight (in_second ?ds ?sec k) (io_map s')"
          unfolding fl[of "in_second ?ds ?sec k"] by simp
        with False u[OF that] b(2)[OF that] hit(3) show ?thesis by simp
      qed
      with b hit show ?thesis by auto
    qed simp
  qed
qed

lemma core_counted: "core_run count_sub_guarded ds s \<Longrightarrow> counted s"
proof (induction rule: core_run.induct)
  case core_init
  show ?case by (simp add: counted_def claimed_def init_stage_maps_def bpf_lookup_def)
next
  case (core_start s a c s')
  then show ?case using counted_starts core_table core_wf core_run.core_start by metis
next
  case (core_finish s a c s')
  then show ?case using counted_finishes core_table core_wf by metis
next
  case (core_dump s sec)
  then show ?case
    by (auto simp: counted_def bpf_lookup_def bpf_delete_def delete_conv' split: if_splits)
qed (simp add: counted_def same_maps_def)

section \<open>Properties\<close>


lemma find_first: "sd_major (res ! 0) = maj \<Longrightarrow> sd_minor (res ! 0) = mnr \<Longrightarrow> find_key res maj mnr 0 MAP_SIZE = 0"
proof -
  have "MAP_SIZE = Suc 14" by simp
  then show "sd_major (res ! 0) = maj \<Longrightarrow> sd_minor (res ! 0) = mnr \<Longrightarrow> find_key res maj mnr 0 MAP_SIZE = 0"
    by (metis find_key.simps(2))
qed

definition demo_rq :: kreq where
  "demo_rq = \<lparr>rq_major = 8, rq_minor = 0, rq_cmd_flags = 1, rq_next = 0\<rparr>"

definition demo_run :: stage_maps where
  "demo_run = kprobe_blk_mq_start_request True 5000000000 4096 demo_rq (claimed [(8, 0)])"

lemma demo_reachable: "rq_run [(8, 0)] demo_run"
  unfolding demo_run_def by (intro rq_run.intros)



definition demo_bios :: stage_maps where
  "demo_bios = kprobe_blk_mq_submit_bio True 5000000001 8192 demo_rq
     (kprobe_blk_mq_submit_bio True 5000000000 4096 demo_rq (claimed [(8, 0)]))"

lemma demo_bios_reachable: "bio_run [(8, 0)] demo_bios"
  unfolding demo_bios_def by (intro bio_run.intros)

lemma demo_bios_count: "bpf_lookup (io_res_2 demo_bios) 5 = Some ((replicate 15 0)[0 := 1])"
  by (simp add: demo_bios_def kprobe_blk_mq_submit_bio_def find_matching_keys claimed_def init_stage_maps_def
      demo_rq_def init_io_counter_def bpf_lookup_def bpf_update_def key32_def Let_def array_lookup_def
      count_add_def update_curr_data_in_start_def find_first to_i32_def nth_append zero_stage_def)


text \<open>A request started in a second that has no count yet leaves the table as it was but for its
  own entries when it is freed, and drives the count of that second to -1: the start only creates
  the entry, the finish decrements it without the guard the bio probe has.\<close>

lemma first_request_of_second:
  assumes len: "length (io_res s) = RES_ENTRIES" and maj: "rq_major r \<noteq> 0"
    and slot: "slot_of (devs (io_res s)) (rq_major r, rq_minor r) = k" and k: "k < MAP_SIZE"
    and new: "bpf_lookup (io_map s) (key32 rq) = None" and room: "length (io_map s) < IO_ENTRIES"
    and sec: "bpf_lookup (io_res_2 s) (key32 (unat (now div THRESHOLD))) = None"
    and room2: "length (io_res_2 s) < MAX_IO_TIME"
    and wf: "wf_map IO_ENTRIES (io_map s)"
  shows "let s1 = kprobe_blk_mq_start_request b now rq r s;
             s2 = kprobe_blk_mq_free_request b later rq r s1
         in bpf_lookup (io_map s1) (key32 rq) \<noteq> None \<and>
            bpf_lookup (io_map s2) = bpf_lookup (io_map s) \<and>
            bpf_lookup (io_res_2 s2) (key32 (unat (now div THRESHOLD))) =
              Some ((replicate MAP_SIZE 0)[k := - 1])"
proof -
  let ?c = "init_io_counter now (rq_major r) (rq_minor r)"
  let ?p = "\<lparr>up_major = rq_major r, up_minor = rq_minor r, up_cmd_flags = rq_cmd_flags r,
             curr_start_range = now div THRESHOLD\<rparr>"
  let ?m = "AList.update (key32 rq) ?c (io_map s)"
  let ?s1 = "s\<lparr>io_map := ?m, io_res := (io_res s)[k := update_curr_data_in_start ?p (io_res s ! k)],
    io_res_2 := AList.update (key32 (unat (now div THRESHOLD))) (replicate MAP_SIZE 0) (io_res_2 s)\<rparr>"
  have fk: "find_key (io_res s) (rq_major r) (rq_minor r) 0 MAP_SIZE = k"
    using find_key_slot[of "io_res s"] len slot by simp
  have s1: "kprobe_blk_mq_start_request b now rq r s = ?s1"
    using len maj k new room sec room2
    by (simp add: kprobe_blk_mq_start_request_def find_matching_keys fk Let_def init_io_counter_def
        bpf_update_def array_lookup_def count_add_def)
  have d1: "devs (io_res ?s1) = devs (io_res s)"
    using slot k len slot_of_less[of "devs (io_res s)" "(rq_major r, rq_minor r)"]
    by (simp add: devs_update update_curr_data_in_start_def)
  then have fk1: "find_key (io_res ?s1) (rq_major r) (rq_minor r) 0 MAP_SIZE = k"
    using find_key_slot[of "io_res ?s1"] len slot by simp
  have l1: "bpf_lookup (io_map ?s1) (key32 rq) = Some ?c"
    by (simp add: bpf_lookup_def update_conv')
  have "bpf_lookup (bpf_delete (key32 rq) ?m) = bpf_lookup (io_map s)"
    using wf new room bpf.insert_then_delete[of IO_ENTRIES "io_map s" "key32 rq" BPF_NOEXIST ?c ?m]
    by (simp add: bpf_update_def)
  moreover have "to_i32 (- 1) = - 1" by (simp add: to_i32_def)
  moreover have "io_res_2 (kprobe_blk_mq_free_request b later rq r ?s1) =
      count_add (- 1) (key32 (unat (now div THRESHOLD))) k (io_res_2 ?s1)"
    and "io_map (kprobe_blk_mq_free_request b later rq r ?s1) = bpf_delete (key32 rq) ?m"
    using maj k fk1 l1
    by (simp_all add: kprobe_blk_mq_free_request_def end_request_def find_matching_keys Let_def init_io_counter_def)
  ultimately show ?thesis
    unfolding s1 Let_def using l1 k
    by (simp add: count_add_def bpf_lookup_def update_conv')
qed

lemma first_request_of_second_example:
  "let s = claimed [(8, 0)];
       s1 = kprobe_blk_mq_start_request True 5000000000 4096 demo_rq s;
       s2 = kprobe_blk_mq_free_request True 5100000000 4096 demo_rq s1
   in bpf_lookup (io_map s1) (key32 4096) \<noteq> None \<and> bpf_lookup (io_map s2) = bpf_lookup (io_map s) \<and>
      bpf_lookup (io_res_2 s2) (key32 (unat ((5000000000::u64) div THRESHOLD))) =
        Some ((replicate MAP_SIZE 0)[0 := - 1])"
  unfolding Let_def[of "claimed [(8, 0)]"]
  by (rule first_request_of_second)
    (simp_all add: demo_rq_def slot_of_def, simp_all add: claimed_def init_stage_maps_def bpf_lookup_def wf_map_def)

text \<open>C39: A batch whose first request was never recorded leaves all maps as they are, however many
  recorded requests follow it: the loop skips such a request without advancing to the next one, so
  every one of its rounds looks at the same request.\<close>

theorem batch_stuck:
  assumes "rq_major (mem rq) \<noteq> 0" and "bpf_lookup (io_map s) (key32 rq) = None"
  shows "kprobe_blk_mq_end_request_batch bs clock mem rq s = s"
proof -
  have "end_request b now rq (mem rq) s = (False, s)" for b now
    using assms by (simp add: end_request_def Let_def)
  then have "end_batch_loop bs clock mem is rq s = s" for "is"
    by (induction "is") (simp_all add: Let_def)
  then show ?thesis by (simp add: kprobe_blk_mq_end_request_batch_def)
qed

theorem batch_stuck_witness:
  "kprobe_blk_mq_end_request_batch (\<lambda>_. True) (\<lambda>_. 6000000000) (\<lambda>p. demo_rq\<lparr>rq_next := 4096\<rparr>) 8192 demo_run =
   demo_run \<and> bpf_lookup (io_map demo_run) (key32 4096) \<noteq> None"
proof
  have m: "io_map demo_run = [(4096, init_io_counter 5000000000 8 0)]"
    by (simp add: demo_run_def kprobe_blk_mq_start_request_def find_matching_keys claimed_def init_stage_maps_def
        demo_rq_def init_io_counter_def bpf_lookup_def bpf_update_def key32_def Let_def find_first)
  then show "bpf_lookup (io_map demo_run) (key32 4096) \<noteq> None" by (simp add: key32_def bpf_lookup_def)
  show "kprobe_blk_mq_end_request_batch (\<lambda>_. True) (\<lambda>_. 6000000000) (\<lambda>p. demo_rq\<lparr>rq_next := 4096\<rparr>) 8192 demo_run =
    demo_run"
    by (rule batch_stuck) (simp_all add: demo_rq_def m key32_def bpf_lookup_def)
qed

end
