(* ===== verification/EbpfUser.thy ===== *)
theory EbpfUser
  imports EbpfKernel CText
begin

text \<open>
  \<open>ebpf_collector/ebpf_collector.c\<close>: the collector in user space. It picks up to 15 block devices,
  gives each a slot of the kernel's result arrays and prints once per second, per stage and slot,
  the totals and the number of IOs that are late. The BPF maps are those of \<open>EbpfKernel\<close>, passed
  as a value; the log lines are not modelled. A directory entry is delivered with a first character
  for its type ('d', 'l', 'b', '-'), a \<open>stat\<close> as the type followed by the device number.
\<close>

section \<open>Device names\<close>

definition extract_device_name :: "string \<Rightarrow> world \<Rightarrow> ((int \<times> string) option \<times> world) option" where
  "extract_device_name path w =
     (if CHR ''/'' \<notin> set path then Some (None, w)
      else
        let name = rev (takeWhile (\<lambda>c. c \<noteq> CHR ''/'') (rev path)) in
        if starts_with ''/dev/'' path then do {
          (m, w) \<leftarrow> call (Q_malloc (length name + 1)) w;
          Some (if m < 0 then None else Some (m, name), w) }
        else Some (None, w))"

text \<open>\<open>major\<close>, \<open>minor\<close> and \<open>makedev\<close> of the C library, on the numbers they pack.\<close>

definition stat_rdev :: "string \<Rightarrow> int \<times> int" where
  "stat_rdev d = (case scan_number (tl d) of
      None \<Rightarrow> (0, 0)
    | Some (_, ds, rest) \<Rightarrow> (int (nat_of_digits ds), atoi (tl rest)))"

function dev_loop :: "int \<Rightarrow> int \<times> int \<Rightarrow> world \<Rightarrow> ((int \<times> string) option \<times> world) option" where
  "dev_loop dir dev w = do {
     (r, entry, w) \<leftarrow> fetch (Q_readdir dir) w;
     if r < 0 then Some (None, w)
     else do {
       let path = fst (snprintf 1024 (''/dev/'' @ cstr (tl entry)));
       if hd entry = CHR ''d'' \<or> hd entry = CHR ''l'' then dev_loop dir dev w
       else do {
         (r, sb, w) \<leftarrow> fetch (Q_library ''stat'' [path]) w;
         if r = - 1 then dev_loop dir dev w
         else if stat_rdev sb = dev then extract_device_name path w
         else dev_loop dir dev w } } }"
  by pat_completeness auto
termination
  by (relation "measure (\<lambda>(d, n, w). length (script w))") (auto dest!: fetch_script)

declare dev_loop.simps [simp del]

definition find_device_name :: "int \<times> int \<Rightarrow> world \<Rightarrow> ((int \<times> string) option \<times> world) option" where
  "find_device_name dev w = do {
     (dir, w) \<leftarrow> call (Q_opendir ''/dev'') w;
     if dir < 0 then Some (None, w)
     else do {
       (device_name, w) \<leftarrow> dev_loop dir dev w;
       (_, w) \<leftarrow> call (Q_closedir dir) w;
       Some (device_name, w) } }"

section \<open>Late IOs\<close>

abbreviation IO_DUMP_DIFF :: int where "IO_DUMP_DIFF \<equiv> 3"
abbreviation IO_DUMP_THRESHOLD :: int where "IO_DUMP_THRESHOLD \<equiv> 120"

text \<open>The inner loop: the counts above the threshold are added, and whether there was none.\<close>

fun dump_counts :: "int list \<Rightarrow> nat list \<Rightarrow> int list \<Rightarrow> bool \<Rightarrow> int list \<times> bool" where
  "dump_counts count [] io_dump isempty = (io_dump, isempty)"
| "dump_counts count (key # keys) io_dump isempty =
     (if IO_DUMP_DIFF < count ! key
      then dump_counts count keys (io_dump[key := to_i32 (io_dump ! key + count ! key)]) False
      else dump_counts count keys io_dump isempty)"

text \<open>The second \<open>count_time\<close> seconds ago, as the 32-bit key.\<close>

definition io_dump_key :: "int \<Rightarrow> int \<Rightarrow> nat" where
  "io_dump_key curr_time count_time = nat (to_u32 (curr_time - count_time))"

definition dump_step :: "int \<Rightarrow> nat \<Rightarrow> nat \<Rightarrow> int list \<times> int list bpf_map \<Rightarrow> int list \<times> int list bpf_map" where
  "dump_step curr_time map_size count_time st = (case st of (io_dump, m) \<Rightarrow>
     let key = io_dump_key curr_time (int count_time) in
     case bpf_lookup m key of
       None \<Rightarrow> (io_dump, m)
     | Some count \<Rightarrow>
         (let age = to_u32 (curr_time - int key) in
          if 2 \<le> age then
            let (io_dump, isempty) = dump_counts count [0..<map_size] io_dump True in
            (io_dump, if isempty \<or> IO_DUMP_THRESHOLD < age then bpf_delete key m else m)
          else (io_dump, m)))"

text \<open>\<open>count_time\<close> runs from 150 down to 0.\<close>

definition update_io_dump ::
  "int \<Rightarrow> nat \<Rightarrow> int list \<times> int list bpf_map \<Rightarrow> int list \<times> int list bpf_map" where
  "update_io_dump uptime map_size st = fold (dump_step (to_u32 uptime) map_size) (rev [0..<151]) st"

section \<open>Printing\<close>

text \<open>\<open>%-7s\<close> and \<open>%10llu\<close>.\<close>

definition pad_right :: "nat \<Rightarrow> string \<Rightarrow> string" where
  "pad_right k s = s @ replicate (k - length s) (CHR '' '')"

definition pad_left :: "nat \<Rightarrow> string \<Rightarrow> string" where
  "pad_left k s = replicate (k - length s) (CHR '' '') @ s"

definition res_line :: "string \<Rightarrow> stage_data \<Rightarrow> int \<Rightarrow> char \<Rightarrow> string \<Rightarrow> string" where
  "res_line stage d io_dump ty name =
     pad_right 7 stage @ '' '' @ pad_left 10 (dec_nat (unat (finish_count d))) @ '' '' @
     pad_left 10 (dec_nat (unat (duration d))) @ '' '' @ dec_int io_dump @ '' '' @ [ty] @ '' '' @
     name @ [CHR 0x0a]"

text \<open>The device name is freed only on the path that prints.\<close>

fun print_map_res :: "stage_data list \<Rightarrow> string \<Rightarrow> nat list \<Rightarrow> int list \<Rightarrow> world \<Rightarrow> (int \<times> world) option" where
  "print_map_res res stage [] io_dump w = Some (0, w)"
| "print_map_res res stage (key # keys) io_dump w = (case array_lookup res key of
      None \<Rightarrow> Some (- 1, w)
    | Some counter \<Rightarrow> do {
        let ty = (case cstr (io_type counter) of [] \<Rightarrow> CHR 0x00 | c # _ \<Rightarrow> c);
        (device_name, w) \<leftarrow> find_device_name (sd_major counter, sd_minor counter) w;
        case device_name of
          None \<Rightarrow> print_map_res res stage keys io_dump w
        | Some (mem, name) \<Rightarrow>
            if ty \<noteq> CHR 0x00 then do {
              (_, w) \<leftarrow> call (Q_write 1 (res_line stage counter (io_dump ! key) ty name)) w;
              (_, w) \<leftarrow> call (Q_free mem) w;
              print_map_res res stage keys io_dump w }
            else print_map_res res stage keys io_dump w })"

section \<open>Start-up\<close>

text \<open>\<open>init_map\<close>: slot \<open>i\<close> is claimed by device \<open>i\<close> with all counters zero.\<close>

definition init_map :: "(int \<times> int) list \<Rightarrow> stage_data list \<Rightarrow> int \<times> stage_data list" where
  "init_map devices res =
     foldl (\<lambda>(e, res) i.
        if e \<noteq> 0 then (e, res)
        else if length res \<le> i then (1, res)
        else (0, res[i := zero_stage\<lparr>sd_major := fst (devices ! i), sd_minor := snd (devices ! i)\<rparr>]))
       (0, res) [0..<length devices]"

text \<open>
  One line of the configuration file: the section name it sets, or the value it gives to \<open>key\<close>.
\<close>

definition section_of :: "string \<Rightarrow> string \<Rightarrow> string" where
  "section_of line current =
     (let t = takeWhile (\<lambda>c. c \<noteq> CHR '']'') (tl line) in if t = [] then current else take 255 t)"

definition value_of :: "string \<Rightarrow> string \<Rightarrow> string option" where
  "value_of line key = (case strtok (CHR ''='') line of
      None \<Rightarrow> None
    | Some (token, rest) \<Rightarrow>
        if token = key then map_option fst (strtok (CHR ''='') rest) else None)"

function config_loop ::
  "int \<Rightarrow> string \<Rightarrow> string \<Rightarrow> string \<Rightarrow> world \<Rightarrow> ((int \<times> string) option \<times> world) option" where
  "config_loop fp sec key current w = do {
     (r, line, w) \<leftarrow> fetch (Q_fgets fp 1024) w;
     if r < 0 then Some (None, w)
     else do {
       let line = takeWhile (\<lambda>c. c \<noteq> CHR 0x0a) (cstr (take 1023 line));
       if line = [] \<or> hd line = CHR '';'' \<or> hd line = CHR ''#'' then config_loop fp sec key current w
       else if hd line = CHR ''['' then config_loop fp sec key (section_of line current) w
       else if current = sec then (case value_of line key of
           None \<Rightarrow> config_loop fp sec key current w
         | Some v \<Rightarrow> do {
             (m, w) \<leftarrow> call (Q_malloc (length v + 1)) w;
             Some (if m < 0 then None else Some (m, v), w) })
       else config_loop fp sec key current w } }"
  by pat_completeness auto
termination
  by (relation "measure (\<lambda>(f, s, k, c, w). length (script w))") (auto dest!: fetch_script)

declare config_loop.simps [simp del]

definition read_config_value ::
  "string \<Rightarrow> string \<Rightarrow> string \<Rightarrow> world \<Rightarrow> ((int \<times> string) option \<times> world) option" where
  "read_config_value file sec key w = do {
     (fp, w) \<leftarrow> call (Q_fopen file ''r'') w;
     if fp < 0 then Some (None, w)
     else do {
       (v, w) \<leftarrow> config_loop fp sec key [] w;
       (_, w) \<leftarrow> call (Q_fclose fp) w;
       Some (v, w) } }"

datatype ebpf_level = EL_NONE | EL_DEBUG | EL_INFO | EL_WARNING | EL_ERROR

definition ebpf_setLogLevel :: "string \<Rightarrow> ebpf_level \<Rightarrow> ebpf_level" where
  "ebpf_setLogLevel levelStr cur =
     (if levelStr = ''info'' then EL_INFO
      else if levelStr = ''warning'' then EL_WARNING
      else if levelStr = ''error'' then EL_ERROR
      else if levelStr = ''debug'' then EL_DEBUG
      else if levelStr = ''none'' then EL_NONE
      else cur)"

text \<open>The log level of the configuration file; a trailing carriage return is cut.\<close>

definition configure_level :: "ebpf_level \<Rightarrow> world \<Rightarrow> (ebpf_level \<times> world) option" where
  "configure_level cur w = do {
     (v, w) \<leftarrow> read_config_value ''/etc/sysSentry/collector.conf'' ''log'' ''level'' w;
     case v of
       None \<Rightarrow> Some (cur, w)
     | Some (m, level) \<Rightarrow> do {
         let level = (if last level = CHR 0x0d then butlast level else level);
         (_, w) \<leftarrow> call (Q_free m) w;
         Some (ebpf_setLogLevel level cur, w) } }"

function check_loop :: "string \<Rightarrow> int \<Rightarrow> world \<Rightarrow> (int \<times> world) option" where
  "check_loop path dir w = do {
     (r, _, w) \<leftarrow> fetch (Q_readdir dir) w;
     if r < 0 then do { (_, w) \<leftarrow> call (Q_closedir dir) w; Some (0, w) }
     else do {
       (r, sb, w) \<leftarrow> fetch (Q_library ''stat'' [path]) w;
       if r = 0 \<and> sb \<noteq> [] \<and> hd sb = CHR ''d'' then do {
         (_, w) \<leftarrow> call (Q_closedir dir) w;
         Some (1, w) }
       else check_loop path dir w } }"
  by pat_completeness auto
termination
  by (relation "measure (\<lambda>(p, d, w). length (script w))") (auto dest!: fetch_script)

declare check_loop.simps [simp del]

definition check_for_device :: "string \<Rightarrow> world \<Rightarrow> (int \<times> world) option" where
  "check_for_device device_name w = do {
     let path = fst (snprintf 256 (''/sys/block/'' @ device_name));
     (dir, w) \<leftarrow> call (Q_opendir path) w;
     if dir < 0 then Some (0, w) else check_loop path dir w }"

text \<open>
  The scan of /dev in \<open>main\<close>. A failing \<open>lstat\<close> leaves the buffer as it was: \<open>statbuf\<close> is what
  the stack holds, and the entry is skipped only when that also is no block device.
\<close>

definition excluded_name :: "string \<Rightarrow> bool" where
  "excluded_name n \<longleftrightarrow> starts_with ''dm-'' n \<or> starts_with ''loop'' n \<or> starts_with ''md'' n"

partial_function (option) scan_devices ::
  "string \<Rightarrow> int \<Rightarrow> (int \<times> int) list \<Rightarrow> world \<Rightarrow> ((int \<times> int) list \<times> world) option" where
  "scan_devices junk dir devices w = do {
     (r, entry, w) \<leftarrow> fetch (Q_readdir dir) w;
     if r < 0 then Some (devices, w)
     else if hd entry \<noteq> CHR ''b'' then scan_devices junk dir devices w
     else do {
       let d_name = cstr (tl entry);
       (r, sb, w) \<leftarrow> fetch (Q_library ''lstat'' [fst (snprintf 1024 (''/dev/'' @ d_name))]) w;
       let statbuf = (if r \<noteq> 0 then junk else sb);
       if r \<noteq> 0 \<and> \<not> hd statbuf = CHR ''b'' then scan_devices junk dir devices w
       else if excluded_name d_name then scan_devices junk dir devices w
       else do {
         (ok, w) \<leftarrow> check_for_device d_name w;
         if ok = 0 then scan_devices junk dir devices w
         else do {
           let devices = devices @ [stat_rdev statbuf];
           if MAP_SIZE \<le> length devices then Some (devices, w)
           else scan_devices junk dir devices w } } } }"

section \<open>The collector\<close>

text \<open>The result arrays and the counts of the four stages.\<close>

record collector =
  c_blk :: stage_maps
  c_bio :: stage_maps
  c_tag :: stage_maps
  c_wbt :: stage_maps

text \<open>One stage of one second: the late IOs, then the lines.\<close>

definition collect_stage ::
  "nat \<Rightarrow> string \<Rightarrow> stage_maps \<Rightarrow> world \<Rightarrow> (int \<times> stage_maps \<times> world) option" where
  "collect_stage device_count stage s w = do {
     (uptime, w) \<leftarrow> call (Q_library ''sysinfo'' []) w;
     let (io_dump, m) = update_io_dump uptime device_count (replicate MAP_SIZE 0, io_res_2 s);
     let s = s\<lparr>io_res_2 := m\<rparr>;
     (err, w) \<leftarrow> print_map_res (io_res s) stage [0..<device_count] io_dump w;
     Some (err, s, w) }"

definition collect_second :: "nat \<Rightarrow> collector \<Rightarrow> world \<Rightarrow> (int \<times> collector \<times> world) option" where
  "collect_second device_count c w = do {
     (_, w) \<leftarrow> call (Q_sleep 1) w;
     (_, w) \<leftarrow> call (Q_library ''ring_buffer__poll'' []) w;
     (err, s, w) \<leftarrow> collect_stage device_count ''rq_driver'' (c_blk c) w;
     let c = c\<lparr>c_blk := s\<rparr>;
     if err \<noteq> 0 then Some (err, c, w) else do {
     (err, s, w) \<leftarrow> collect_stage device_count ''bio'' (c_bio c) w;
     let c = c\<lparr>c_bio := s\<rparr>;
     if err \<noteq> 0 then Some (err, c, w) else do {
     (err, s, w) \<leftarrow> collect_stage device_count ''gettag'' (c_tag c) w;
     let c = c\<lparr>c_tag := s\<rparr>;
     if err \<noteq> 0 then Some (err, c, w) else do {
     (err, s, w) \<leftarrow> collect_stage device_count ''wbt'' (c_wbt c) w;
     Some (err, c\<lparr>c_wbt := s\<rparr>, w) } } } }"

text \<open>
  The endless loop: \<open>probes n\<close> is what the probes do to the maps before second \<open>n\<close>, \<open>exiting n\<close>
  whether a signal has arrived at its end.
\<close>

partial_function (option) collect_loop ::
  "(nat \<Rightarrow> collector \<Rightarrow> collector) \<Rightarrow> (nat \<Rightarrow> bool) \<Rightarrow> nat \<Rightarrow> nat \<Rightarrow> collector \<Rightarrow> world
     \<Rightarrow> (int \<times> collector \<times> world) option" where
  "collect_loop probes exiting device_count n c w = do {
     (err, c, w) \<leftarrow> collect_second device_count (probes n c) w;
     if err \<noteq> 0 \<or> exiting n then Some (err, c, w)
     else collect_loop probes exiting device_count (n + 1) c w }"

definition init_maps :: "(int \<times> int) list \<Rightarrow> collector \<Rightarrow> int \<times> collector" where
  "init_maps devices c =
     (let (e, r) = init_map devices (io_res (c_blk c)); c = c\<lparr>c_blk := (c_blk c)\<lparr>io_res := r\<rparr>\<rparr> in
      if e \<noteq> 0 then (1, c) else
      let (e, r) = init_map devices (io_res (c_bio c)); c = c\<lparr>c_bio := (c_bio c)\<lparr>io_res := r\<rparr>\<rparr> in
      if e \<noteq> 0 then (1, c) else
      let (e, r) = init_map devices (io_res (c_wbt c)); c = c\<lparr>c_wbt := (c_wbt c)\<lparr>io_res := r\<rparr>\<rparr> in
      if e \<noteq> 0 then (1, c) else
      let (e, r) = init_map devices (io_res (c_tag c)); c = c\<lparr>c_tag := (c_tag c)\<lparr>io_res := r\<rparr>\<rparr> in
      if e \<noteq> 0 then (1, c) else (0, c))"

definition collector_main ::
  "string \<Rightarrow> (nat \<Rightarrow> collector \<Rightarrow> collector) \<Rightarrow> (nat \<Rightarrow> bool) \<Rightarrow> collector \<Rightarrow> world
     \<Rightarrow> (int \<times> world) option" where
  "collector_main junk probes exiting c w = do {
     (_, w) \<leftarrow> configure_level EL_INFO w;
     (err, w) \<leftarrow> call (Q_library ''argp_parse'' []) w;
     if err \<noteq> 0 then Some (err, w) else do {
     (dir, w) \<leftarrow> call (Q_opendir ''/dev'') w;
     if dir < 0 then Some (1, w) else do {
     (devices, w) \<leftarrow> scan_devices junk dir [] w;
     (_, w) \<leftarrow> call (Q_closedir dir) w;
     (skel, w) \<leftarrow> call (Q_library ''ebpf_collector_bpf__open'' []) w;
     if skel < 0 then Some (1, w) else do {
     (err, w) \<leftarrow> call (Q_library ''ebpf_collector_bpf__load'' []) w;
     if err \<noteq> 0 then do {
       (_, w) \<leftarrow> call (Q_library ''ebpf_collector_bpf__destroy'' []) w; Some (1, w) } else do {
     (err, w) \<leftarrow> call (Q_library ''ebpf_collector_bpf__attach'' []) w;
     if err \<noteq> 0 then do {
       (_, w) \<leftarrow> call (Q_library ''ebpf_collector_bpf__destroy'' []) w; Some (1, w) } else do {
     (rb, w) \<leftarrow> call (Q_library ''ring_buffer__new'' []) w;
     if rb < 0 then do {
       (_, w) \<leftarrow> call (Q_library ''ebpf_collector_bpf__destroy'' []) w; Some (1, w) } else do {
     let (e, c) = init_maps devices c;
     (ret, w) \<leftarrow> (if e \<noteq> 0 then Some (1, w) else do {
        (err, c, w) \<leftarrow> collect_loop probes exiting (length devices) 0 c w;
        Some (- err, w) });
     (_, w) \<leftarrow> call (Q_library ''ring_buffer__free'' []) w;
     (_, w) \<leftarrow> call (Q_library ''ebpf_collector_bpf__destroy'' []) w;
     Some (ret, w) } } } } } } }"

section \<open>What a second reports\<close>

definition late_count :: "int list option \<Rightarrow> nat \<Rightarrow> int" where
  "late_count c k = (case c of None \<Rightarrow> 0 | Some l \<Rightarrow> if IO_DUMP_DIFF < l ! k then l ! k else 0)"

text \<open>A second that is dropped after the report: no late IO in it, or too old.\<close>

definition expired :: "nat \<Rightarrow> nat \<Rightarrow> int list \<Rightarrow> bool" where
  "expired map_size age c \<longleftrightarrow> (\<forall>k \<in> set [0..<map_size]. c ! k \<le> IO_DUMP_DIFF) \<or> IO_DUMP_THRESHOLD < int age"

lemma to_i32_add: "to_i32 (to_i32 a + b) = to_i32 (a + b)"
proof -
  have "to_i32 (to_i32 a + b) = ((a + 2 ^ 31) mod 2 ^ 32 + b) mod 2 ^ 32 - 2 ^ 31"
    by (simp add: to_i32_def)
  also have "\<dots> = to_i32 (a + b)" unfolding mod_add_left_eq by (simp add: to_i32_def algebra_simps)
  finally show ?thesis .
qed

lemma io_dump_key_age:
  "a < 2 ^ 32 \<Longrightarrow> to_u32 (t - int (io_dump_key t (int a))) = int a"
proof -
  assume a: "a < 2 ^ 32"
  have "int (io_dump_key t (int a)) = (t - int a) mod 2 ^ 32"
    by (simp add: io_dump_key_def to_u32_def)
  then have "to_u32 (t - int (io_dump_key t (int a))) = (t - (t - int a)) mod 2 ^ 32"
    by (simp add: to_u32_def mod_diff_right_eq)
  with a show ?thesis by simp
qed

lemma io_dump_key_inj: "a < 2 ^ 32 \<Longrightarrow> b < 2 ^ 32 \<Longrightarrow> io_dump_key t (int a) = io_dump_key t (int b) \<Longrightarrow> a = b"
  by (metis io_dump_key_age of_nat_eq_iff)

lemma dump_counts_spec:
  assumes "distinct keys" "\<forall>k \<in> set keys. k < length d"
  shows "dump_counts c keys d e =
    (map (\<lambda>k. if k \<in> set keys \<and> IO_DUMP_DIFF < c ! k then to_i32 (d ! k + c ! k) else d ! k) [0..<length d],
     e \<and> (\<forall>k \<in> set keys. c ! k \<le> IO_DUMP_DIFF))"
  using assms
proof (induction keys arbitrary: d e)
  case Nil
  then show ?case by (simp add: map_nth)
next
  case (Cons k keys)
  have "map (\<lambda>j. if j \<in> set keys \<and> IO_DUMP_DIFF < c ! j
            then to_i32 (d[k := to_i32 (d ! k + c ! k)] ! j + c ! j) else d[k := to_i32 (d ! k + c ! k)] ! j) [0..<length d] =
        map (\<lambda>j. if j \<in> set (k # keys) \<and> IO_DUMP_DIFF < c ! j then to_i32 (d ! j + c ! j) else d ! j) [0..<length d]"
    if "IO_DUMP_DIFF < c ! k"
    using Cons.prems that by (intro map_cong) (auto simp: nth_list_update)
  moreover have "map (\<lambda>j. if j \<in> set keys \<and> IO_DUMP_DIFF < c ! j then to_i32 (d ! j + c ! j) else d ! j) [0..<length d] =
        map (\<lambda>j. if j \<in> set (k # keys) \<and> IO_DUMP_DIFF < c ! j then to_i32 (d ! j + c ! j) else d ! j) [0..<length d]"
    if "\<not> IO_DUMP_DIFF < c ! k"
    using that by (intro map_cong) auto
  ultimately show ?case
    using Cons.prems Cons.IH[of "d[k := to_i32 (d ! k + c ! k)]" False] Cons.IH[of d e]
    by (cases "IO_DUMP_DIFF < c ! k") (simp_all add: not_less)
qed

lemma dump_step_spec:
  assumes "a < 2 ^ 32" "n \<le> MAP_SIZE" "length d = MAP_SIZE" "wf_map N m" "k < n"
    and "dump_step t n a (d, m) = (d', m')"
  defines "key \<equiv> io_dump_key t (int a)"
  shows "length d' = MAP_SIZE" and "wf_map N m'"
    and "to_i32 (d' ! k) = to_i32 (d ! k + (if 2 \<le> a then late_count (bpf_lookup m key) k else 0))"
    and "bpf_lookup m' = (case bpf_lookup m key of None \<Rightarrow> bpf_lookup m
           | Some c \<Rightarrow> if 2 \<le> a \<and> expired n a c then (bpf_lookup m)(key := None) else bpf_lookup m)"
proof -
  have age: "to_u32 (t - int key) = int a" using io_dump_key_age[OF assms(1), of t] by (simp add: key_def)
  have two: "2 \<le> int a \<longleftrightarrow> 2 \<le> a" by linarith
  have idem: "to_i32 (to_i32 x) = to_i32 x" for x using to_i32_add[of x 0] by simp
  show "length d' = MAP_SIZE" "wf_map N m'"
    "to_i32 (d' ! k) = to_i32 (d ! k + (if 2 \<le> a then late_count (bpf_lookup m key) k else 0))"
    "bpf_lookup m' = (case bpf_lookup m key of None \<Rightarrow> bpf_lookup m
           | Some c \<Rightarrow> if 2 \<le> a \<and> expired n a c then (bpf_lookup m)(key := None) else bpf_lookup m)"
    using assms(2-6) bpf.delete_lookup[OF assms(4), of key] bpf.wf_delete[OF assms(4), of key]
    unfolding dump_step_def prod.case Let_def key_def[symmetric] age two
    by (auto simp: dump_counts_spec late_count_def expired_def idem not_le split: option.splits if_splits)
qed

lemma dump_fold:
  assumes "distinct ages" "\<forall>a \<in> set ages. a < 2 ^ 32" "n \<le> MAP_SIZE" "length d = MAP_SIZE" "wf_map N m" "k < n"
    and "fold (dump_step t n) ages (d, m) = (d', m')"
  shows "to_i32 (d' ! k) =
      to_i32 (d ! k + (\<Sum>a\<leftarrow>ages. if 2 \<le> a then late_count (bpf_lookup m (io_dump_key t (int a))) k else 0))
    \<and> (\<forall>sec. bpf_lookup m' sec =
         (if \<exists>a \<in> set ages. \<exists>c. 2 \<le> a \<and> sec = io_dump_key t (int a) \<and> bpf_lookup m sec = Some c \<and> expired n a c
          then None else bpf_lookup m sec))"
  using assms
proof (induction ages arbitrary: d m)
  case (Cons a ages)
  obtain d1 m1 where e: "dump_step t n a (d, m) = (d1, m1)" by force
  let ?key = "io_dump_key t (int a)"
  have a: "a < 2 ^ 32" using Cons.prems by simp
  note s = dump_step_spec[OF a Cons.prems(3-6) e]
  have ne: "io_dump_key t (int b) \<noteq> ?key" if "b \<in> set ages" for b
    using that Cons.prems(1,2) io_dump_key_inj[of b a t] by auto
  have keep: "bpf_lookup m1 sec = bpf_lookup m sec" if "sec \<noteq> ?key" for sec
    using that by (simp add: s(4) split: option.split)
  have sum: "(\<Sum>b\<leftarrow>ages. if 2 \<le> b then late_count (bpf_lookup m1 (io_dump_key t (int b))) k else 0) =
        (\<Sum>b\<leftarrow>ages. if 2 \<le> b then late_count (bpf_lookup m (io_dump_key t (int b))) k else 0)"
    by (rule arg_cong[where f = sum_list], rule map_cong) (use ne keep in auto)
  from Cons.prems(7) e have rest: "fold (dump_step t n) ages (d1, m1) = (d', m')" by simp
  have IH: "to_i32 (d' ! k) =
      to_i32 (d1 ! k + (\<Sum>b\<leftarrow>ages. if 2 \<le> b then late_count (bpf_lookup m1 (io_dump_key t (int b))) k else 0))
    \<and> (\<forall>sec. bpf_lookup m' sec =
         (if \<exists>b \<in> set ages. \<exists>c. 2 \<le> b \<and> sec = io_dump_key t (int b) \<and> bpf_lookup m1 sec = Some c \<and> expired n b c
          then None else bpf_lookup m1 sec))"
    using Cons.prems by (intro Cons.IH[OF _ _ _ s(1) s(2) _ rest]) auto
  show ?case
  proof (intro conjI allI)
    show "to_i32 (d' ! k) = to_i32 (d ! k +
        (\<Sum>a\<leftarrow>a # ages. if 2 \<le> a then late_count (bpf_lookup m (io_dump_key t (int a))) k else 0))"
      using IH s(3) to_i32_add[of "d1 ! k"] to_i32_add[of "d ! k + (if 2 \<le> a then late_count (bpf_lookup m ?key) k else 0)"]
      by (simp only: sum list.map sum_list.Cons add.assoc)
    fix sec
    show "bpf_lookup m' sec =
         (if \<exists>b \<in> set (a # ages). \<exists>c. 2 \<le> b \<and> sec = io_dump_key t (int b) \<and> bpf_lookup m sec = Some c \<and> expired n b c
          then None else bpf_lookup m sec)"
    proof (cases "sec = ?key")
      case True
      then have "\<not> (\<exists>b \<in> set ages. sec = io_dump_key t (int b))" using ne by metis
      with IH have "bpf_lookup m' sec = bpf_lookup m1 sec" by auto
      with True \<open>\<not> (\<exists>b \<in> set ages. sec = io_dump_key t (int b))\<close> show ?thesis
        by (auto simp: s(4) split: option.splits)
    next
      case False
      with IH keep[OF False] show ?thesis by auto
    qed
  qed
qed simp

section \<open>Resources\<close>

text \<open>A device name is the only thing a lookup leaves allocated.\<close>

definition name_delta :: "(int \<times> string) option \<Rightarrow> resource \<Rightarrow> int" where
  "name_delta v x = (case v of None \<Rightarrow> 0 | Some (m, _) \<Rightarrow> of_bool (x = Mem m))"

lemma name_delta_simps [simp]: "name_delta None = (\<lambda>_. 0)" "name_delta (Some (m, n)) x = of_bool (x = Mem m)"
  by (auto simp: name_delta_def)

lemma extract_device_name_returns:
  "returns (extract_device_name path w) (\<lambda>(v, w'). balance w' = (\<lambda>x. balance w x + name_delta v x))"
  unfolding extract_device_name_def
  by (intro ret_intros) (auto simp: fun_eq_iff req_delta_def)

lemma dev_loop_returns:
  "balance w = b \<Longrightarrow> returns (dev_loop dir dev w) (\<lambda>(v, w'). balance w' = (\<lambda>x. b x + name_delta v x))"
proof (induction "length (script w)" arbitrary: w rule: less_induct)
  case less
  show ?case
    using less.prems
    by (subst dev_loop.simps, intro ret_intros less.hyps
          extract_device_name_returns[THEN returns_mono, unfolded split_paired_all split_conv])
       (simp_all add: fun_eq_iff)
qed

lemma find_device_name_returns:
  "returns (find_device_name dev w) (\<lambda>(v, w'). balance w' = (\<lambda>x. balance w x + name_delta v x))"
  unfolding find_device_name_def
  by (intro ret_intros dev_loop_returns[OF refl, THEN returns_mono, unfolded split_paired_all split_conv])
    (auto simp: fun_eq_iff req_delta_def)

lemma check_loop_returns:
  "balance w = b \<Longrightarrow> length (script w) \<le> n \<Longrightarrow>
   returns (check_loop path dir w)
     (\<lambda>(v, w'). balance w' = (\<lambda>x. b x - of_bool (x = Dirp dir)) \<and> length (script w') \<le> n)"
proof (induction "length (script w)" arbitrary: w rule: less_induct)
  case less
  show ?case
    using less.prems
    by (subst check_loop.simps, intro ret_intros less.hyps) (simp_all add: fun_eq_iff req_delta_def)
qed

lemma check_for_device_returns:
  "returns (check_for_device name w)
     (\<lambda>(v, w'). balance w' = balance w \<and> length (script w') \<le> length (script w))"
  unfolding check_for_device_def
  by (intro ret_intros check_loop_returns[OF refl order_refl, THEN returns_mono, unfolded split_paired_all split_conv])
    (auto simp: fun_eq_iff req_delta_def)

lemma config_loop_returns:
  "balance w = b \<Longrightarrow>
   returns (config_loop fp sec key cur w) (\<lambda>(v, w'). balance w' = (\<lambda>x. b x + name_delta v x))"
proof (induction "length (script w)" arbitrary: cur w rule: less_induct)
  case less
  show ?case
    using less.prems
    by (subst config_loop.simps, intro ret_intros less.hyps) (simp_all add: fun_eq_iff req_delta_def)
qed

lemma configure_level_returns: "returns (configure_level cur w) (\<lambda>(v, w'). balance w' = balance w)"
  unfolding configure_level_def read_config_value_def
  by (intro ret_intros config_loop_returns[OF refl, THEN returns_mono, unfolded split_paired_all split_conv])
    (auto simp: fun_eq_iff req_delta_def)

lemma scan_devices_returns:
  "balance w = b \<Longrightarrow> length devices < MAP_SIZE \<Longrightarrow>
   returns (scan_devices junk dir devices w) (\<lambda>(ds, w'). balance w' = b \<and> length ds \<le> MAP_SIZE)"
proof (induction "length (script w)" arbitrary: devices w rule: less_induct)
  case less
  show ?case
    using less.prems
    by (subst scan_devices.simps, intro ret_intros less.hyps
          check_for_device_returns[THEN returns_mono, unfolded split_paired_all split_conv])
       (simp_all add: fun_eq_iff)
qed

text \<open>What a round of printing leaves allocated: the name of every slot that has seen no IO.\<close>

lemma cstr_hd: "cstr s = c # cs \<Longrightarrow> c \<noteq> CHR 0x00"
  by (cases s) (auto simp: cstr_def split: if_splits)

lemma print_map_res_returns:
  "\<forall>k \<in> set keys. k < length res \<longrightarrow> cstr (io_type (res ! k)) \<noteq> [] \<Longrightarrow>
   returns (print_map_res res stage keys d w) (\<lambda>(e, w'). balance w' = balance w)"
proof (induction keys arbitrary: w)
  case (Cons k keys)
  show ?case
  proof (cases "k < length res")
    case True
    with Cons.prems obtain c cs where c: "cstr (io_type (res ! k)) = c # cs" "c \<noteq> CHR 0x00"
      using cstr_hd by (cases "cstr (io_type (res ! k))") fastforce+
    have IH: "returns (print_map_res res stage keys d v) (\<lambda>(e, w'). balance w' = balance v)" for v
      using Cons by simp
    from True c show ?thesis
      by (simp add: array_lookup_def, intro ret_intros IH[THEN returns_mono, unfolded split_paired_all split_conv]
          find_device_name_returns[THEN returns_mono, unfolded split_paired_all split_conv])
        (auto simp: fun_eq_iff req_delta_def)
  qed (simp add: array_lookup_def returns_def)
qed (simp add: returns_def)

lemma collect_stage_returns:
  assumes "\<forall>k < n. k < length (io_res s) \<longrightarrow> cstr (io_type (io_res s ! k)) \<noteq> []"
  shows "returns (collect_stage n stage s w) (\<lambda>(e, s', w'). balance w' = balance w \<and> io_res s' = io_res s)"
  unfolding collect_stage_def
  by (intro ret_intros print_map_res_returns[THEN returns_mono, unfolded split_paired_all split_conv])
    (use assms in \<open>force simp: fun_eq_iff\<close>)+

lemma idle_slot_leaks:
  assumes "find_device_name (sd_major (res ! k), sd_minor (res ! k)) w = Some (Some (m, name), v)"
    and "k < length res" "cstr (io_type (res ! k)) = []"
  shows "print_map_res res stage [k] d w = Some (0, v) \<and> balance v = (\<lambda>x. balance w x + of_bool (x = Mem m))"
  using assms returnsD[OF find_device_name_returns assms(1)] by (auto simp: array_lookup_def fun_eq_iff)

section \<open>Properties\<close>

text \<open>C23: What the collector reports as late for a slot is the sum, over the seconds 2 to 150 seconds
  ago that are counted, of the counts above 3, in 32-bit arithmetic; and it drops exactly those
  of these seconds that have no late IO or are older than 120 seconds, leaving every other second.\<close>

theorem late_ios_reported:
  assumes "update_io_dump uptime n (replicate MAP_SIZE 0, m) = (d, m')"
    and "wf_map MAX_IO_TIME m" and "n \<le> MAP_SIZE" and "k < n"
  defines "key \<equiv> \<lambda>a. io_dump_key (to_u32 uptime) (int a)"
  shows "to_i32 (d ! k) = to_i32 (\<Sum>a\<leftarrow>rev [0..<151]. if 2 \<le> a then late_count (bpf_lookup m (key a)) k else 0)
    \<and> (\<forall>sec. bpf_lookup m' sec =
         (if \<exists>a \<in> set [0..<151]. \<exists>c. 2 \<le> a \<and> sec = key a \<and> bpf_lookup m sec = Some c \<and> expired n a c
          then None else bpf_lookup m sec))"
proof -
  have "distinct (rev [0..<151::nat])" and "\<forall>a \<in> set (rev [0..<151::nat]). a < 2 ^ 32" by auto
  from dump_fold[OF this assms(3) _ assms(2,4) assms(1)[unfolded update_io_dump_def]] assms(3,4)
  show ?thesis unfolding key_def set_rev by simp
qed

definition demo_counts :: "int list bpf_map" where
  "demo_counts = [(997, (replicate 15 0)[0 := 5]), (998, (replicate 15 0)[0 := 2]), (999, (replicate 15 0)[0 := 9])]"

theorem late_ios_reported_witness:
  "let (d, m') = update_io_dump 1000 1 (replicate MAP_SIZE 0, demo_counts) in
   to_i32 (d ! 0) = to_i32 (\<Sum>a\<leftarrow>rev [0..<151]. if 2 \<le> a
     then late_count (bpf_lookup demo_counts (io_dump_key (to_u32 1000) (int a))) 0 else 0) \<and>
   bpf_lookup m' 999 = bpf_lookup demo_counts 999"
proof -
  obtain d m' where e: "update_io_dump 1000 1 (replicate MAP_SIZE 0, demo_counts) = (d, m')" by force
  have wf: "wf_map MAX_IO_TIME demo_counts" by (simp add: wf_map_def demo_counts_def)
  have r: "to_i32 (d ! 0) = to_i32 (\<Sum>a\<leftarrow>rev [0..<151]. if 2 \<le> a then late_count (bpf_lookup demo_counts (io_dump_key (to_u32 1000) (int a))) 0 else 0)
    \<and> (\<forall>sec. bpf_lookup m' sec =
         (if \<exists>a \<in> set [0..<151]. \<exists>c. 2 \<le> a \<and> sec = io_dump_key (to_u32 1000) (int a) \<and>
            bpf_lookup demo_counts sec = Some c \<and> expired 1 a c
          then None else bpf_lookup demo_counts sec))"
    by (rule late_ios_reported[OF e wf]) simp_all
  have "999 \<noteq> io_dump_key (to_u32 1000) (int a)" if "2 \<le> a" "a < 151" for a
    using that by (auto simp: io_dump_key_def to_u32_def)
  then have "bpf_lookup m' 999 = bpf_lookup demo_counts 999" using r by auto
  with r show ?thesis unfolding e Let_def prod.case by blast
qed

text \<open>Initialising the kernel's result array with up to 15 devices succeeds and gives the state the
  runs of the probes start from: slot i is claimed by device i, all counters are zero.\<close>

lemma init_map_claims:
  assumes "length ds \<le> MAP_SIZE"
  shows "init_map ds (replicate RES_ENTRIES zero_stage) = (0, io_res (claimed ds))"
proof -
  define cl where "cl = (\<lambda>d. zero_stage\<lparr>sd_major := fst d, sd_minor := snd (d :: int \<times> int)\<rparr>)"
  have "foldl (\<lambda>(e :: int, res) i. if e \<noteq> 0 then (e, res) else if length res \<le> i then (1, res)
        else (0, res[i := cl (ds ! i)])) (0, replicate RES_ENTRIES zero_stage) [0..<n] =
      (0, map cl (take n ds) @ replicate (RES_ENTRIES - n) zero_stage)" if "n \<le> length ds" for n
    using that
  proof (induction n)
    case (Suc n)
    then have "n < length ds" "n < RES_ENTRIES" using assms by auto
    moreover from this have "replicate (RES_ENTRIES - n) zero_stage =
        zero_stage # replicate (RES_ENTRIES - Suc n) zero_stage"
      by (metis Suc_diff_Suc replicate_Suc)
    ultimately show ?case
      using Suc by (simp add: take_Suc_conv_app_nth list_update_append)
  qed simp
  from this[of "length ds"] show ?thesis
    using assms unfolding cl_def by (simp add: init_map_def claimed_def init_stage_maps_def)
qed

lemma init_map_claims_example:
  "init_map [(8, 0), (8, 16)] (replicate RES_ENTRIES zero_stage) = (0, io_res (claimed [(8, 0), (8, 16)]))"
  by (rule init_map_claims) simp

text \<open>Scanning /dev for devices releases every directory and never takes more than the 15 devices
  the kernel maps have slots for, whatever the directory holds.\<close>

lemma scan_bounded:
  assumes "scan_devices junk dir [] w = Some (ds, w')"
  shows "length ds \<le> MAP_SIZE \<and> balance w' = balance w"
  using returnsD[OF scan_devices_returns[OF refl, of "[]"] assms] by simp

declare scan_devices.simps [code]

definition demo_scan :: world where
  "demo_scan = \<lparr>script =
      [\<lparr>a_ret = 1, a_errno = 0, a_data = ''bsda''\<rparr>, \<lparr>a_ret = 0, a_errno = 0, a_data = ''b8:0''\<rparr>,
       \<lparr>a_ret = 4, a_errno = 0, a_data = []\<rparr>, \<lparr>a_ret = 1, a_errno = 0, a_data = ''-dev''\<rparr>,
       \<lparr>a_ret = 0, a_errno = 0, a_data = ''d''\<rparr>, \<lparr>a_ret = 0, a_errno = 0, a_data = []\<rparr>,
       \<lparr>a_ret = - 1, a_errno = 0, a_data = []\<rparr>], trace = [], errno = 0\<rparr>"

lemma scan_bounded_example:
  "(case scan_devices ''-'' 3 [] demo_scan of
     Some (ds, w') \<Rightarrow> ds = [(8, 0)] \<and> length ds \<le> MAP_SIZE \<and> balance w' = balance demo_scan | None \<Rightarrow> False)"
proof -
  have "map_option fst (scan_devices ''-'' 3 [] demo_scan) = Some [(8, 0)]" by code_simp
  then obtain w' where "scan_devices ''-'' 3 [] demo_scan = Some ([(8, 0)], w')" by auto
  with scan_bounded[OF this] show ?thesis by simp
qed

end
