(* ===== verification/LogUtils.thy ===== *)
theory LogUtils
  imports CText
begin

text \<open>
  \<open>src/libsentry/c/log/log_utils.c\<close> and its header: the level filter, the line prefix and the
  choice of the level from the environment variable \<open>LOG_LEVEL\<close>. The state is the current level
  and what was printed; the clock reading of a line is an argument. The other components use
  their log calls for diagnostics only, and their models leave them out.
\<close>

datatype LogLevel = LOG_DEBUG | LOG_INFO | LOG_WARN | LOG_ERROR

fun level_num :: "LogLevel \<Rightarrow> nat" where
  "level_num LOG_DEBUG = 0"
| "level_num LOG_INFO = 1"
| "level_num LOG_WARN = 2"
| "level_num LOG_ERROR = 3"

instantiation LogLevel :: linorder
begin

definition less_eq_LogLevel :: "LogLevel \<Rightarrow> LogLevel \<Rightarrow> bool" where
  "less_eq_LogLevel a b \<longleftrightarrow> level_num a \<le> level_num b"

definition less_LogLevel :: "LogLevel \<Rightarrow> LogLevel \<Rightarrow> bool" where
  "less_LogLevel a b \<longleftrightarrow> level_num a < level_num b"

instance
proof
  fix x y z :: LogLevel
  show "(x < y) = (x \<le> y \<and> \<not> y \<le> x)" by (auto simp: less_eq_LogLevel_def less_LogLevel_def)
  show "x \<le> x" by (simp add: less_eq_LogLevel_def)
  show "x \<le> y \<Longrightarrow> y \<le> z \<Longrightarrow> x \<le> z" by (simp add: less_eq_LogLevel_def)
  show "x \<le> y \<Longrightarrow> y \<le> x \<Longrightarrow> x = y" by (cases x; cases y) (auto simp: less_eq_LogLevel_def)
  show "x \<le> y \<or> y \<le> x" by (auto simp: less_eq_LogLevel_def)
qed

end

datatype stream = Stdout | Stderr

definition LOG_FD :: "LogLevel \<Rightarrow> stream" where
  "LOG_FD l = (if l = LOG_ERROR then Stderr else Stdout)"

definition LOG_LEVEL_STRING :: "LogLevel \<Rightarrow> string" where
  "LOG_LEVEL_STRING l =
     (if l = LOG_DEBUG then ''DEBUG'' else if l = LOG_INFO then ''INFO''
      else if l = LOG_WARN then ''WARNING'' else if l = LOG_ERROR then ''ERROR''
      else ''UNKNOWN_LEVEL'')"

text \<open>A clock reading, as \<open>localtime\<close> and \<open>clock_gettime\<close> report it.\<close>

record log_time =
  tm_year :: nat
  tm_mon :: nat
  tm_mday :: nat
  tm_hour :: nat
  tm_min :: nat
  tm_sec :: nat
  tv_nsec :: nat

definition base_name :: "string \<Rightarrow> string" where
  "base_name p = rev (takeWhile (\<lambda>c. c \<noteq> CHR ''/'') (rev p))"

definition log_prefix :: "log_time \<Rightarrow> LogLevel \<Rightarrow> string \<Rightarrow> nat \<Rightarrow> string" where
  "log_prefix t level file line =
     dec_nat (tm_year t + 1900) @ ''-'' @ pad0 2 (dec_nat (tm_mon t + 1)) @ ''-'' @
     pad0 2 (dec_nat (tm_mday t)) @ '' '' @ pad0 2 (dec_nat (tm_hour t)) @ '':'' @
     pad0 2 (dec_nat (tm_min t)) @ '':'' @ pad0 2 (dec_nat (tm_sec t)) @ '','' @
     pad0 3 (dec_nat (tv_nsec t div 1000000)) @ '' - '' @ LOG_LEVEL_STRING level @ '' - ['' @
     base_name file @ '':'' @ dec_nat line @ ''] - ''"

record log_state =
  currentLogLevel :: LogLevel
  printed :: "(stream \<times> string) list"

definition initial_log :: log_state where
  "initial_log = \<lparr>currentLogLevel = LOG_INFO, printed = []\<rparr>"

definition logMessage :: "log_time \<Rightarrow> LogLevel \<Rightarrow> string \<Rightarrow> nat \<Rightarrow> string \<Rightarrow> log_state \<Rightarrow> log_state" where
  "logMessage t level file line text s =
     (if currentLogLevel s \<le> level
      then s\<lparr>printed := printed s @ [(LOG_FD level, log_prefix t level file line @ text)]\<rparr>
      else s)"

definition setLogLevel :: "log_time \<Rightarrow> string option \<Rightarrow> log_state \<Rightarrow> log_state" where
  "setLogLevel t env s =
     (let say = (\<lambda>level line text s. logMessage t level ''log_utils.c'' line text s);
          set = (\<lambda>level line s. say LOG_INFO line
                    (''Set log level : '' @ LOG_LEVEL_STRING level @ ''\<newline>'')
                    (s\<lparr>currentLogLevel := level\<rparr>))
      in case env of
        None \<Rightarrow> say LOG_WARN 32 (''getenv('' @ [CHR 0x27] @ ''LOG_LEVEL'' @ [CHR 0x27] @
                   '') is NULL, use default log level : '' @ LOG_LEVEL_STRING LOG_INFO @ ''\<newline>'') s
      | Some v \<Rightarrow>
          if v = ''info'' then set LOG_INFO 35 s
          else if v = ''warning'' then set LOG_WARN 38 s
          else if v = ''error'' then set LOG_ERROR 41 s
          else if v = ''debug'' then set LOG_DEBUG 44 s
          else say LOG_WARN 47 (''unknown log level : '' @ v @ '',  use default log level : '' @
                   LOG_LEVEL_STRING LOG_INFO @ ''\<newline>'') (s\<lparr>currentLogLevel := LOG_INFO\<rparr>))"

text \<open>The level after \<open>setLogLevel\<close> (an unset variable leaves the level alone).\<close>

lemma setLogLevel_level:
  "currentLogLevel (setLogLevel t env s) =
     (case env of
        None \<Rightarrow> currentLogLevel s
      | Some v \<Rightarrow> if v = ''warning'' then LOG_WARN else if v = ''error'' then LOG_ERROR
                  else if v = ''debug'' then LOG_DEBUG else LOG_INFO)"
  by (auto simp: setLogLevel_def logMessage_def Let_def split: option.splits)

text \<open>Errors always pass the filter, and go to the standard error stream; nothing else does.\<close>

lemma logMessage_error:
  "printed (logMessage t LOG_ERROR f n m s) =
     printed s @ [(Stderr, log_prefix t LOG_ERROR f n @ m)]"
  by (cases "currentLogLevel s") (simp_all add: logMessage_def LOG_FD_def less_eq_LogLevel_def)

lemma logMessage_filter:
  "printed (logMessage t l f n m s) = printed s \<longleftrightarrow> l < currentLogLevel s"
  by (auto simp: logMessage_def not_le)

end
