(* ===== verification/StdMap.thy ===== *)
theory StdMap
  imports CText "HOL-Library.List_Lexorder" "HOL-Library.Char_ord"
begin

text \<open>
  \<open>std::map\<close> and \<open>std::set\<close> of the C++ plugin: an association list in the order of its keys, so
  that a loop over a map is a loop over the list. Keys of type \<open>std::string\<close> are compared
  character by character, as \<open>List_Lexorder\<close> and \<open>Char_ord\<close> do; a set is a sorted list without
  repetitions. The locale says what an operation that adds a key owes to those that look it up.
\<close>

type_synonym ('k, 'v) stdmap = "('k \<times> 'v) list"

text \<open>\<open>m[k] = v\<close> and \<open>m.emplace (k, v)\<close>; \<open>m.find (k)\<close> is \<open>map_of m k\<close>.\<close>

fun std_set :: "'k::linorder \<Rightarrow> 'v \<Rightarrow> ('k, 'v) stdmap \<Rightarrow> ('k, 'v) stdmap" where
  "std_set k v [] = [(k, v)]"
| "std_set k v (p # m) =
     (if fst p < k then p # std_set k v m else if fst p = k then (k, v) # m else (k, v) # p # m)"

definition std_emplace :: "'k::linorder \<Rightarrow> 'v \<Rightarrow> ('k, 'v) stdmap \<Rightarrow> ('k, 'v) stdmap" where
  "std_emplace k v m = (case map_of m k of None \<Rightarrow> std_set k v m | Some _ \<Rightarrow> m)"

definition std_map_of_list :: "('k::linorder \<times> 'v) list \<Rightarrow> ('k, 'v) stdmap" where
  "std_map_of_list xs = foldl (\<lambda>m (k, v). std_emplace k v m) [] xs"

abbreviation std_ok :: "('k::linorder, 'v) stdmap \<Rightarrow> bool" where
  "std_ok m \<equiv> sorted_wrt (<) (map fst m)"

lemma map_of_greater: "\<forall>x \<in> set m. k < fst x \<Longrightarrow> map_of m (k :: 'k :: linorder) = None"
  by (induction m) auto

lemma map_of_std_set: "std_ok m \<Longrightarrow> map_of (std_set k v m) = (map_of m)(k \<mapsto> v)"
  by (induction m) (auto simp: fun_eq_iff map_of_greater)

lemma set_std_set: "std_ok m \<Longrightarrow> fst ` set (std_set k v m) = insert k (fst ` set m)"
  by (induction m) auto

lemma std_set_ok [simp]: "std_ok m \<Longrightarrow> std_ok (std_set k v m)"
proof (induction m)
  case (Cons p m)
  have "\<forall>x \<in> set (std_set k v m). fst p < fst x" if "fst p < k"
    using that Cons.prems set_std_set[of m k v] by fastforce
  with Cons show ?case by auto
qed simp

lemma std_emplace_ok [simp]: "std_ok m \<Longrightarrow> std_ok (std_emplace k v m)"
  by (simp add: std_emplace_def split: option.splits)

lemma map_of_std_emplace:
  "std_ok m \<Longrightarrow> map_of (std_emplace k v m) = (if map_of m k = None then (map_of m)(k \<mapsto> v) else map_of m)"
  by (simp add: std_emplace_def map_of_std_set split: option.splits)

section \<open>Adding many keys\<close>

text \<open>What the two ways of adding a key share.\<close>

locale keyed_store =
  fixes ok :: "'m \<Rightarrow> bool"
    and find :: "'m \<Rightarrow> 'k \<Rightarrow> 'v option"
    and put :: "'k \<Rightarrow> 'v \<Rightarrow> 'm \<Rightarrow> 'm"
  assumes put_ok: "ok m \<Longrightarrow> ok (put k v m)"
    and find_other: "ok m \<Longrightarrow> k' \<noteq> k \<Longrightarrow> find (put k v m) k' = find m k'"
    and find_same: "ok m \<Longrightarrow> find (put k v m) k = Some v \<or> find (put k v m) k = find m k \<and> find m k \<noteq> None"
begin

lemma puts_ok: "ok m \<Longrightarrow> ok (foldl (\<lambda>m (k, v). put k v m) m xs)"
  by (induction xs arbitrary: m) (auto simp: put_ok)

lemma dom_put: "ok m \<Longrightarrow> dom (find (put k v m)) = insert k (dom (find m))"
  using find_other[of m _ k v] find_same[of m k v] by (auto simp: dom_def) metis+

lemma puts_dom: "ok m \<Longrightarrow> dom (find (foldl (\<lambda>m (k, v). put k v m) m xs)) = dom (find m) \<union> fst ` set xs"
proof (induction xs arbitrary: m)
  case (Cons x xs)
  obtain j u where x: "x = (j, u)" by force
  from Cons.IH[OF put_ok[OF Cons.prems, of j u]] Cons.prems show ?case by (simp add: x dom_put)
qed simp

text \<open>A value found is one that was put, or was there before.\<close>

lemma puts_value:
  "ok m \<Longrightarrow> find (foldl (\<lambda>m (k, v). put k v m) m xs) k = Some v \<Longrightarrow> find m k = Some v \<or> (k, v) \<in> set xs"
proof (induction xs arbitrary: m)
  case (Cons x xs)
  obtain j u where x: "x = (j, u)" by force
  from Cons.IH[of "put j u m"] Cons.prems have "find (put j u m) k = Some v \<or> (k, v) \<in> set xs"
    by (simp add: x put_ok)
  then show ?case
    using find_other[of m k j u] find_same[of m j u] Cons.prems(1) by (cases "k = j") (auto simp: x)
qed simp

end

interpretation assign: keyed_store std_ok map_of std_set
  by unfold_locales (simp_all add: map_of_std_set)

interpretation emplace: keyed_store std_ok map_of std_emplace
  by unfold_locales (auto simp: map_of_std_emplace)

lemma std_map_of_list_ok: "std_ok (std_map_of_list xs)"
  unfolding std_map_of_list_def by (rule emplace.puts_ok) simp

lemma insort_insert_set: "set (insort_insert x xs) = insert x (set xs)"
  by (auto simp: insort_insert_key_def set_insort_key)

end
