(* ===== verification/BmcCommon.thy ===== *)
theory BmcCommon
  imports XalarmMsg Regex StdMap
begin

text \<open>
  \<open>bmc_ras_sentry/src/common.cpp\<close>: text helpers, the settings file and the task file, running a
  command, and the readers of the output of storcli64 and hiraidadm. \<open>getline\<close> on a file stream
  is a call of its own, since a line has no length limit; the stream is closed by its destructor
  on every path. JSON text is read by json-c, the argument \<open>JP\<close> (\<open>None\<close> when it rejects the text);
  a missing member and a JSON null are both the null pointer, \<open>JNull\<close>. A C++ exception that
  nothing catches, and a read from an empty vector, are values of \<open>cpp_exn\<close>.
\<close>

abbreviation BMCPLU_FAILED :: int where "BMCPLU_FAILED \<equiv> - 1"
abbreviation BMCPLU_SUCCESS :: int where "BMCPLU_SUCCESS \<equiv> 0"

datatype cpp_exn = Invalid_argument | Back_of_empty

section \<open>Text\<close>

definition Trim :: "string \<Rightarrow> string" where
  "Trim str = rev (dropWhile is_space (rev (dropWhile is_space str)))"

text \<open>The number is written only when it fits an \<open>int\<close>.\<close>

definition IsValidNumber :: "string \<Rightarrow> int option" where
  "IsValidNumber str =
     (if str = [] then None
      else if \<not> list_all is_digit str then None
      else if nat_of_digits str < 2 ^ 31 then Some (int (nat_of_digits str)) else None)"

text \<open>\<open>str.find (sep)\<close>: the text before and after the first occurrence.\<close>

fun break_on :: "string \<Rightarrow> string \<Rightarrow> (string \<times> string) option" where
  "break_on sep [] = (if sep = [] then Some ([], []) else None)"
| "break_on sep (c # cs) =
     (if starts_with sep (c # cs) then Some ([], drop (length sep) (c # cs))
      else case break_on sep cs of None \<Rightarrow> None | Some (a, b) \<Rightarrow> Some (c # a, b))"

lemma break_on_Some: "break_on sep s = Some (a, b) \<Longrightarrow> s = a @ sep @ b"
proof (induction s arbitrary: a)
  case (Cons c s)
  show ?case
  proof (cases "starts_with sep (c # s)")
    case True
    then obtain r where r: "c # s = sep @ r" unfolding starts_with_iff by blast
    from True Cons.prems have "a = []" "b = drop (length sep) (c # s)" by auto
    then show ?thesis unfolding r by simp
  next
    case False
    with Cons show ?thesis by (auto split: option.splits)
  qed
qed (auto split: if_splits)

function SplitString :: "string \<Rightarrow> string \<Rightarrow> string list" where
  "SplitString str split =
     (if split = [] then [str]
      else case break_on split str of
          None \<Rightarrow> (if str \<noteq> [] then [str] else [])
        | Some (subString, rest) \<Rightarrow>
            (if subString \<noteq> [] then [subString] else []) @ SplitString rest split)"
  by pat_completeness auto
termination
  by (relation "measure (\<lambda>(s, p). length s)") (auto dest!: break_on_Some)

declare SplitString.simps [simp del]

text \<open>The pieces between the runs of white space, as the token iterator delivers them.\<close>

function space_pieces :: "string \<Rightarrow> string list" where
  "space_pieces s =
     (let t = takeWhile (\<lambda>c. \<not> is_space c) s; r = dropWhile (\<lambda>c. \<not> is_space c) s
      in if r = [] then (if t = [] then [] else [t]) else t # space_pieces (dropWhile is_space r))"
  by pat_completeness auto

lemma length_drop_space:
  assumes "dropWhile (\<lambda>c. \<not> is_space c) s \<noteq> []"
  shows "length (dropWhile is_space (dropWhile (\<lambda>c. \<not> is_space c) s)) < length s"
proof -
  obtain c r where r: "dropWhile (\<lambda>c. \<not> is_space c) s = c # r" using assms by (cases "dropWhile (\<lambda>c. \<not> is_space c) s") auto
  then have "is_space c" using hd_dropWhile[of "\<lambda>c. \<not> is_space c" s] by auto
  then have "length (dropWhile is_space (c # r)) \<le> length r" by (simp add: length_dropWhile_le)
  moreover have "length (c # r) \<le> length s" unfolding r[symmetric] by (rule length_dropWhile_le)
  ultimately show ?thesis unfolding r by simp
qed

termination space_pieces
  by (relation "measure length") (auto intro: length_drop_space)

declare space_pieces.simps [simp del]

definition SplitBySpace :: "string \<Rightarrow> string list" where
  "SplitBySpace str = filter (\<lambda>t. t \<noteq> []) (map Trim (space_pieces str))"

definition ExtractFileName :: "string \<Rightarrow> string" where
  "ExtractFileName path = rev (takeWhile (\<lambda>c. c \<noteq> CHR ''/'') (rev path))"

section \<open>Hexadecimal bytes\<close>

text \<open>\<open>strtoul (s, &end, 16)\<close>: the value and the text at \<open>end\<close>, which is \<open>s\<close> when no digit was read.\<close>

definition strtoul16 :: "string \<Rightarrow> int \<times> string" where
  "strtoul16 s =
     (let t = dropWhile is_space s;
          neg = (case t of c # _ \<Rightarrow> c = CHR ''-'' | [] \<Rightarrow> False);
          u = (case t of c # r \<Rightarrow> if c = CHR ''-'' \<or> c = CHR ''+'' then r else t | [] \<Rightarrow> []);
          v = (case u of z # x # d # _ \<Rightarrow>
                 if z = CHR ''0'' \<and> to_lower x = CHR ''x'' \<and> hex_digit_val d \<noteq> None then drop 2 u else u
               | _ \<Rightarrow> u);
          ds = takeWhile (\<lambda>c. hex_digit_val c \<noteq> None) v;
          n = int (nat_of_hex ds)
      in if ds = [] then (0, s)
         else (if 2 ^ 64 \<le> n then 2 ^ 64 - 1 else if neg then to_u64 (- n) else n,
               dropWhile (\<lambda>c. hex_digit_val c \<noteq> None) v))"

definition ByteToHex :: "u8 \<Rightarrow> string" where
  "ByteToHex byte = ''0x'' @ hexw 2 (unat byte)"

text \<open>\<open>std::stoul\<close> throws when it reads no digit; \<open>Inr None\<close> is the result false.\<close>

definition HexAsciiToChar :: "string \<Rightarrow> cpp_exn + string option" where
  "HexAsciiToChar hexStr =
     (if length hexStr \<noteq> 2 then Inr None
      else let (temp, rest) = strtoul16 hexStr in
        if rest = hexStr then Inl Invalid_argument
        else if 255 < temp then Inr None
        else Inr (Some [char_of (nat temp)]))"

definition to_upper :: "char \<Rightarrow> char" where
  "to_upper c = (if 97 \<le> char_val c \<and> char_val c \<le> 122 then char_of (char_val c - 32) else c)"

definition Uint32ToHexString :: "u32 \<Rightarrow> string" where
  "Uint32ToHexString num = ''0x'' @ map to_upper (hexw 8 (unat num))"

text \<open>
  \<open>localtime\<close> depends on the time zone and is the argument \<open>lt\<close>: year, month, day, hour, minute
  and second of the broken-down time, as \<open>struct tm\<close> counts them.
\<close>

type_synonym tm = "int \<times> nat \<times> nat \<times> nat \<times> nat \<times> nat"

definition Uint32ToLocalTime :: "(u32 \<Rightarrow> tm option) \<Rightarrow> u32 \<Rightarrow> string" where
  "Uint32ToLocalTime lt timestamp = (case lt timestamp of
      None \<Rightarrow> []
    | Some (year, mon, mday, hour, minute, sec) \<Rightarrow>
        dec_int (1900 + year) @ ''-'' @ pad0 2 (dec_nat (mon + 1)) @ ''-'' @ pad0 2 (dec_nat mday) @ '' '' @
        pad0 2 (dec_nat hour) @ '':'' @ pad0 2 (dec_nat minute) @ '':'' @ pad0 2 (dec_nat sec))"

section \<open>Running a command\<close>

text \<open>The lines of the output, each as a \<open>fgets\<close> of 512 bytes delivers it, trimmed.\<close>

function output_lines :: "int \<Rightarrow> string list \<Rightarrow> world \<Rightarrow> (string list \<times> world) option" where
  "output_lines pipe result w = do {
     (r, buffer, w) \<leftarrow> fetch (Q_fgets pipe 512) w;
     if r < 0 then Some (result, w)
     else output_lines pipe (result @ [Trim (cstr (take 511 buffer))]) w }"
  by pat_completeness auto
termination
  by (relation "measure (\<lambda>(p, r, w). length (script w))") (auto dest!: fetch_script)

declare output_lines.simps [simp del]

definition ExecCommand :: "string \<Rightarrow> world \<Rightarrow> (int \<times> string list \<times> world) option" where
  "ExecCommand cmd w = do {
     (pipe, w) \<leftarrow> call (Q_popen (cstr cmd)) w;
     if pipe < 0 then Some (BMCPLU_FAILED, [], w)
     else do {
       (result, w) \<leftarrow> output_lines pipe [] w;
       (status, w) \<leftarrow> call (Q_pclose pipe) w;
       if status = - 1 then Some (BMCPLU_FAILED, result, w)
       else if status div 256 mod 256 \<noteq> 0 then Some (BMCPLU_FAILED, result, w)
       else Some (BMCPLU_SUCCESS, result, w) } }"

section \<open>The settings file\<close>

datatype Level = Debug | Info | Warning | Error | Critical

record PluConfig =
  logLevel :: Level
  patrolSeconds :: int
  BMCEvents :: "string list"

abbreviation BMCPLU_PATROL_MIN :: int where "BMCPLU_PATROL_MIN \<equiv> 60"
abbreviation BMCPLU_PATROL_MAX :: int where "BMCPLU_PATROL_MAX \<equiv> 3600"

definition event_id_regex :: rx where
  "event_id_regex = RCat (RChar is_digit) (RCat (RChar is_digit) (RCat (RChar is_digit) (RChar is_digit)))"

definition config_keys :: "string list" where
  "config_keys = [''log_level'', ''patrol_second'', ''bmc_events'']"

text \<open>The processors of the three keys: the settings with the value, \<open>None\<close> for false.\<close>

definition log_level_processor :: "string \<Rightarrow> PluConfig \<Rightarrow> PluConfig option" where
  "log_level_processor value config =
     (if value = ''debug'' then Some (config\<lparr>logLevel := Debug\<rparr>)
      else if value = ''info'' then Some (config\<lparr>logLevel := Info\<rparr>)
      else if value = ''warning'' then Some (config\<lparr>logLevel := Warning\<rparr>)
      else if value = ''error'' then Some (config\<lparr>logLevel := Error\<rparr>)
      else if value = ''critical'' then Some (config\<lparr>logLevel := Critical\<rparr>)
      else None)"

definition patrol_second_processor :: "string \<Rightarrow> PluConfig \<Rightarrow> PluConfig option" where
  "patrol_second_processor value config = (case IsValidNumber value of
      None \<Rightarrow> None
    | Some num \<Rightarrow>
        if \<not> (BMCPLU_PATROL_MIN \<le> num \<and> num \<le> BMCPLU_PATROL_MAX) then None
        else Some (config\<lparr>patrolSeconds := num\<rparr>))"

definition bmc_events_processor :: "string \<Rightarrow> PluConfig \<Rightarrow> PluConfig option" where
  "bmc_events_processor value config =
     (let result = SplitString value '','' in
      if list_ex (\<lambda>event_id. \<not> rx_match event_id_regex event_id) result then None
      else Some (config\<lparr>BMCEvents := result\<rparr>))"

definition config_processor :: "string \<Rightarrow> string \<Rightarrow> PluConfig \<Rightarrow> PluConfig option" where
  "config_processor key value config =
     (if key = ''log_level'' then log_level_processor value config
      else if key = ''patrol_second'' then patrol_second_processor value config
      else bmc_events_processor value config)"

text \<open>One line: false ends the reading with an error. \<open>found\<close> are the keys seen.\<close>

definition config_line :: "string \<Rightarrow> PluConfig \<times> string list \<Rightarrow> bool \<times> PluConfig \<times> string list" where
  "config_line raw st =
     (let line = Trim raw; (config, found) = st in
      if line = [] \<or> hd line = CHR ''#'' then (True, st)
      else case break_on ''='' line of
          None \<Rightarrow> (False, st)
        | Some (before, after) \<Rightarrow>
            if before = [] then (False, st)
            else
              let key = Trim before; value = Trim after in
              if value = [] then (False, st)
              else if key \<notin> set config_keys then (False, st)
              else case config_processor key value config of
                  None \<Rightarrow> (False, st)
                | Some config \<Rightarrow> (True, config, key # found))"

text \<open>\<open>std::getline (file, line)\<close>: the line without its newline, \<open>None\<close> at the end.\<close>

definition std_getline :: "int \<Rightarrow> world \<Rightarrow> (string option \<times> world) option" where
  "std_getline file w = do {
     (r, d, w) \<leftarrow> fetch (Q_library ''std::getline'' [dec_int file]) w;
     Some (if r < 0 then None else Some (takeWhile (\<lambda>c. c \<noteq> CHR ''\<newline>'') d), w) }"

lemma std_getline_script: "std_getline file w = Some (l, v) \<Longrightarrow> length (script v) < length (script w)"
  by (auto simp: std_getline_def bind_eq_Some_conv dest!: fetch_script)

function config_loop ::
  "int \<Rightarrow> PluConfig \<times> string list \<Rightarrow> world \<Rightarrow> (bool \<times> (PluConfig \<times> string list) \<times> world) option" where
  "config_loop file st w = do {
     (line, w) \<leftarrow> std_getline file w;
     case line of
       None \<Rightarrow> Some (True, st, w)
     | Some line \<Rightarrow>
         let (ok, st) = config_line line st in
         if ok then config_loop file st w else Some (False, st, w) }"
  by pat_completeness auto
termination
  by (relation "measure (\<lambda>(f, s, w). length (script w))") (auto dest: std_getline_script)

declare config_loop.simps [simp del]

definition ParseConfig :: "string \<Rightarrow> PluConfig \<Rightarrow> world \<Rightarrow> (int \<times> PluConfig \<times> world) option" where
  "ParseConfig path config w = do {
     (file, w) \<leftarrow> call (Q_fopen path ''r'') w;
     if file < 0 then Some (BMCPLU_FAILED, config, w)
     else do {
       (ok, (config, found), w) \<leftarrow> config_loop file (config, []) w;
       (_, w) \<leftarrow> call (Q_fclose file) w;
       if \<not> ok then Some (BMCPLU_FAILED, config, w)
       else if list_ex (\<lambda>key. key \<notin> set found) config_keys then Some (BMCPLU_FAILED, config, w)
       else Some (BMCPLU_SUCCESS, config, w) } }"

section \<open>The task file\<close>

type_synonym mod_config = "(string, (string, string) stdmap) stdmap"

definition mod_line :: "string \<Rightarrow> mod_config \<times> string \<Rightarrow> mod_config \<times> string" where
  "mod_line raw st =
     (let line = Trim raw; (result, currentSection) = st in
      if line = [] \<or> hd line = CHR ''#'' then st
      else if hd line = CHR ''['' \<and> last line = CHR '']'' then
        (let currentSection = Trim (take (length line - 2) (drop 1 line)) in
         (if currentSection \<noteq> [] then std_set currentSection [] result else result, currentSection))
      else case break_on ''='' line of
          None \<Rightarrow> st
        | Some (before, after) \<Rightarrow>
            if currentSection = [] then st
            else
              let key = Trim before; value = Trim after in
              if key = [] then st
              else
                let section = (case map_of result currentSection of None \<Rightarrow> [] | Some s \<Rightarrow> s) in
                (std_set currentSection (std_set key value section) result, currentSection))"

function mod_loop :: "int \<Rightarrow> mod_config \<times> string \<Rightarrow> world \<Rightarrow> (mod_config \<times> world) option" where
  "mod_loop file st w = do {
     (line, w) \<leftarrow> std_getline file w;
     case line of
       None \<Rightarrow> Some (fst st, w)
     | Some line \<Rightarrow> mod_loop file (mod_line line st) w }"
  by pat_completeness auto
termination
  by (relation "measure (\<lambda>(f, s, w). length (script w))") (auto dest: std_getline_script)

declare mod_loop.simps [simp del]

definition parseModConfig :: "string \<Rightarrow> world \<Rightarrow> (mod_config \<times> world) option" where
  "parseModConfig path w = do {
     (file, w) \<leftarrow> call (Q_fopen path ''r'') w;
     if file < 0 then Some ([], w)
     else do {
       (result, w) \<leftarrow> mod_loop file ([], []) w;
       (_, w) \<leftarrow> call (Q_fclose file) w;
       Some (result, w) } }"

section \<open>The output of the RAID tools\<close>

text \<open>
  \<open>ParseStorcliCmd\<close>: the lines between lines of equals signs. The index of the last line of a
  section is computed in \<open>size_t\<close>; \<open>None\<close> is the empty result of a malformed output.
\<close>

primrec storcli_loop ::
  "string list \<Rightarrow> nat list \<Rightarrow> nat \<Rightarrow> (string, string list) stdmap \<Rightarrow> (string, string list) stdmap option" where
  "storcli_loop cmdOut [] startLine result = Some result"
| "storcli_loop cmdOut (i # is) startLine result =
     (if (cmdOut ! i = [] \<or> list_ex (\<lambda>c. c \<noteq> CHR ''='') (cmdOut ! i)) \<and> i \<noteq> length cmdOut - 1
      then storcli_loop cmdOut is startLine result
      else
        let endLine = (if i = length cmdOut - 1 then i else nat (to_u64 (int i - 2))) in
        if length cmdOut < endLine \<or> endLine < startLine then None
        else
          let storcliInfo = drop startLine (take (endLine + 1) cmdOut);
              strKey = (if startLine = 0 then ''head message'' else cmdOut ! (startLine - 2))
          in storcli_loop cmdOut is (i + 1) (std_emplace strKey storcliInfo result))"

definition ParseStorcliCmd :: "string \<Rightarrow> world \<Rightarrow> ((string, string list) stdmap \<times> world) option" where
  "ParseStorcliCmd cmd w = do {
     (ret, cmdOut, w) \<leftarrow> ExecCommand cmd w;
     if ret \<noteq> BMCPLU_SUCCESS then Some ([], w)
     else case storcli_loop cmdOut [0..<length cmdOut] 0 [] of
         None \<Rightarrow> Some ([], w)
       | Some result \<Rightarrow> Some (result, w) }"

text \<open>
  \<open>ParseCmdMap\<close>: a table between dashed lines. The column number is a \<open>uint8_t\<close>: with 256 or
  more columns the loop over the head never ends, which is \<open>None\<close>.
\<close>

primrec cmd_map_loop ::
  "string list \<Rightarrow> nat \<Rightarrow> (string, nat) stdmap \<Rightarrow> string list list
     \<Rightarrow> ((string, nat) stdmap \<times> string list list) option" where
  "cmd_map_loop [] i mapHead mapInfo = Some (mapHead, mapInfo)"
| "cmd_map_loop (line # lines) i mapHead mapInfo =
     (if line \<noteq> [] \<and> list_all (\<lambda>c. c = CHR ''-'') line then
        (if i + 1 = 3 then Some (mapHead, mapInfo) else cmd_map_loop lines (i + 1) mapHead mapInfo)
      else if i = 1 then
        (let head = SplitBySpace line in
         if 256 \<le> length head then None
         else cmd_map_loop lines i
                (foldl (\<lambda>m (h, j). std_emplace h j m) mapHead (zip head [0..<length head])) mapInfo)
      else if i = 2 then cmd_map_loop lines i mapHead (mapInfo @ [SplitBySpace line])
      else cmd_map_loop lines i mapHead mapInfo)"

definition ParseCmdMap :: "string list \<Rightarrow> ((string, nat) stdmap \<times> string list list) option" where
  "ParseCmdMap inputVec = cmd_map_loop inputVec 0 [] []"

definition ParseStorcliKeyToValue :: "string list \<Rightarrow> (string, string) stdmap" where
  "ParseStorcliKeyToValue inputVec = foldl (\<lambda>result line. case break_on ''='' line of
      None \<Rightarrow> result
    | Some (before, after) \<Rightarrow> std_set (Trim before) (Trim after) result) [] inputVec"

text \<open>Members and types of JSON values, as json-c answers for them.\<close>

definition json_object_object_get :: "json \<Rightarrow> string \<Rightarrow> json" where
  "json_object_object_get j key = (case j of
      JObject kv \<Rightarrow> (case map_of kv key of None \<Rightarrow> JNull | Some v \<Rightarrow> v)
    | _ \<Rightarrow> JNull)"

fun is_json_object :: "json \<Rightarrow> bool" where
  "is_json_object (JObject kv) = True"
| "is_json_object _ = False"

definition ParseHiraidadmCmd :: "(string \<Rightarrow> json option) \<Rightarrow> string \<Rightarrow> world \<Rightarrow> (json \<times> world) option" where
  "ParseHiraidadmCmd JP cmd w = do {
     (ret, cmdOut, w) \<leftarrow> ExecCommand cmd w;
     if ret \<noteq> BMCPLU_SUCCESS then Some (JNull, w)
     else case JP (concat cmdOut) of
         None \<Rightarrow> Some (JNull, w)
       | Some rootObj \<Rightarrow>
           let dataObj = json_object_object_get rootObj ''CommandData'' in
           Some (if is_json_object dataObj then dataObj else JNull, w) }"

section \<open>Splitting is the inverse of joining\<close>

lemma break_on_char: "d \<notin> set a \<Longrightarrow> break_on [d] (a @ d # b) = Some (a, b)"
  by (induction a) auto

lemma break_on_char_None: "d \<notin> set a \<Longrightarrow> break_on [d] a = None"
  by (induction a) auto

fun join :: "char \<Rightarrow> string list \<Rightarrow> string" where
  "join d [] = []"
| "join d [t] = t"
| "join d (t # u # ts) = t @ d # join d (u # ts)"

lemma SplitString_join:
  "\<forall>t \<in> set ts. t \<noteq> [] \<and> d \<notin> set t \<Longrightarrow> SplitString (join d ts) [d] = ts"
proof (induction d ts rule: join.induct)
  case (1 d)
  then show ?case by (subst SplitString.simps) simp
next
  case (2 d t)
  then show ?case by (subst SplitString.simps) (simp add: break_on_char_None)
next
  case (3 d t u ts)
  then have "SplitString (join d (u # ts)) [d] = u # ts" by simp
  with 3 show ?case by (subst SplitString.simps) (simp add: break_on_char)
qed

text \<open>What any split of a text delivers.\<close>

lemma SplitString_ne: "\<forall>t \<in> set (SplitString s p). p \<noteq> [] \<longrightarrow> t \<noteq> []"
proof (induction s p rule: SplitString.induct)
  case (1 s p)
  then show ?case by (subst SplitString.simps) (auto split: option.splits)
qed

lemma SplitBySpace_ne: "\<forall>t \<in> set (SplitBySpace line). line \<noteq> [] \<and> t \<noteq> []"
  by (subst SplitBySpace_def) (auto simp: space_pieces.simps[of "[]"])

lemma Trim_id: "s = [] \<or> \<not> is_space (hd s) \<and> \<not> is_space (last s) \<Longrightarrow> Trim s = s"
proof (cases "s = []")
  case False
  assume "s = [] \<or> \<not> is_space (hd s) \<and> \<not> is_space (last s)"
  with False obtain x xs where s: "s = x # xs" "\<not> is_space x" "\<not> is_space (last s)" by (cases s) auto
  then have "dropWhile is_space s = s" by simp
  moreover have "dropWhile is_space (rev s) = rev s"
    using s(3) False by (cases s rule: rev_cases) auto
  ultimately show ?thesis by (simp add: Trim_def)
qed (simp add: Trim_def)

lemma Trim_no_space: "\<forall>c \<in> set s. \<not> is_space c \<Longrightarrow> Trim s = s"
  by (rule Trim_id) (cases "s = []", auto)

section \<open>Contracts\<close>

text \<open>A tuple inside a tuple, as a pattern of a bind.\<close>

lemma returns_prod_app [ret_intros]:
  "(\<And>a b. x = (a, b) \<Longrightarrow> returns (f a b y) P) \<Longrightarrow> returns (case_prod f x y) P"
  by (cases x) simp

lemma output_lines_returns:
  "balance w = b \<Longrightarrow> length (script w) \<le> n \<Longrightarrow> returns (output_lines pipe ls w)
     (\<lambda>(r, v). balance v = b \<and> length (script v) \<le> n)"
proof (induction "length (script w)" arbitrary: w ls n rule: less_induct)
  case less
  show ?case
    by (subst output_lines.simps, intro ret_intros less.hyps)
       (use less.prems in \<open>auto simp: fun_eq_iff req_delta_def\<close>)
qed

lemma ExecCommand_returns:
  "balance w = b \<Longrightarrow> length (script w) \<le> n \<Longrightarrow> returns (ExecCommand cmd w)
     (\<lambda>(r, ls, v). balance v = b \<and> length (script v) < n)"
  unfolding ExecCommand_def
  by (intro output_lines_returns[OF refl order_refl, THEN returns_mono, unfolded split_paired_all split_conv] ret_intros)
     (auto simp: fun_eq_iff req_delta_def)

lemmas exec_intros = ExecCommand_returns[OF refl order_refl, THEN returns_mono, unfolded split_paired_all split_conv]

lemma ParseStorcliCmd_returns:
  "balance w = b \<Longrightarrow> length (script w) \<le> n \<Longrightarrow> returns (ParseStorcliCmd cmd w)
     (\<lambda>(r, v). balance v = b \<and> length (script v) \<le> n)"
  unfolding ParseStorcliCmd_def by (intro exec_intros ret_intros) auto

lemma ParseHiraidadmCmd_returns:
  "balance w = b \<Longrightarrow> length (script w) \<le> n \<Longrightarrow> returns (ParseHiraidadmCmd JP cmd w)
     (\<lambda>(r, v). balance v = b \<and> length (script v) \<le> n)"
  unfolding ParseHiraidadmCmd_def by (intro exec_intros ret_intros) auto

lemma std_getline_returns:
  "balance w = b \<Longrightarrow> length (script w) \<le> n \<Longrightarrow> returns (std_getline file w)
     (\<lambda>(l, v). balance v = b \<and> length (script v) < n)"
  unfolding std_getline_def by (intro ret_intros) (auto simp: fun_eq_iff)

lemmas getline_intros = std_getline_returns[OF refl order_refl, THEN returns_mono, unfolded split_paired_all split_conv]

lemma mod_loop_returns:
  "balance w = b \<Longrightarrow> returns (mod_loop file st w) (\<lambda>(r, v). balance v = b)"
proof (induction "length (script w)" arbitrary: w st rule: less_induct)
  case less
  show ?case by (subst mod_loop.simps, intro getline_intros ret_intros less.hyps) (use less.prems in auto)
qed

lemma parseModConfig_returns: "balance w = b \<Longrightarrow> returns (parseModConfig path w) (\<lambda>(r, v). balance v = b)"
  unfolding parseModConfig_def
  by (intro mod_loop_returns[OF refl, THEN returns_mono, unfolded split_paired_all split_conv] ret_intros)
     (auto simp: fun_eq_iff req_delta_def)

section \<open>Accepted settings\<close>

definition is_event_id :: "string \<Rightarrow> bool" where
  "is_event_id e \<longleftrightarrow> length e = 4 \<and> list_all is_digit e"

definition valid_config :: "PluConfig \<Rightarrow> bool" where
  "valid_config c \<longleftrightarrow> BMCPLU_PATROL_MIN \<le> patrolSeconds c \<and> patrolSeconds c \<le> BMCPLU_PATROL_MAX \<and>
     list_all is_event_id (BMCEvents c)"

lemma event_id_regex_iff: "rx_match event_id_regex e \<longleftrightarrow> is_event_id e"
proof
  show "rx_match event_id_regex e \<Longrightarrow> is_event_id e"
    unfolding rx_match_iff event_id_regex_def is_event_id_def by (auto elim!: m_catE m_charE)
  assume "is_event_id e"
  then obtain a b c d where e: "e = [a, b, c, d]" "is_digit a" "is_digit b" "is_digit c" "is_digit d"
    by (auto simp: is_event_id_def length_Suc_conv numeral_eq_Suc)
  then show "rx_match event_id_regex e"
    unfolding rx_match_iff event_id_regex_def
    using m_cat[OF m_char[of is_digit a] m_cat[OF m_char[of is_digit b] m_cat[OF m_char[of is_digit c] m_char[of is_digit d]]]]
    by simp
qed

text \<open>What reading a line keeps: the values of the keys found so far are in range.\<close>

definition config_inv :: "PluConfig \<times> string list \<Rightarrow> bool" where
  "config_inv st \<longleftrightarrow> (case st of (c, found) \<Rightarrow>
     (''patrol_second'' \<in> set found \<longrightarrow> BMCPLU_PATROL_MIN \<le> patrolSeconds c \<and> patrolSeconds c \<le> BMCPLU_PATROL_MAX) \<and>
     (''bmc_events'' \<in> set found \<longrightarrow> list_all is_event_id (BMCEvents c)))"

lemma config_processor_inv:
  "config_processor key value c = Some c' \<Longrightarrow> key \<in> set config_keys \<Longrightarrow> config_inv (c, found) \<Longrightarrow>
   config_inv (c', key # found)"
  by (auto simp: config_processor_def config_keys_def log_level_processor_def patrol_second_processor_def
      bmc_events_processor_def config_inv_def Let_def list_ex_iff list_all_iff event_id_regex_iff
      split: if_splits option.splits)

lemma config_line_inv: "config_inv st \<Longrightarrow> config_inv (snd (config_line raw st))"
  by (cases st) (auto simp: config_line_def Let_def config_processor_inv split: option.splits)

lemma settings_loop_returns:
  "balance w = b \<Longrightarrow> config_inv st \<Longrightarrow> returns (config_loop file st w)
     (\<lambda>(ok, (c, found), v). balance v = b \<and> config_inv (c, found))"
proof (induction "length (script w)" arbitrary: w st rule: less_induct)
  case less
  have "config_inv (snd (config_line l st))" for l by (rule config_line_inv[OF less.prems(2)])
  then have i: "config_line l st = (ok, s) \<Longrightarrow> config_inv s" for l ok s by (metis snd_conv)
  show ?case
    by (subst config_loop.simps, intro getline_intros ret_intros less.hyps) (use less.prems i in auto)
qed

lemma ParseConfig_returns:
  "balance w = b \<Longrightarrow> returns (ParseConfig path c w)
     (\<lambda>(r, c', v). balance v = b \<and> (r = BMCPLU_SUCCESS \<longrightarrow> valid_config c'))"
  unfolding ParseConfig_def
  by (intro settings_loop_returns[OF refl, THEN returns_mono, unfolded split_paired_all split_conv] ret_intros)
     (auto simp: fun_eq_iff req_delta_def config_inv_def valid_config_def config_keys_def)

section \<open>Settings are read back\<close>

definition level_text :: "Level \<Rightarrow> string" where
  "level_text l = (case l of Debug \<Rightarrow> ''debug'' | Info \<Rightarrow> ''info'' | Warning \<Rightarrow> ''warning''
     | Error \<Rightarrow> ''error'' | Critical \<Rightarrow> ''critical'')"

definition config_text :: "PluConfig \<Rightarrow> string list" where
  "config_text c =
     [''log_level='' @ level_text (logLevel c), ''patrol_second='' @ dec_nat (nat (patrolSeconds c)),
      ''bmc_events='' @ join (CHR '','') (BMCEvents c)]"

lemma config_line_key:
  assumes "key \<in> set config_keys" "v \<noteq> []" "\<not> is_space (hd v)" "\<not> is_space (last v)"
  shows "config_line (key @ CHR ''='' # v) (c, found) = (case config_processor key v c of
     None \<Rightarrow> (False, c, found) | Some c' \<Rightarrow> (True, c', key # found))"
proof -
  have k: "key \<noteq> []" "CHR ''='' \<notin> set key" "hd key \<noteq> CHR ''#''" "\<forall>x \<in> set key. \<not> is_space x"
    using assms(1) by (auto simp: config_keys_def is_space_def char_val_def)
  have "\<not> is_space (hd (key @ CHR ''='' # v))" "\<not> is_space (last (key @ CHR ''='' # v))"
    using k assms(2,4) by simp_all
  then have t: "Trim (key @ CHR ''='' # v) = key @ CHR ''='' # v" by (intro Trim_id) blast
  have b: "break_on ''='' (key @ CHR ''='' # v) = Some (key, v)" using k by (intro break_on_char) blast
  have "Trim key = key" "Trim v = v" using k assms(3,4) by (simp_all add: Trim_no_space Trim_id)
  with t b k assms(1,2) show ?thesis by (simp add: config_line_def Let_def)
qed

lemma level_text_reads: "log_level_processor (level_text l) c = Some (c\<lparr>logLevel := l\<rparr>)"
  by (cases l) (simp_all add: log_level_processor_def level_text_def)

lemma level_text_ends: "level_text l \<noteq> [] \<and> \<not> is_space (hd (level_text l)) \<and> \<not> is_space (last (level_text l))"
  by (cases l) (simp_all add: level_text_def is_space_def char_val_def)

lemma IsValidNumber_dec: "n < 2 ^ 31 \<Longrightarrow> IsValidNumber (dec_nat n) = Some (int n)"
  using dec_nat_digits by (simp add: IsValidNumber_def list_all_iff)

lemma digits_ends:
  assumes "\<forall>c \<in> set s. is_digit c \<or> c = CHR '',''" "s \<noteq> []"
  shows "\<not> is_space (hd s) \<and> \<not> is_space (last s)"
proof -
  have "\<not> is_space c" if "is_digit c \<or> c = CHR '',''" for c
    using that digit_not_space[of c] by (auto simp: is_space_def)
  with assms show ?thesis by simp
qed

lemma join_chars: "c \<in> set (join d ts) \<Longrightarrow> c = d \<or> (\<exists>t \<in> set ts. c \<in> set t)"
  by (induction d ts rule: join.induct) auto

lemma join_ne: "ts \<noteq> [] \<Longrightarrow> \<forall>t \<in> set ts. t \<noteq> [] \<Longrightarrow> join d ts \<noteq> []"
  by (induction d ts rule: join.induct) auto

lemma event_ids_read:
  assumes "list_all is_event_id es"
  shows "bmc_events_processor (join (CHR '','') es) c = Some (c\<lparr>BMCEvents := es\<rparr>)"
proof -
  have "\<forall>t \<in> set es. t \<noteq> [] \<and> CHR '','' \<notin> set t"
    using assms digit_neq(3) by (fastforce simp: list_all_iff is_event_id_def)
  then have "SplitString (join (CHR '','') es) '','' = es" by (rule SplitString_join)
  then show ?thesis using assms
    by (simp add: bmc_events_processor_def event_id_regex_iff list_ex_iff list_all_iff)
qed

lemma config_text_lines:
  assumes "valid_config c" and "BMCEvents c \<noteq> []"
  shows "config_line (''log_level='' @ level_text (logLevel c)) (b, f) = (True, b\<lparr>logLevel := logLevel c\<rparr>, ''log_level'' # f)"
    and "config_line (''patrol_second='' @ dec_nat (nat (patrolSeconds c))) (b, f) =
      (True, b\<lparr>patrolSeconds := patrolSeconds c\<rparr>, ''patrol_second'' # f)"
    and "config_line (''bmc_events='' @ join (CHR '','') (BMCEvents c)) (b, f) =
      (True, b\<lparr>BMCEvents := BMCEvents c\<rparr>, ''bmc_events'' # f)"
proof -
  show "config_line (''log_level='' @ level_text (logLevel c)) (b, f) = (True, b\<lparr>logLevel := logLevel c\<rparr>, ''log_level'' # f)"
    using config_line_key[of "''log_level''" "level_text (logLevel c)" b f] level_text_ends
    by (simp add: config_keys_def config_processor_def level_text_reads)
  let ?n = "nat (patrolSeconds c)"
  have n: "?n < 2 ^ 31" "60 \<le> patrolSeconds c" "patrolSeconds c \<le> 3600" using assms(1) by (auto simp: valid_config_def)
  then have "patrol_second_processor (dec_nat ?n) b = Some (b\<lparr>patrolSeconds := patrolSeconds c\<rparr>)"
    by (simp add: patrol_second_processor_def IsValidNumber_dec)
  moreover have "\<not> is_space (hd (dec_nat ?n)) \<and> \<not> is_space (last (dec_nat ?n))"
    using dec_nat_digits by (intro digits_ends) auto
  ultimately show "config_line (''patrol_second='' @ dec_nat ?n) (b, f) =
      (True, b\<lparr>patrolSeconds := patrolSeconds c\<rparr>, ''patrol_second'' # f)"
    using config_line_key[of "''patrol_second''" "dec_nat ?n" b f] by (simp add: config_keys_def config_processor_def)
  have e: "list_all is_event_id (BMCEvents c)" using assms(1) by (simp add: valid_config_def)
  let ?j = "join (CHR '','') (BMCEvents c)"
  have "?j \<noteq> []" using e assms(2) by (intro join_ne) (auto simp: list_all_iff is_event_id_def)
  moreover from this have "\<not> is_space (hd ?j) \<and> \<not> is_space (last ?j)"
    using e join_chars[of _ "CHR '',''" "BMCEvents c"]
    by (intro digits_ends) (fastforce simp: list_all_iff is_event_id_def)+
  ultimately show "config_line (''bmc_events='' @ ?j) (b, f) = (True, b\<lparr>BMCEvents := BMCEvents c\<rparr>, ''bmc_events'' # f)"
    using config_line_key[of "''bmc_events''" ?j b f] event_ids_read[OF e, of b]
    by (simp add: config_keys_def config_processor_def)
qed

text \<open>What a settings file delivers line by line, then its end, then the close of the stream.\<close>

definition config_script :: "PluConfig \<Rightarrow> answer list" where
  "config_script c = ans 3 [] # map (ans 0) (config_text c) @ [fails 0, ans 0 []]"

text \<open>A line read by getline.\<close>

lemma getline_step:
  assumes "script w = ans 0 l # as" and "CHR ''\<newline>'' \<notin> set l"
  shows "\<exists>v. std_getline f w = Some (Some l, v) \<and> script v = as"
  using assms by (auto simp: std_getline_def fetch_def sys_def posix_def ans_def Let_def takeWhile_eq_all_conv)

lemma getline_end: "script w = fails e # as \<Longrightarrow> \<exists>v. std_getline f w = Some (None, v) \<and> script v = as"
  by (auto simp: std_getline_def fetch_def sys_def posix_def fails_def Let_def)

lemma config_loop_lines:
  assumes "\<forall>l \<in> set ls. CHR ''\<newline>'' \<notin> set l" and "script w = map (ans 0) ls @ fails e # as"
    and "foldl (\<lambda>st l. case st of None \<Rightarrow> None | Some s \<Rightarrow>
       (case config_line l s of (ok, s') \<Rightarrow> if ok then Some s' else None)) (Some st) ls = Some st'"
  shows "\<exists>v. config_loop f st w = Some (True, st', v) \<and> script v = as"
  using assms
proof (induction ls arbitrary: w st)
  case Nil
  then obtain v where "std_getline f w = Some (None, v)" "script v = as" using getline_end[of w e as f] by auto
  with Nil show ?case by (subst config_loop.simps) simp
next
  case (Cons l ls)
  then obtain v where v: "std_getline f w = Some (Some l, v)" "script v = map (ans 0) ls @ fails e # as"
    using getline_step[of w l "map (ans 0) ls @ fails e # as" f] by auto
  have none: "foldl (\<lambda>st l. case st of None \<Rightarrow> None | Some s \<Rightarrow>
       (case config_line l s of (ok, s') \<Rightarrow> if ok then Some s' else None)) None ls = None"
    by (induction ls) auto
  obtain ok s where c: "config_line l st = (ok, s)" by (cases "config_line l st")
  with Cons.prems(3) none have ok: ok by (auto split: if_splits)
  with Cons.IH[OF _ v(2), of s] Cons.prems c obtain u
    where "config_loop f s v = Some (True, st', u)" "script u = as" by auto
  with v(1) c ok show ?case by (subst config_loop.simps) simp
qed

lemma is_event_chars: "is_event_id e \<Longrightarrow> CHR ''\<newline>'' \<notin> set e"
  by (auto simp: is_event_id_def list_all_iff is_digit_def char_val_def)

lemma config_text_no_newline:
  assumes "valid_config c"
  shows "\<forall>l \<in> set (config_text c). CHR ''\<newline>'' \<notin> set l"
proof -
  have "CHR ''\<newline>'' \<notin> set (level_text (logLevel c))" by (cases "logLevel c") (simp_all add: level_text_def)
  moreover have "CHR ''\<newline>'' \<notin> set (dec_nat n)" for n
    using dec_nat_digits[of n] by (auto simp: is_digit_def char_val_def)
  moreover have "CHR ''\<newline>'' \<notin> set (join (CHR '','') (BMCEvents c))"
    using assms is_event_chars join_chars[of "CHR ''\<newline>''" "CHR '',''" "BMCEvents c"]
    by (auto simp: valid_config_def list_all_iff)
  ultimately show ?thesis by (simp add: config_text_def)
qed

text \<open>C19: The settings file is read back: for every level, every interval from 60 to 3600 seconds and
  every non-empty list of four-digit event identifiers, a file with the three lines that print
  them is accepted, and gives exactly these settings, whatever the uninitialised ones were.\<close>

theorem settings_read_back:
  assumes "valid_config c" and "BMCEvents c \<noteq> []"
  shows "\<exists>v. ParseConfig path blank (boot (config_script c)) = Some (BMCPLU_SUCCESS, c, v) \<and> script v = []"
proof -
  let ?ls = "config_text c"
  obtain w where o: "call (Q_fopen path ''r'') (boot (config_script c)) = Some (3, w)"
    and w: "script w = map (ans 0) ?ls @ fails 0 # [ans 0 []]"
    by (simp add: call_def sys_def posix_def Let_def config_script_def boot_def) (simp add: ans_def)
  have f: "foldl (\<lambda>st l. case st of None \<Rightarrow> None | Some s \<Rightarrow>
       (case config_line l s of (ok, s') \<Rightarrow> if ok then Some s' else None)) (Some (blank, [])) ?ls =
     Some (c, [''bmc_events'', ''patrol_second'', ''log_level''])"
    unfolding config_text_def foldl.simps option.case config_text_lines[OF assms] prod.case if_True
    by (cases c) simp
  from config_loop_lines[OF config_text_no_newline[OF assms(1)] w f]
  obtain v where l: "config_loop 3 (blank, []) w = Some (True, (c, [''bmc_events'', ''patrol_second'', ''log_level'']), v)"
    and v: "script v = [ans 0 []]" by blast
  have "\<exists>u. call (Q_fclose 3) v = Some (0, u) \<and> script u = []" using v by (simp add: call_def sys_def posix_def Let_def ans_def)
  with o l show ?thesis by (auto simp: ParseConfig_def config_keys_def)
qed

theorem settings_read_back_witness:
  "map_option (\<lambda>(r, c, v). (r, patrolSeconds c, BMCEvents c))
     (ParseConfig ''x'' \<lparr>logLevel = Debug, patrolSeconds = 0, BMCEvents = []\<rparr>
       (boot (config_script \<lparr>logLevel = Warning, patrolSeconds = 90, BMCEvents = [''0107'', ''0200'']\<rparr>))) =
   Some (0, 90, [''0107'', ''0200''])"
proof -
  have "valid_config \<lparr>logLevel = Warning, patrolSeconds = 90, BMCEvents = [''0107'', ''0200'']\<rparr>" by code_simp
  from settings_read_back[OF this, of "''x''" "\<lparr>logLevel = Debug, patrolSeconds = 0, BMCEvents = []\<rparr>"]
  show ?thesis by auto
qed

end
