(* ===== verification/BmcIpmi.thy ===== *)
theory BmcIpmi
  imports BmcCommon
begin

text \<open>
  \<open>bmc_ras_sentry/src/cbmcrassentry.cpp\<close>, the part that talks to the BMC: the plugin's state, the
  IPMI commands it builds, the reading of event pages and serial numbers, the subscribed events
  and the alarms. An uncaught C++ exception ends the process; it is the left value of a result.
  The functions that only read the state take it as an argument.
\<close>

section \<open>State\<close>

record ResponseHeader =
  totalEvents :: u16
  eventCount :: u8
  header_valid :: bool

record IPMIEvent =
  alarmTypeCode :: u32
  timestamp :: u32
  severity :: u8
  subjectType :: u8
  deviceId :: u16
  event_valid :: bool

type_synonym BMCEventMap = "(string, u32) stdmap"
type_synonym DiskSNToBlockName = "(string, string list) stdmap"

record CBMCRasSentry =
  m_running :: bool
  m_bmcIp :: string
  m_diskSNToBlockNames :: "DiskSNToBlockName list"
  m_raidSNtoBlockNames :: "(string, DiskSNToBlockName) stdmap"
  m_BMCOpenEvents :: "(u32, string) stdmap"
  m_BMCEvents :: "(string, BMCEventMap) stdmap"
  m_BMCBlockIoChange :: "(u8, bool) stdmap"
  m_patrolSeconds :: int
  m_alarmId :: int

abbreviation RESP_HEADER_SIZE :: nat where "RESP_HEADER_SIZE \<equiv> 7"
abbreviation EVENT_SIZE :: nat where "EVENT_SIZE \<equiv> 15"
abbreviation BMC_BLOCK_IO_CODE :: u32 where "BMC_BLOCK_IO_CODE \<equiv> 0x02000039"
abbreviation MAX_REQ_INDEX :: nat where "MAX_REQ_INDEX \<equiv> 100"

definition BMC_TASK_NAME :: string where "BMC_TASK_NAME = ''bmc_ras_sentry''"

section \<open>The events of the BMC\<close>

definition BMCBlockEvents :: BMCEventMap where
  "BMCBlockEvents =
     [(''0101'', 0x02000009), (''0102'', 0x02000013), (''0103'', 0x02000015), (''0104'', 0x02000019),
      (''0105'', 0x02000027), (''0106'', 0x0200002D), (''0107'', 0x02000039), (''0108'', 0x0200003B),
      (''0109'', 0x0200003D), (''0110'', 0x02000041), (''0111'', 0x0200001D), (''0112'', 0x0200000B)]"

definition InitBMCEvents :: "CBMCRasSentry \<Rightarrow> CBMCRasSentry" where
  "InitBMCEvents s = s\<lparr>m_BMCEvents :=
     [(''01'', BMCBlockEvents), (''02'', [(''0201'', 0x0800004B)]),
      (''03'', [(''0301'', 0x01000017), (''0302'', 0x0100003B), (''0303'', 0x0100005B)]),
      (''04'', [(''0401'', 0x0000001D)])]\<rparr>"

text \<open>\<open>m_BMCOpenEvents\<close> maps the code of an event to its identifier.\<close>

definition open_events :: "BMCEventMap \<Rightarrow> (u32, string) stdmap \<Rightarrow> (u32, string) stdmap" where
  "open_events bmc_event opened = foldl (\<lambda>m (event_id, code). std_emplace code event_id m) opened bmc_event"

definition OpenAllBMCEvents :: "CBMCRasSentry \<Rightarrow> CBMCRasSentry" where
  "OpenAllBMCEvents s = s\<lparr>m_BMCOpenEvents :=
     foldl (\<lambda>m (_, bmc_event). open_events bmc_event m) (m_BMCOpenEvents s) (m_BMCEvents s)\<rparr>"

definition OpenBMCEvents :: "string \<Rightarrow> CBMCRasSentry \<Rightarrow> CBMCRasSentry" where
  "OpenBMCEvents event_id s = (case map_of (m_BMCEvents s) (take 2 event_id) of
      None \<Rightarrow> s
    | Some bmc_event \<Rightarrow>
        if drop 2 event_id = ''00'' then
          s\<lparr>m_BMCOpenEvents := open_events bmc_event (m_BMCOpenEvents s)\<rparr>
        else (case map_of bmc_event event_id of
            None \<Rightarrow> s
          | Some code \<Rightarrow> s\<lparr>m_BMCOpenEvents := std_emplace code event_id (m_BMCOpenEvents s)\<rparr>))"

fun set_open_events :: "string list \<Rightarrow> CBMCRasSentry \<Rightarrow> CBMCRasSentry" where
  "set_open_events [] s = s"
| "set_open_events (event_id # ids) s =
     (if event_id = ''0000'' then OpenAllBMCEvents s else set_open_events ids (OpenBMCEvents event_id s))"

definition IsOpenBMCBlockIo :: "CBMCRasSentry \<Rightarrow> bool" where
  "IsOpenBMCBlockIo s \<longleftrightarrow> map_of (m_BMCOpenEvents s) BMC_BLOCK_IO_CODE \<noteq> None"

section \<open>Commands\<close>

definition IPMI_REQUEST_HEAD :: string where "IPMI_REQUEST_HEAD = ''ipmitool raw 0x30 0x94''"
definition IPMI_REQUEST_KUNPENG_ID :: string where "IPMI_REQUEST_KUNPENG_ID = ''0xDB 0x07 0x00''"
definition IPMI_REQUEST_GET_CONCISE_EVENT :: string where "IPMI_REQUEST_GET_CONCISE_EVENT = ''0x40 0x00''"
definition IPMI_REQUEST_ALL_TYPE :: string where "IPMI_REQUEST_ALL_TYPE = ''0xFF''"

definition BuilSetBMCBlockIoCommand :: "u8 \<Rightarrow> bool \<Rightarrow> string" where
  "BuilSetBMCBlockIoCommand blockType openFlag =
     ''ipmitool raw 0x30 0x93'' @ '' '' @ IPMI_REQUEST_KUNPENG_ID @ '' '' @ ''0x3E'' @ '' '' @ ''0x00 0x19'' @
     '' '' @ ByteToHex blockType @ '' '' @ ''0xFF'' @ '' '' @ ''0xFF'' @ '' '' @ ''0x00'' @ '' '' @
     ''0x00 0x00'' @ '' '' @ ''0x01'' @ '' '' @ (if openFlag then ''0x01'' else ''0x00'')"

definition BuilGetBMCBlockIoCommand :: "u8 \<Rightarrow> string" where
  "BuilGetBMCBlockIoCommand blockType =
     ''ipmitool raw 0x30 0x93'' @ '' '' @ IPMI_REQUEST_KUNPENG_ID @ '' '' @ ''0x3D'' @ '' '' @ ''0x00 0x19'' @
     '' '' @ ByteToHex blockType @ '' '' @ ''0xFF'' @ '' '' @ ''0xFF'' @ '' '' @ ''0x00 0x00'' @ '' '' @ ''0xFF''"

definition BuildHardwareSNIPMICommand :: "IPMIEvent \<Rightarrow> nat \<Rightarrow> string" where
  "BuildHardwareSNIPMICommand event startIndex =
     (let deviceIdHigh = ucast (drop_bit 8 (deviceId event)) :: u8;
          deviceIdLow = ucast (deviceId event) :: u8;
          startLength = word_of_nat (startIndex * 200) :: u16;
          startLengthHigh = ucast (drop_bit 8 startLength) :: u8;
          startLengthLow = ucast startLength :: u8
      in ''ipmitool raw 0x30 0x93'' @ '' '' @ IPMI_REQUEST_KUNPENG_ID @ '' '' @ ''0x90'' @ '' '' @
         ByteToHex (subjectType event) @ '' 0x00 0x00 0x80'' @ '' '' @ ''0xFF'' @ '' '' @
         ByteToHex deviceIdLow @ '' '' @ ByteToHex deviceIdHigh @ '' '' @ ''0x00 0x00'' @ '' '' @
         ByteToHex startLengthLow @ '' '' @ ByteToHex startLengthHigh @ '' '' @ ByteToHex 200)"

definition BuildIPMICommand :: "u16 \<Rightarrow> string \<Rightarrow> string \<Rightarrow> string" where
  "BuildIPMICommand startIndex sev subject =
     IPMI_REQUEST_HEAD @ '' '' @ IPMI_REQUEST_KUNPENG_ID @ '' '' @ IPMI_REQUEST_GET_CONCISE_EVENT @ '' '' @
     ByteToHex (ucast startIndex) @ '' '' @ ByteToHex (ucast (drop_bit 8 startIndex)) @ '' '' @
     sev @ '' '' @ subject"

text \<open>The words of the answer: the lines joined with a space between them.\<close>

fun response_text :: "bool \<Rightarrow> string list \<Rightarrow> string" where
  "response_text first [] = []"
| "response_text first (l # ls) =
     (let line = filter (\<lambda>c. c \<noteq> CHR ''\<newline>'') (filter (\<lambda>c. c \<noteq> CHR 0x0D) l)
      in (if \<not> first \<and> line \<noteq> [] then '' '' else []) @ line @ response_text False ls)"

definition ExecuteIPMICommand :: "string \<Rightarrow> world \<Rightarrow> (string list \<times> world) option" where
  "ExecuteIPMICommand cmd w = do {
     (ret, cmdOut, w) \<leftarrow> ExecCommand cmd w;
     if ret \<noteq> BMCPLU_SUCCESS then Some ([], w)
     else Some (SplitString (response_text True cmdOut) '' '', w) }"

section \<open>The block IO switch of the BMC\<close>

definition OpenBMCBlockIo :: "u8 \<Rightarrow> CBMCRasSentry \<Rightarrow> world \<Rightarrow> (CBMCRasSentry \<times> world) option" where
  "OpenBMCBlockIo blockType s w = do {
     (hexBytes, w) \<leftarrow> ExecuteIPMICommand (BuilGetBMCBlockIoCommand blockType) w;
     if length hexBytes < 5 then Some (s, w)
     else if hexBytes ! 4 = ''01'' then Some (s, w)
     else do {
       (_, w) \<leftarrow> ExecuteIPMICommand (BuilSetBMCBlockIoCommand blockType True) w;
       Some (s\<lparr>m_BMCBlockIoChange := std_set blockType True (m_BMCBlockIoChange s)\<rparr>, w) } }"

definition CloseBMCBlockIo :: "u8 \<Rightarrow> CBMCRasSentry \<Rightarrow> world \<Rightarrow> (CBMCRasSentry \<times> world) option" where
  "CloseBMCBlockIo blockType s w = do {
     (_, w) \<leftarrow> ExecuteIPMICommand (BuilSetBMCBlockIoCommand blockType False) w;
     Some (s\<lparr>m_BMCBlockIoChange := std_set blockType False (m_BMCBlockIoChange s)\<rparr>, w) }"

text \<open>The loops assign to keys that are there, so the keys they visit are those of the start.\<close>

fun open_block_ios :: "u8 list \<Rightarrow> CBMCRasSentry \<Rightarrow> world \<Rightarrow> (CBMCRasSentry \<times> world) option" where
  "open_block_ios [] s w = Some (s, w)"
| "open_block_ios (t # ts) s w = do { (s, w) \<leftarrow> OpenBMCBlockIo t s w; open_block_ios ts s w }"

fun close_block_ios :: "u8 list \<Rightarrow> CBMCRasSentry \<Rightarrow> world \<Rightarrow> (CBMCRasSentry \<times> world) option" where
  "close_block_ios [] s w = Some (s, w)"
| "close_block_ios (t # ts) s w = do {
     (s, w) \<leftarrow> (if map_of (m_BMCBlockIoChange s) t = Some True then CloseBMCBlockIo t s w else Some (s, w));
     close_block_ios ts s w }"

definition SetBMCEvents :: "string list \<Rightarrow> CBMCRasSentry \<Rightarrow> world \<Rightarrow> (CBMCRasSentry \<times> world) option" where
  "SetBMCEvents bmc_events_value s w =
     (let s = set_open_events bmc_events_value (s\<lparr>m_BMCOpenEvents := []\<rparr>);
          types = map fst (m_BMCBlockIoChange s)
      in if IsOpenBMCBlockIo s then open_block_ios types s w else close_block_ios types s w)"

definition destroy_sentry :: "CBMCRasSentry \<Rightarrow> world \<Rightarrow> (CBMCRasSentry \<times> world) option" where
  "destroy_sentry s w = close_block_ios (map fst (m_BMCBlockIoChange s)) s w"

section \<open>Reading a page of events\<close>

text \<open>A byte of the answer: \<open>None\<close> for a text that is not one hexadecimal number up to 255.\<close>

definition hex_byte :: "string \<Rightarrow> int option" where
  "hex_byte s = (let (v, endPtr) = strtoul16 s in
     if endPtr = s \<or> endPtr \<noteq> [] \<or> 0xff < v then None else Some v)"

definition ParseResponseHeader :: "string list \<Rightarrow> ResponseHeader" where
  "ParseResponseHeader hexBytes =
     (let header = \<lparr>totalEvents = 0, eventCount = 0, header_valid = False\<rparr> in
      if length hexBytes < RESP_HEADER_SIZE then header
      else if hexBytes ! 0 \<noteq> ''db'' \<or> hexBytes ! 1 \<noteq> ''07'' \<or> hexBytes ! 2 \<noteq> ''00'' then header
      else case hex_byte (hexBytes ! 3) of None \<Rightarrow> header
      | Some totalLow \<Rightarrow> (case hex_byte (hexBytes ! 4) of None \<Rightarrow> header
      | Some totalHigh \<Rightarrow>
          let header = header\<lparr>totalEvents := word_of_int totalLow OR push_bit 8 (word_of_int totalHigh)\<rparr> in
          (case hex_byte (hexBytes ! 5) of None \<Rightarrow> header
           | Some count \<Rightarrow> header\<lparr>eventCount := word_of_int count, header_valid := True\<rparr>)))"

text \<open>Four bytes in little-endian order, as far as they are valid.\<close>

fun read_bytes :: "string list \<Rightarrow> nat \<Rightarrow> nat list \<Rightarrow> u32 \<Rightarrow> bool \<times> u32" where
  "read_bytes hexBytes pos [] acc = (True, acc)"
| "read_bytes hexBytes pos (i # is) acc = (case hex_byte (hexBytes ! (pos + i)) of
      None \<Rightarrow> (False, acc)
    | Some byte \<Rightarrow> read_bytes hexBytes pos is (acc OR push_bit (i * 8) (word_of_int byte)))"

definition ParseSingleEvent :: "string list \<Rightarrow> nat \<Rightarrow> IPMIEvent" where
  "ParseSingleEvent hexBytes startPos =
     (let event = \<lparr>alarmTypeCode = 0, timestamp = 0, severity = 0, subjectType = 0, deviceId = 0, event_valid = False\<rparr>;
          (ok, code) = read_bytes hexBytes startPos [0..<4] 0;
          event = event\<lparr>alarmTypeCode := code\<rparr>
      in if \<not> ok then event else
      let (ok, time) = read_bytes hexBytes (startPos + 4) [0..<4] 0;
          event = event\<lparr>timestamp := time\<rparr>
      in if \<not> ok then event else
      (case hex_byte (hexBytes ! (startPos + 8)) of None \<Rightarrow> event
       | Some sev \<Rightarrow> let event = event\<lparr>severity := word_of_int sev\<rparr> in
      (case hex_byte (hexBytes ! (startPos + 9)) of None \<Rightarrow> event
       | Some subject \<Rightarrow> let event = event\<lparr>subjectType := word_of_int subject\<rparr> in
      (case hex_byte (hexBytes ! (startPos + 10)) of None \<Rightarrow> event
       | Some device \<Rightarrow> event\<lparr>deviceId := word_of_int device, event_valid := True\<rparr>))))"

section \<open>Serial numbers\<close>

text \<open>The characters of one answer: \<open>Inr None\<close> when a byte does not fit a character.\<close>

fun sn_chars :: "string list \<Rightarrow> string \<Rightarrow> cpp_exn + string option" where
  "sn_chars [] hardwareSN = Inr (Some hardwareSN)"
| "sn_chars (h # hs) hardwareSN = (case HexAsciiToChar h of
      Inl e \<Rightarrow> Inl e
    | Inr None \<Rightarrow> Inr None
    | Inr (Some asciiStr) \<Rightarrow> sn_chars hs (hardwareSN @ asciiStr))"

function sn_loop :: "IPMIEvent \<Rightarrow> nat \<Rightarrow> string \<Rightarrow> world \<Rightarrow> ((cpp_exn + string) \<times> world) option" where
  "sn_loop event startIndex hardwareSN w =
     (if \<not> startIndex < MAX_REQ_INDEX then Some (Inr [], w)
      else do {
        (hexBytes, w) \<leftarrow> ExecuteIPMICommand (BuildHardwareSNIPMICommand event startIndex) w;
        if length hexBytes < 4 then Some (Inr [], w)
        else case sn_chars (drop 4 hexBytes) hardwareSN of
            Inl e \<Rightarrow> Some (Inl e, w)
          | Inr None \<Rightarrow> Some (Inr [], w)
          | Inr (Some hardwareSN) \<Rightarrow>
              if hexBytes ! 3 = ''00'' then Some (Inr hardwareSN, w)
              else sn_loop event (startIndex + 1) hardwareSN w })"
  by pat_completeness auto
termination
  by (relation "measure (\<lambda>(e, i, s, w). MAX_REQ_INDEX - i)") auto

declare sn_loop.simps [simp del]

definition GetHardwareSNByIPMI :: "IPMIEvent \<Rightarrow> world \<Rightarrow> ((cpp_exn + string) \<times> world) option" where
  "GetHardwareSNByIPMI event w = sn_loop event 0 [] w"

section \<open>Alarms\<close>

definition block_name_text :: "string list \<Rightarrow> string" where
  "block_name_text blockNames =
     (let s = concat (map (\<lambda>n. n @ '', '') blockNames) in if 2 \<le> length s then take (length s - 2) s else s)"

text \<open>The logical disks of a serial number: the first map that knows it decides.\<close>

fun find_block_names :: "DiskSNToBlockName list \<Rightarrow> string \<Rightarrow> string" where
  "find_block_names [] diskSN = []"
| "find_block_names (m # ms) diskSN = (case map_of m diskSN of
      None \<Rightarrow> find_block_names ms diskSN
    | Some blockNames \<Rightarrow> block_name_text blockNames)"

definition disk_json :: "string \<Rightarrow> string \<Rightarrow> json" where
  "disk_json diskSN blockNameStr =
     JObject [(''physical_disk'', JString diskSN), (''logical_disk'', JString blockNameStr)]"

text \<open>\<open>SetHardwareInfo\<close>: the members it adds to the object.\<close>

definition SetHardwareInfo ::
  "CBMCRasSentry \<Rightarrow> string \<Rightarrow> IPMIEvent \<Rightarrow> world \<Rightarrow> ((cpp_exn + (string \<times> json) list) \<times> world) option" where
  "SetHardwareInfo s eventId event w =
     (let eventType = take 2 eventId; device = dec_nat (unat (deviceId event)) in
      if eventType = ''01'' then do {
        (sn, w) \<leftarrow> GetHardwareSNByIPMI event w;
        case sn of
          Inl e \<Rightarrow> Some (Inl e, w)
        | Inr sn \<Rightarrow>
            let (diskSN, blockNameStr) =
              (if sn = [] then (device, []) else (sn, find_block_names (m_diskSNToBlockNames s) sn))
            in Some (Inr [(''disk_info'', disk_json diskSN blockNameStr)], w) }
      else if eventType = ''02'' then do {
        (sn, w) \<leftarrow> GetHardwareSNByIPMI event w;
        case sn of
          Inl e \<Rightarrow> Some (Inl e, w)
        | Inr sn \<Rightarrow>
            let raidSN = (if sn = [] then device else sn);
                diskInfos = (case map_of (m_raidSNtoBlockNames s) raidSN of
                    None \<Rightarrow> []
                  | Some m \<Rightarrow> map (\<lambda>(diskSN, blockNames). disk_json diskSN (block_name_text blockNames)) m)
            in Some (Inr [(''raid_info'', JObject [(''raid_id'', JString raidSN), (''disk_info'', JArray diskInfos)])], w) }
      else if eventType = ''03'' then
        Some (Inr [(''ram_info'', JObject [(''ram_id'', JString device)])], w)
      else if eventType = ''04'' then
        Some (Inr [(''cpu_info'', JObject [(''cpu_id'', JString device)])], w)
      else Some (Inr [], w))"

definition ReportAlarm ::
  "(json \<Rightarrow> string) \<Rightarrow> (u32 \<Rightarrow> tm option) \<Rightarrow> CBMCRasSentry \<Rightarrow> IPMIEvent \<Rightarrow> world \<Rightarrow> ((cpp_exn + unit) \<times> world) option" where
  "ReportAlarm J lt s event w = (case map_of (m_BMCOpenEvents s) (alarmTypeCode event) of
      None \<Rightarrow> Some (Inr (), w)
    | Some event_id \<Rightarrow> do {
        let head = [(''alarm_source'', JString BMC_TASK_NAME), (''id'', JString event_id),
                    (''bmc_id'', JString (Uint32ToHexString (alarmTypeCode event))),
                    (''level'', JInt (uint (severity event))),
                    (''time'', JString (Uint32ToLocalTime lt (timestamp event)))];
        (info, w) \<leftarrow> SetHardwareInfo s event_id event w;
        case info of
          Inl e \<Rightarrow> Some (Inl e, w)
        | Inr info \<Rightarrow> do {
            (r, w) \<leftarrow> call (Q_library ''json_object_to_json_string'' []) w;
            (_, w) \<leftarrow> xalarm_Report (m_alarmId s) MINOR_ALM ALARM_TYPE_OCCUR
                        (if r < 0 then None else Some (J (JObject (head @ info)))) w;
            Some (Inr (), w) } })"

text \<open>The events of a page from number \<open>i\<close> on; events that are not valid are skipped.\<close>

fun process_loop_events ::
  "(json \<Rightarrow> string) \<Rightarrow> (u32 \<Rightarrow> tm option) \<Rightarrow> CBMCRasSentry \<Rightarrow> string list \<Rightarrow> nat list \<Rightarrow> world
     \<Rightarrow> ((cpp_exn + unit) \<times> world) option" where
  "process_loop_events J lt s hexBytes [] w = Some (Inr (), w)"
| "process_loop_events J lt s hexBytes (i # is) w =
     (let event = ParseSingleEvent hexBytes (RESP_HEADER_SIZE + i * EVENT_SIZE) in
      if \<not> event_valid event then process_loop_events J lt s hexBytes is w
      else do {
        (r, w) \<leftarrow> ReportAlarm J lt s event w;
        case r of
          Inl e \<Rightarrow> Some (Inl e, w)
        | Inr _ \<Rightarrow> process_loop_events J lt s hexBytes is w })"

definition ProcessEvents ::
  "(json \<Rightarrow> string) \<Rightarrow> (u32 \<Rightarrow> tm option) \<Rightarrow> CBMCRasSentry \<Rightarrow> string list \<Rightarrow> u8 \<Rightarrow> world
     \<Rightarrow> ((cpp_exn + unit) \<times> world) option" where
  "ProcessEvents J lt s hexBytes event_count w = process_loop_events J lt s hexBytes [0..<unat event_count] w"

lemma unat_ucast_8_16: "unat (ucast (n :: u8) :: u16) = unat n"
proof -
  have "unat n < 2 ^ 8" using unsigned_less[of n] by simp
  then have "unat n < 2 ^ 16" by simp
  then show ?thesis by (simp add: unsigned_ucast_eq take_bit_nat_eq_self)
qed

text \<open>
  The pages of one query. The index grows by at least 1 with every page and a page that
  would take it past 65535 is an error, so the loop ends.
\<close>

function query_loop ::
  "(json \<Rightarrow> string) \<Rightarrow> (u32 \<Rightarrow> tm option) \<Rightarrow> CBMCRasSentry \<Rightarrow> u16 \<Rightarrow> world
     \<Rightarrow> ((cpp_exn + int) \<times> world) option" where
  "query_loop J lt s currentIndex w = do {
     (hexBytes, w) \<leftarrow> ExecuteIPMICommand (BuildIPMICommand currentIndex IPMI_REQUEST_ALL_TYPE IPMI_REQUEST_ALL_TYPE) w;
     if hexBytes = [] then Some (Inr BMCPLU_FAILED, w)
     else
       let header = ParseResponseHeader hexBytes; n = eventCount header in
       if \<not> header_valid header then Some (Inr BMCPLU_FAILED, w)
       else if n = 0 then Some (Inr BMCPLU_SUCCESS, w)
       else if length hexBytes \<noteq> RESP_HEADER_SIZE + unat n * EVENT_SIZE then Some (Inr BMCPLU_FAILED, w)
       else do {
         (r, w) \<leftarrow> ProcessEvents J lt s hexBytes n w;
         case r of
           Inl e \<Rightarrow> Some (Inl e, w)
         | Inr _ \<Rightarrow>
             if 65535 - unat currentIndex < unat n then Some (Inr BMCPLU_FAILED, w)
             else
               let currentIndex' = currentIndex + ucast n in
               if currentIndex' = totalEvents header then Some (Inr BMCPLU_SUCCESS, w)
               else if totalEvents header < currentIndex' then Some (Inr BMCPLU_FAILED, w)
               else query_loop J lt s currentIndex' w } }"
  by pat_completeness auto
termination
proof (relation "measure (\<lambda>(J, lt, s, i, w). 65535 - unat i)", goal_cases)
  case (2 J lt s i w x1 h v y n p r u e q)
  let ?n = "eventCount (ParseResponseHeader h)"
  have n: "0 < unat ?n" using 2 by (simp add: unat_gt_0)
  have i: "unat i < 65536" using unsigned_less[of i] by simp
  have s: "unat (i + ucast ?n :: u16) = unat i + unat ?n"
  proof -
    have "unat (ucast ?n :: u16) = unat ?n" by (rule unat_ucast_8_16)
    moreover have "unat i + unat ?n < 2 ^ 16" using 2 i by simp
    ultimately show ?thesis using unat_add_lem[of i "ucast ?n :: u16"] by simp
  qed
  show ?case using n s 2 i by simp
qed simp

declare query_loop.simps [simp del]

definition QueryEvents ::
  "(json \<Rightarrow> string) \<Rightarrow> (u32 \<Rightarrow> tm option) \<Rightarrow> CBMCRasSentry \<Rightarrow> world \<Rightarrow> ((cpp_exn + int) \<times> world) option" where
  "QueryEvents J lt s w = query_loop J lt s 0 w"

definition ReportResult :: "(json \<Rightarrow> string) \<Rightarrow> int \<Rightarrow> string \<Rightarrow> world \<Rightarrow> world option" where
  "ReportResult J resultLevel msg w = do {
     (r, w) \<leftarrow> call (Q_library ''json_object_to_json_string'' []) w;
     (_, w) \<leftarrow> report_result J (Some BMC_TASK_NAME) resultLevel
                 (if r < 0 then None else Some (J (JObject [(''msg'', JString msg)]))) w;
     Some w }"

section \<open>Contracts\<close>

lemma std_set_keys: "std_ok m \<Longrightarrow> k \<in> fst ` set m \<Longrightarrow> map fst (std_set k v m) = map fst m"
proof (induction m)
  case (Cons p m)
  show ?case
  proof (cases "fst p < k")
    case True
    with Cons show ?thesis by auto
  next
    case False
    have "fst p = k" using Cons.prems False by auto
    with False show ?thesis by simp
  qed
qed simp

text \<open>Everything but the record of the block IO switches, whose keys stay.\<close>

definition same_but_io :: "CBMCRasSentry \<Rightarrow> CBMCRasSentry \<Rightarrow> bool" where
  "same_but_io s s' \<longleftrightarrow> s' = s\<lparr>m_BMCBlockIoChange := m_BMCBlockIoChange s'\<rparr> \<and>
     map fst (m_BMCBlockIoChange s') = map fst (m_BMCBlockIoChange s)"

lemma same_but_io_refl [simp]: "same_but_io s s"
  by (simp add: same_but_io_def)

lemma same_but_io_trans: "same_but_io r s \<Longrightarrow> same_but_io s t \<Longrightarrow> same_but_io r t"
  unfolding same_but_io_def by (metis CBMCRasSentry.surjective CBMCRasSentry.update_convs(7))

lemma same_but_io_set:
  "std_ok (m_BMCBlockIoChange s) \<Longrightarrow> t \<in> fst ` set (m_BMCBlockIoChange s) \<Longrightarrow>
   same_but_io s (s\<lparr>m_BMCBlockIoChange := std_set t v (m_BMCBlockIoChange s)\<rparr>)"
  by (simp add: same_but_io_def std_set_keys)

lemma same_but_io_fields:
  "same_but_io s s' \<Longrightarrow> m_running s' = m_running s \<and> m_bmcIp s' = m_bmcIp s \<and>
     m_BMCOpenEvents s' = m_BMCOpenEvents s \<and> m_BMCEvents s' = m_BMCEvents s \<and>
     m_patrolSeconds s' = m_patrolSeconds s \<and> m_alarmId s' = m_alarmId s \<and>
     m_diskSNToBlockNames s' = m_diskSNToBlockNames s \<and> m_raidSNtoBlockNames s' = m_raidSNtoBlockNames s \<and>
     (std_ok (m_BMCBlockIoChange s) \<longrightarrow> std_ok (m_BMCBlockIoChange s')) \<and>
     fst ` set (m_BMCBlockIoChange s') = fst ` set (m_BMCBlockIoChange s)"
  unfolding same_but_io_def by (cases s, cases s') (auto simp flip: set_map)

lemma ExecuteIPMICommand_returns:
  "balance w = b \<Longrightarrow> length (script w) \<le> n \<Longrightarrow> returns (ExecuteIPMICommand cmd w)
     (\<lambda>(r, v). balance v = b \<and> length (script v) < n)"
  unfolding ExecuteIPMICommand_def by (intro exec_intros ret_intros) auto

lemmas ipmi_intros = ExecuteIPMICommand_returns[OF refl order_refl, THEN returns_mono, unfolded split_paired_all split_conv]

definition io_ok :: "CBMCRasSentry \<Rightarrow> u8 list \<Rightarrow> bool" where
  "io_ok s ts \<longleftrightarrow> std_ok (m_BMCBlockIoChange s) \<and> set ts \<subseteq> fst ` set (m_BMCBlockIoChange s)"

lemma io_ok_step: "io_ok s (t # ts) \<Longrightarrow> same_but_io s s' \<Longrightarrow> io_ok s' ts"
  using same_but_io_fields[of s s'] by (auto simp: io_ok_def)

lemma OpenBMCBlockIo_returns:
  "balance w = b \<Longrightarrow> io_ok s [t] \<Longrightarrow> returns (OpenBMCBlockIo t s w) (\<lambda>(s', v). balance v = b \<and> same_but_io s s')"
  unfolding OpenBMCBlockIo_def by (intro ipmi_intros ret_intros) (auto simp: io_ok_def same_but_io_set)

lemma CloseBMCBlockIo_returns:
  "balance w = b \<Longrightarrow> io_ok s [t] \<Longrightarrow> returns (CloseBMCBlockIo t s w)
     (\<lambda>(s', v). balance v = b \<and> same_but_io s s' \<and>
        map_of (m_BMCBlockIoChange s') = (map_of (m_BMCBlockIoChange s))(t \<mapsto> False))"
  unfolding CloseBMCBlockIo_def
  by (intro ipmi_intros ret_intros) (auto simp: io_ok_def same_but_io_set map_of_std_set)

lemma open_block_ios_returns:
  "balance w = b \<Longrightarrow> io_ok s ts \<Longrightarrow> returns (open_block_ios ts s w) (\<lambda>(s', v). balance v = b \<and> same_but_io s s')"
proof (induction ts arbitrary: s w)
  case (Cons t ts)
  have "io_ok s [t]" using Cons.prems(2) by (simp add: io_ok_def)
  then show ?case unfolding open_block_ios.simps
    by (intro OpenBMCBlockIo_returns[OF refl, THEN returns_mono, unfolded split_paired_all split_conv] returns_bind
        Cons.IH[THEN returns_mono, unfolded split_paired_all split_conv] returns_prod)
       (use Cons.prems io_ok_step same_but_io_trans in auto)
qed (simp add: returns_Some)

lemma close_block_ios_returns:
  "balance w = b \<Longrightarrow> io_ok s ts \<Longrightarrow> returns (close_block_ios ts s w)
     (\<lambda>(s', v). balance v = b \<and> same_but_io s s' \<and>
        map_of (m_BMCBlockIoChange s') =
          (\<lambda>t. if t \<in> set ts then map_option (\<lambda>_. False) (map_of (m_BMCBlockIoChange s) t)
               else map_of (m_BMCBlockIoChange s) t))"
proof (induction ts arbitrary: s w)
  case (Cons t ts)
  have t: "io_ok s [t]" "map_of (m_BMCBlockIoChange s) t \<noteq> None"
    using Cons.prems(2) by (auto simp: io_ok_def map_of_eq_None_iff)
  show ?case
  proof (cases "map_of (m_BMCBlockIoChange s) t = Some True")
    case True
    show ?thesis unfolding close_block_ios.simps if_P[OF True]
      by (intro CloseBMCBlockIo_returns[OF refl t(1), THEN returns_mono, unfolded split_paired_all split_conv] returns_bind
          Cons.IH[THEN returns_mono, unfolded split_paired_all split_conv] returns_prod)
         (use Cons.prems True io_ok_step same_but_io_trans in \<open>auto simp: fun_eq_iff\<close>)
  next
    case False
    with t(2) have f: "map_of (m_BMCBlockIoChange s) t = Some False" by auto
    have "io_ok s ts" using Cons.prems(2) by (simp add: io_ok_def)
    from Cons.IH[OF Cons.prems(1) this] show ?thesis
      unfolding close_block_ios.simps if_not_P[OF False] using f
      by (auto simp: fun_eq_iff elim!: returns_mono)
  qed
qed (simp add: returns_Some)

lemma sn_loop_returns:
  "balance w = b \<Longrightarrow> length (script w) \<le> n \<Longrightarrow> returns (sn_loop e i sn w)
     (\<lambda>(r, v). balance v = b \<and> length (script v) \<le> n)"
proof (induction "length (script w)" arbitrary: i sn w n rule: less_induct)
  case less
  show ?case
    by (subst sn_loop.simps, intro ipmi_intros ret_intros less.hyps) (use less.prems in auto)
qed

lemmas sn_intros = sn_loop_returns[OF refl order_refl, THEN returns_mono, unfolded split_paired_all split_conv]

lemma SetHardwareInfo_returns:
  "balance w = b \<Longrightarrow> length (script w) \<le> n \<Longrightarrow> returns (SetHardwareInfo s i e w)
     (\<lambda>(r, v). balance v = b \<and> length (script v) \<le> n)"
  unfolding SetHardwareInfo_def GetHardwareSNByIPMI_def by (intro sn_intros ret_intros) auto

lemmas hw_intros = SetHardwareInfo_returns[OF refl order_refl, THEN returns_mono, unfolded split_paired_all split_conv]
lemmas alarm_intros = xalarm_Report_returns[THEN returns_mono, unfolded split_paired_all split_conv]

lemma ReportAlarm_returns:
  "balance w = b \<Longrightarrow> length (script w) \<le> n \<Longrightarrow> returns (ReportAlarm J lt s e w)
     (\<lambda>(r, v). balance v = b \<and> length (script v) \<le> n)"
  unfolding ReportAlarm_def by (intro hw_intros alarm_intros ret_intros) (auto simp: fun_eq_iff)

lemma process_loop_events_returns:
  "balance w = b \<Longrightarrow> length (script w) \<le> n \<Longrightarrow> returns (process_loop_events J lt s h is w)
     (\<lambda>(r, v). balance v = b \<and> length (script v) \<le> n)"
proof (induction "is" arbitrary: w n)
  case (Cons i "is")
  show ?case unfolding process_loop_events.simps
    by (intro ReportAlarm_returns[OF refl order_refl, THEN returns_mono, unfolded split_paired_all split_conv] ret_intros Cons.IH)
       (use Cons.prems in auto)
qed (simp add: returns_Some)

lemma query_loop_returns:
  "balance w = b \<Longrightarrow> length (script w) \<le> n \<Longrightarrow> returns (query_loop J lt s i w)
     (\<lambda>(r, v). balance v = b \<and> length (script v) \<le> n)"
proof (induction "length (script w)" arbitrary: i w n rule: less_induct)
  case less
  show ?case unfolding query_loop.simps[of J lt s i w] ProcessEvents_def
    by (intro ipmi_intros process_loop_events_returns[OF refl order_refl, THEN returns_mono, unfolded split_paired_all split_conv]
          ret_intros less.hyps)
       (use less.prems in auto)
qed

lemma ReportResult_returns: "balance w = b \<Longrightarrow> returns (ReportResult J l m w) (\<lambda>v. balance v = b)"
  unfolding ReportResult_def
  by (intro report_result_returns[THEN returns_mono, unfolded split_paired_all split_conv] ret_intros)
     (auto simp: fun_eq_iff)

lemma set_open_events_frame:
  "m_running (set_open_events ids s) = m_running s \<and> m_bmcIp (set_open_events ids s) = m_bmcIp s \<and>
   m_BMCEvents (set_open_events ids s) = m_BMCEvents s \<and> m_patrolSeconds (set_open_events ids s) = m_patrolSeconds s \<and>
   m_BMCBlockIoChange (set_open_events ids s) = m_BMCBlockIoChange s"
  by (induction ids arbitrary: s)
     (auto simp: OpenAllBMCEvents_def OpenBMCEvents_def split: option.splits)

text \<open>Changing the subscription changes only the open events and the record of the switches.\<close>

lemma SetBMCEvents_returns:
  assumes "balance w = b" and "std_ok (m_BMCBlockIoChange s)"
  shows "returns (SetBMCEvents ids s w)
     (\<lambda>(s', v). balance v = b \<and> same_but_io (set_open_events ids (s\<lparr>m_BMCOpenEvents := []\<rparr>)) s')"
proof -
  let ?s = "set_open_events ids (s\<lparr>m_BMCOpenEvents := []\<rparr>)"
  have "io_ok ?s (map fst (m_BMCBlockIoChange ?s))"
    using assms(2) set_open_events_frame[of ids "s\<lparr>m_BMCOpenEvents := []\<rparr>"] by (auto simp: io_ok_def)
  then show ?thesis unfolding SetBMCEvents_def Let_def
    by (intro returns_if open_block_ios_returns[THEN returns_mono] close_block_ios_returns[THEN returns_mono])
       (auto simp: assms(1))
qed

lemma destroy_sentry_returns:
  assumes "balance w = b" and "std_ok (m_BMCBlockIoChange s)"
  shows "returns (destroy_sentry s w)
     (\<lambda>(s', v). balance v = b \<and> same_but_io s s' \<and> (\<forall>t. map_of (m_BMCBlockIoChange s') t \<noteq> Some True))"
proof -
  have "io_ok s (map fst (m_BMCBlockIoChange s))" using assms(2) by (auto simp: io_ok_def)
  from close_block_ios_returns[OF assms(1) this] show ?thesis
    unfolding destroy_sentry_def
    by (auto elim!: returns_mono simp: map_of_eq_None_iff[THEN iffD2] split: if_splits option.splits)
qed

section \<open>The subscribed events\<close>

text \<open>The events the plugin knows, and when a list of identifiers asks for one.\<close>

definition known_events :: "(string \<times> u32) list" where
  "known_events = concat (map snd (m_BMCEvents (InitBMCEvents undefined)))"

definition requested :: "string list \<Rightarrow> string \<Rightarrow> bool" where
  "requested ids e \<longleftrightarrow> ''0000'' \<in> set ids \<or> e \<in> set ids \<or> take 2 e @ ''00'' \<in> set ids"

definition opened :: "(u32, string) stdmap \<Rightarrow> (string \<Rightarrow> bool) \<Rightarrow> bool" where
  "opened m Q \<longleftrightarrow> std_ok m \<and> (\<forall>c e. map_of m c = Some e \<longleftrightarrow> (e, c) \<in> set known_events \<and> Q e)"

lemma known_events_list: "known_events = BMCBlockEvents @
   [(''0201'', 0x0800004B), (''0301'', 0x01000017), (''0302'', 0x0100003B), (''0303'', 0x0100005B), (''0401'', 0x0000001D)]"
  by (simp add: known_events_def InitBMCEvents_def)

lemma known_codes_distinct: "distinct (map snd known_events)"
  by (simp add: known_events_list BMCBlockEvents_def)

lemma known_code_unique: "(e, c) \<in> set known_events \<Longrightarrow> (e', c) \<in> set known_events \<Longrightarrow> e = e'"
  using known_codes_distinct by (metis eq_key_imp_eq_value distinct_map inj_on_def prod.inject snd_conv)

lemma open_events_ok:
  assumes "opened m Q" and "set evs \<subseteq> set known_events"
  shows "opened (open_events evs m) (\<lambda>e. Q e \<or> e \<in> fst ` set evs)"
proof -
  have f: "open_events evs m = foldl (\<lambda>m (k, v). std_emplace k v m) m (map prod.swap evs)"
    by (simp add: open_events_def foldl_map prod.swap_def split_def)
  have ok: "std_ok m" using assms(1) by (simp add: opened_def)
  have d: "dom (map_of (open_events evs m)) = dom (map_of m) \<union> snd ` set evs"
    unfolding f using emplace.puts_dom[OF ok, of "map prod.swap evs"] by (simp add: image_image)
  have v: "map_of m c = Some e \<or> (e, c) \<in> set evs" if "map_of (open_events evs m) c = Some e" for c e
    using emplace.puts_value[OF ok, of "map prod.swap evs" c e] that unfolding f by auto
  have "map_of (open_events evs m) c = Some e \<longleftrightarrow> (e, c) \<in> set known_events \<and> (Q e \<or> e \<in> fst ` set evs)" for c e
  proof
    assume "map_of (open_events evs m) c = Some e"
    from v[OF this] show "(e, c) \<in> set known_events \<and> (Q e \<or> e \<in> fst ` set evs)"
      using assms by (force simp: opened_def)
  next
    assume k: "(e, c) \<in> set known_events \<and> (Q e \<or> e \<in> fst ` set evs)"
    have "c \<in> dom (map_of (open_events evs m))"
    proof (cases "Q e")
      case True
      with k assms(1) d show ?thesis by (auto simp: opened_def)
    next
      case False
      with k obtain c' where c': "(e, c') \<in> set evs" by auto
      have "distinct (map fst known_events)" by (simp add: known_events_list BMCBlockEvents_def)
      with c' k assms(2) have "c' = c" by (metis eq_key_imp_eq_value subsetD)
      with c' d show ?thesis by force
    qed
    then obtain e' where e': "map_of (open_events evs m) c = Some e'" by auto
    from v[OF this] have "(e', c) \<in> set known_events" using assms by (auto simp: opened_def)
    with k e' known_code_unique show "map_of (open_events evs m) c = Some e" by blast
  qed
  moreover have "std_ok (open_events evs m)" unfolding f by (rule emplace.puts_ok[OF ok])
  ultimately show ?thesis by (auto simp: opened_def)
qed

lemma opened_cong: "(\<And>e. e \<in> fst ` set known_events \<Longrightarrow> Q e = Q' e) \<Longrightarrow> opened m Q = opened m Q'"
  unfolding opened_def by force

abbreviation event_groups :: "(string, BMCEventMap) stdmap" where
  "event_groups \<equiv> m_BMCEvents (InitBMCEvents undefined)"

lemma event_groups_list: "event_groups = [(''01'', BMCBlockEvents), (''02'', [(''0201'', 0x0800004B)]),
   (''03'', [(''0301'', 0x01000017), (''0302'', 0x0100003B), (''0303'', 0x0100005B)]), (''04'', [(''0401'', 0x0000001D)])]"
  by (simp add: InitBMCEvents_def)

lemma group_table:
  "list_all (\<lambda>(g, grp). list_all (\<lambda>x. x \<in> set known_events) grp \<and>
     list_all (\<lambda>e. take 2 e = g \<longleftrightarrow> e \<in> set (map fst grp)) (map fst known_events)) event_groups"
  "list_all (\<lambda>e. take 2 e \<in> set (map fst event_groups)) (map fst known_events)"
  unfolding event_groups_list known_events_list by code_simp+

lemma group_events:
  assumes "map_of event_groups g = Some grp"
  shows "set grp \<subseteq> set known_events" and "\<forall>e \<in> fst ` set known_events. take 2 e = g \<longleftrightarrow> e \<in> fst ` set grp"
proof -
  note b = bspec[OF group_table(1)[unfolded list_all_iff] map_of_SomeD[OF assms], unfolded prod.case set_map]
  show "set grp \<subseteq> set known_events" using b by blast
  show "\<forall>e \<in> fst ` set known_events. take 2 e = g \<longleftrightarrow> e \<in> fst ` set grp" using b by blast
qed

lemma no_group: "map_of event_groups g = None \<Longrightarrow> \<forall>e \<in> fst ` set known_events. take 2 e \<noteq> g"
  using group_table(2) unfolding list_all_iff map_of_eq_None_iff set_map by blast

lemma known_ids: "\<forall>e \<in> fst ` set known_events. length e = 4 \<and> drop 2 e \<noteq> ''00''"
  unfolding known_events_list BMCBlockEvents_def by simp

lemma event_id_cases:
  assumes "e \<in> fst ` set known_events"
  shows "e = i \<or> take 2 e @ ''00'' = i \<longleftrightarrow> take 2 e = take 2 i \<and> (drop 2 i = ''00'' \<or> e = i)"
proof -
  have e: "length e = 4" using known_ids assms by blast
  show ?thesis
  proof
    assume "e = i \<or> take 2 e @ ''00'' = i"
    then show "take 2 e = take 2 i \<and> (drop 2 i = ''00'' \<or> e = i)" using e by auto
  next
    assume r: "take 2 e = take 2 i \<and> (drop 2 i = ''00'' \<or> e = i)"
    then show "e = i \<or> take 2 e @ ''00'' = i" using append_take_drop_id[of 2 i] by metis
  qed
qed

lemma OpenBMCEvents_ok:
  assumes "opened (m_BMCOpenEvents s) Q" and "m_BMCEvents s = event_groups"
  shows "opened (m_BMCOpenEvents (OpenBMCEvents i s)) (\<lambda>e. Q e \<or> e = i \<or> take 2 e @ ''00'' = i)"
proof -
  let ?Q = "\<lambda>e. Q e \<or> (take 2 e = take 2 i \<and> (drop 2 i = ''00'' \<or> e = i))"
  have "opened (m_BMCOpenEvents (OpenBMCEvents i s)) ?Q"
  proof (cases "map_of event_groups (take 2 i)")
    case None
    then have "m_BMCOpenEvents (OpenBMCEvents i s) = m_BMCOpenEvents s" by (simp add: OpenBMCEvents_def assms(2))
    moreover have "opened (m_BMCOpenEvents s) ?Q"
      using assms(1) no_group[OF None] by (subst opened_cong[where Q' = Q]) auto
    ultimately show ?thesis by simp
  next
    case (Some grp)
    note g = group_events[OF Some]
    show ?thesis
    proof (cases "drop 2 i = ''00''")
      case True
      then have "m_BMCOpenEvents (OpenBMCEvents i s) = open_events grp (m_BMCOpenEvents s)"
        using Some by (simp add: OpenBMCEvents_def assms(2))
      moreover have "opened (open_events grp (m_BMCOpenEvents s)) ?Q"
        using open_events_ok[OF assms(1) g(1)] g(2) True by (subst opened_cong[where Q' = "\<lambda>e. Q e \<or> e \<in> fst ` set grp"]) auto
      ultimately show ?thesis by simp
    next
      case False
      have t: "?Q = (\<lambda>e. Q e \<or> e = i)" using False by auto
      show ?thesis
      proof (cases "map_of grp i")
        case None
        then have m: "m_BMCOpenEvents (OpenBMCEvents i s) = m_BMCOpenEvents s"
          using Some False by (simp add: OpenBMCEvents_def assms(2))
        have "i \<notin> fst ` set grp" using None by (simp add: map_of_eq_None_iff)
        then have "i \<notin> fst ` set known_events" using g(2) by auto
        with assms(1) show ?thesis unfolding t m by (subst opened_cong[where Q' = Q]) auto
      next
        case c: (Some c)
        then have "m_BMCOpenEvents (OpenBMCEvents i s) = open_events [(i, c)] (m_BMCOpenEvents s)"
          using Some False by (simp add: OpenBMCEvents_def assms(2) open_events_def)
        moreover have "set [(i, c)] \<subseteq> set known_events" using map_of_SomeD[OF c] g(1) by auto
        ultimately show ?thesis unfolding t using open_events_ok[OF assms(1), of "[(i, c)]"] by simp
      qed
    qed
  qed
  then show ?thesis by (subst opened_cong[OF disj_cong[OF refl event_id_cases]]) simp_all
qed

lemma open_groups_ok:
  "opened m Q \<Longrightarrow> \<forall>g \<in> set gs. set (snd g) \<subseteq> set known_events \<Longrightarrow>
   opened (foldl (\<lambda>m (_, bmc_event). open_events bmc_event m) m gs)
     (\<lambda>e. Q e \<or> e \<in> fst ` set (concat (map snd gs)))"
proof (induction gs arbitrary: m Q)
  case (Cons g gs)
  obtain n evs where g: "g = (n, evs)" by force
  from Cons.IH[OF open_events_ok[OF Cons.prems(1), of evs]] Cons.prems(2) g
  show ?case by (auto simp: image_Un disj_assoc Un_iff)
qed simp

lemma OpenAll_ok:
  assumes "opened (m_BMCOpenEvents s) Q" and "m_BMCEvents s = event_groups"
  shows "opened (m_BMCOpenEvents (OpenAllBMCEvents s)) (\<lambda>e. True)"
proof -
  have "\<forall>g \<in> set event_groups. set (snd g) \<subseteq> set known_events" unfolding known_events_def set_concat set_map by blast
  from open_groups_ok[OF assms(1) this] show ?thesis
    unfolding OpenAllBMCEvents_def using assms(2)
    by (subst opened_cong[where Q' = "\<lambda>e. Q e \<or> e \<in> fst ` set (concat (map snd event_groups))"])
       (auto simp: known_events_def)
qed

lemma set_open_events_ok:
  "opened (m_BMCOpenEvents s) Q \<Longrightarrow> m_BMCEvents s = event_groups \<Longrightarrow>
   opened (m_BMCOpenEvents (set_open_events ids s)) (\<lambda>e. Q e \<or> requested ids e)"
proof (induction ids arbitrary: s Q)
  case (Cons i ids)
  show ?case
  proof (cases "i = ''0000''")
    case True
    then have "opened (m_BMCOpenEvents (set_open_events (i # ids) s)) (\<lambda>e. True)"
      using OpenAll_ok[OF Cons.prems] by simp
    then show ?thesis using True by (subst opened_cong[where Q' = "\<lambda>e. True"]) (simp_all add: requested_def)
  next
    case False
    have "m_BMCEvents (OpenBMCEvents i s) = event_groups"
      using Cons.prems(2) by (simp add: OpenBMCEvents_def split: option.splits)
    from Cons.IH[OF OpenBMCEvents_ok[OF Cons.prems, of i] this] False show ?thesis
      by (subst opened_cong[where Q' = "\<lambda>e. (Q e \<or> e = i \<or> take 2 e @ ''00'' = i) \<or> requested ids e"])
         (auto simp: requested_def)
  qed
qed (simp add: requested_def)

text \<open>C11: The subscription is what the settings ask for: after the events are set, an event code is
  looked up exactly when it is one of the 17 codes the plugin knows and its identifier, its
  group (two digits and 00) or all events (0000) are in the list; what was subscribed before, the
  order of the list, repetitions and unknown identifiers make no difference.\<close>

theorem subscription_exact:
  assumes "m_BMCEvents s = m_BMCEvents (InitBMCEvents s)" and "std_ok (m_BMCBlockIoChange s)"
    and "SetBMCEvents ids s w = Some (s', w')"
  shows "map_of (m_BMCOpenEvents s') c = Some e \<longleftrightarrow>
    (e, c) \<in> set known_events \<and> (''0000'' \<in> set ids \<or> e \<in> set ids \<or> take 2 e @ ''00'' \<in> set ids)"
proof -
  have "opened [] (\<lambda>e. False)" by (simp add: opened_def)
  then have "opened (m_BMCOpenEvents (set_open_events ids (s\<lparr>m_BMCOpenEvents := []\<rparr>))) (\<lambda>e. False \<or> requested ids e)"
    using assms(1) by (intro set_open_events_ok) (simp_all add: InitBMCEvents_def)
  moreover have "m_BMCOpenEvents s' = m_BMCOpenEvents (set_open_events ids (s\<lparr>m_BMCOpenEvents := []\<rparr>))"
    using returnsD[OF SetBMCEvents_returns[OF refl assms(2)] assms(3)] same_but_io_fields by auto
  ultimately show ?thesis by (simp add: opened_def requested_def)
qed

definition demo_sentry :: CBMCRasSentry where
  "demo_sentry = InitBMCEvents \<lparr>m_running = False, m_bmcIp = [], m_diskSNToBlockNames = [], m_raidSNtoBlockNames = [],
     m_BMCOpenEvents = [], m_BMCEvents = [], m_BMCBlockIoChange = [(0, False), (1, False)], m_patrolSeconds = 60, m_alarmId = 1015\<rparr>"

theorem subscription_exact_witness:
  "case SetBMCEvents [''0300'', ''0999'', ''0201''] demo_sentry (boot []) of
     Some (s', w') \<Rightarrow> map_of (m_BMCOpenEvents s') 0x0100003B = Some ''0302'' \<and> map_of (m_BMCOpenEvents s') 0x0000001D = None
   | None \<Rightarrow> False"
proof -
  have d: "std_ok (m_BMCBlockIoChange demo_sentry)" by (simp add: demo_sentry_def InitBMCEvents_def)
  have i: "m_BMCEvents demo_sentry = m_BMCEvents (InitBMCEvents demo_sentry)" by (simp add: demo_sentry_def InitBMCEvents_def)
  have "map_option (m_running \<circ> fst) (SetBMCEvents [''0300'', ''0999'', ''0201''] demo_sentry (boot [])) = Some False"
    by code_simp
  then obtain s' w' where e: "SetBMCEvents [''0300'', ''0999'', ''0201''] demo_sentry (boot []) = Some (s', w')" by auto
  note x = subscription_exact[OF i d e]
  have "map_of (m_BMCOpenEvents s') 0x0100003B = Some ''0302''"
    unfolding x by (simp add: known_events_list)
  moreover have "map_of (m_BMCOpenEvents s') 0x0000001D \<noteq> Some y" for y
    unfolding x by (auto simp: known_events_list BMCBlockEvents_def)
  ultimately show ?thesis unfolding e by auto
qed

section \<open>Pages of events\<close>

lemma digit_table:
  "list_all (\<lambda>d. let c = digit_char d in hex_digit_val c = Some d \<and> \<not> is_space c \<and>
     c \<notin> set [CHR ''-'', CHR ''+'', CHR ''\<newline>'', CHR 0x0D, NUL]) [0..<16]"
  by code_simp

lemma hex_digit:
  assumes "d < 16"
  shows "hex_digit_val (digit_char d) = Some d" "\<not> is_space (digit_char d)"
    "digit_char d \<notin> set [CHR ''-'', CHR ''+'', CHR ''\<newline>'', CHR 0x0D, NUL]"
proof -
  from assms have "d \<in> set [0..<16]" by simp
  note b = bspec[OF digit_table[unfolded list_all_iff] this, unfolded Let_def]
  show "hex_digit_val (digit_char d) = Some d" "\<not> is_space (digit_char d)"
    "digit_char d \<notin> set [CHR ''-'', CHR ''+'', CHR ''\<newline>'', CHR 0x0D, NUL]" using b by blast+
qed

lemma hexw_digits: "n < 256 \<Longrightarrow> hexw 2 n = [digit_char (n div 16), digit_char (n mod 16)]"
proof -
  assume n: "n < 256"
  have z: "CHR ''0'' = digit_char 0" by code_simp
  show ?thesis
  proof (cases "n < 16")
    case True
    then show ?thesis by (subst hexw_def, subst hex_nat.simps) (simp add: pad0_def z numeral_2_eq_2)
  next
    case False
    moreover have "hex_nat (n div 16) = [digit_char (n div 16)]"
      using n by (subst hex_nat.simps) (simp add: div_less_iff_less_mult)
    ultimately show ?thesis by (subst hexw_def, subst hex_nat.simps) (simp add: pad0_def)
  qed
qed

lemma hexw_two: "n < 256 \<Longrightarrow> length (hexw 2 n) = 2"
  by (simp add: hexw_digits)

lemma hexw_chars:
  "n < 256 \<Longrightarrow> c \<in> set (hexw 2 n) \<Longrightarrow> \<not> is_space c \<and> c \<notin> set [CHR ''\<newline>'', CHR 0x0D, NUL]"
  using hex_digit(2,3)[of "n div 16"] hex_digit(2,3)[of "n mod 16"]
  by (auto simp: hexw_digits div_less_iff_less_mult)

lemma hex_byte_hexw: "n < 256 \<Longrightarrow> hex_byte (hexw 2 n) = Some (int n)"
proof -
  assume n: "n < 256"
  then have d: "n div 16 < 16" "n mod 16 < 16" by (simp_all add: div_less_iff_less_mult)
  have "strtoul16 [digit_char (n div 16), digit_char (n mod 16)] = (int n, [])"
    using hex_digit[OF d(1)] hex_digit[OF d(2)]
n
    by (simp add: strtoul16_def Let_def nat_of_hex_def)
  then show ?thesis using n by (simp add: hexw_digits hex_byte_def)
qed

text \<open>The bytes the BMC sends for events, as its protocol lays them out.\<close>

definition bytes_of :: "nat \<Rightarrow> nat \<Rightarrow> string list" where
  "bytes_of k n = map (\<lambda>i. hexw 2 (n div 256 ^ i mod 256)) [0..<k]"

definition event_bytes :: "IPMIEvent \<Rightarrow> string list" where
  "event_bytes e = bytes_of 4 (unat (alarmTypeCode e)) @ bytes_of 4 (unat (timestamp e)) @
     [hexw 2 (unat (severity e)), hexw 2 (unat (subjectType e)), hexw 2 (unat (deviceId e))] @ bytes_of 4 0"

definition page_bytes :: "u16 \<Rightarrow> IPMIEvent list \<Rightarrow> string list" where
  "page_bytes tot evs =
     [''db'', ''07'', ''00''] @ bytes_of 2 (unat tot) @ [hexw 2 (length evs), ''00''] @ concat (map event_bytes evs)"

definition wire_event :: "IPMIEvent \<Rightarrow> bool" where
  "wire_event e \<longleftrightarrow> event_valid e \<and> unat (deviceId e) < 256"

lemma length_event_bytes [simp]: "length (event_bytes e) = 15"
  by (simp add: event_bytes_def bytes_of_def)

lemma length_page_bytes [simp]: "length (page_bytes tot evs) = 7 + 15 * length evs"
  by (induction evs) (simp_all add: page_bytes_def bytes_of_def)

lemma bytes_of_nth: "i < k \<Longrightarrow> hex_byte (bytes_of k n ! i) = Some (int (n div 256 ^ i mod 256))"
  by (simp add: bytes_of_def hex_byte_hexw)

lemma page_event_nth:
  assumes "i < length evs" and "j < 15"
  shows "page_bytes tot evs ! (7 + i * 15 + j) = event_bytes (evs ! i) ! j"
proof -
  have "concat (map event_bytes evs) ! (i * 15 + j) = event_bytes (evs ! i) ! j"
    using assms
  proof (induction evs arbitrary: i)
    case (Cons e es)
    show ?case
    proof (cases i)
      case 0
      with Cons.prems show ?thesis by (simp add: nth_append)
    next
      case (Suc k)
      with Cons show ?thesis by (simp add: nth_append)
    qed
  qed simp
  then show ?thesis by (simp add: page_bytes_def bytes_of_def nth_append add.assoc)
qed

lemma word_bytes:
  fixes x :: u32
  shows "((0 OR push_bit (0 * 8) (word_of_int (int (unat x div 256 ^ 0 mod 256)))) OR
      push_bit (1 * 8) (word_of_int (int (unat x div 256 ^ 1 mod 256)))) OR
      push_bit (2 * 8) (word_of_int (int (unat x div 256 ^ 2 mod 256))) OR
      push_bit (3 * 8) (word_of_int (int (unat x div 256 ^ 3 mod 256))) = x"
proof -
  have b: "(word_of_int (int (unat x div 256 ^ i mod 256)) :: u32) = take_bit 8 (drop_bit (i * 8) x)" for i :: nat
  proof -
    have "(256::nat) ^ i = (2 ^ 8) ^ i" by simp
    then have "(256::nat) ^ i = 2 ^ (i * 8)" by (simp only: power_mult[symmetric] mult.commute)
    then have "unat x div 256 ^ i mod 256 = unat (take_bit 8 (drop_bit (i * 8) x))"
      by (simp only: unsigned_take_bit_eq unat_drop_bit_eq) (simp add: take_bit_eq_mod drop_bit_eq_div)
    then show ?thesis by simp
  qed
  show ?thesis unfolding b
  proof (rule bit_word_eqI)
    fix n
    assume "n < LENGTH(32)"
    then consider "n < 8" | "8 \<le> n" "n < 16" | "16 \<le> n" "n < 24" | "24 \<le> n" "n < 32" by force
    then show "bit (((0 OR push_bit (0 * 8) (take_bit 8 (drop_bit (0 * 8) x))) OR
      push_bit (1 * 8) (take_bit 8 (drop_bit (1 * 8) x))) OR
      push_bit (2 * 8) (take_bit 8 (drop_bit (2 * 8) x)) OR
      push_bit (3 * 8) (take_bit 8 (drop_bit (3 * 8) x))) n = bit x n"
      by cases (auto simp: bit_simps)
  qed
qed

lemma word_bytes_read:
  fixes x :: u32
  assumes "\<forall>i < 4. hexBytes ! (pos + i) = bytes_of 4 (unat x) ! i"
  shows "read_bytes hexBytes pos [0..<4] 0 = (True, x)"
proof -
  have h: "hex_byte (hexBytes ! (pos + i)) = Some (int (unat x div 256 ^ i mod 256))" if "i < 4" for i
    using assms that bytes_of_nth by simp
  have u: "[0..<4] = [0, 1, 2, 3 :: nat]" by (simp add: upt_rec)
  show ?thesis unfolding u using word_bytes[of x] h[of 0] h[of 1] h[of 2] h[of 3]
    by (simp add: or.assoc)
qed

lemma event_read:
  assumes "wire_event e" and "\<forall>j < 15. hexBytes ! (pos + j) = event_bytes e ! j"
  shows "ParseSingleEvent hexBytes pos = e"
proof -
  have l: "length (bytes_of 4 n) = 4" for n by (simp add: bytes_of_def)
  have "\<forall>i < 4. hexBytes ! (pos + i) = bytes_of 4 (unat (alarmTypeCode e)) ! i"
    using assms(2) by (simp add: event_bytes_def nth_append l)
  from word_bytes_read[OF this] have c: "read_bytes hexBytes pos [0..<4] 0 = (True, alarmTypeCode e)" .
  have "\<forall>i < 4. hexBytes ! (pos + 4 + i) = bytes_of 4 (unat (timestamp e)) ! i"
    using assms(2) by (auto simp: event_bytes_def nth_append l add.assoc)
  from word_bytes_read[OF this] have t: "read_bytes hexBytes (pos + 4) [0..<4] 0 = (True, timestamp e)" .
  have b: "unat (severity e) < 256" "unat (subjectType e) < 256"
    using unsigned_less[of "severity e"] unsigned_less[of "subjectType e"] by simp_all
  have "hexBytes ! (pos + 8) = hexw 2 (unat (severity e))" "hexBytes ! (pos + 9) = hexw 2 (unat (subjectType e))"
    "hexBytes ! (pos + 10) = hexw 2 (unat (deviceId e))"
    using assms(2) by (simp_all add: event_bytes_def nth_append l)
  with b assms(1) have "hex_byte (hexBytes ! (pos + 8)) = Some (int (unat (severity e)))"
    "hex_byte (hexBytes ! (pos + 9)) = Some (int (unat (subjectType e)))"
    "hex_byte (hexBytes ! (pos + 10)) = Some (int (unat (deviceId e)))"
    by (simp_all add: hex_byte_hexw wire_event_def)
  then show ?thesis using c t assms(1)
    by (cases e) (simp add: ParseSingleEvent_def Let_def wire_event_def)
qed

lemma page_header:
  assumes "length evs < 256"
  shows "ParseResponseHeader (page_bytes tot evs) = \<lparr>totalEvents = tot, eventCount = of_nat (length evs), header_valid = True\<rparr>"
proof -
  have t: "unat tot < 65536" using unsigned_less[of tot] by simp
  let ?p = "page_bytes tot evs"
  have u: "[0..<2] = [0, 1 :: nat]" by (simp add: upt_rec)
  have p: "?p = ''db'' # ''07'' # ''00'' # hexw 2 (unat tot mod 256) # hexw 2 (unat tot div 256 mod 256) #
      hexw 2 (length evs) # ''00'' # concat (map event_bytes evs)" by (simp add: page_bytes_def bytes_of_def u)
  have n: "?p ! 0 = ''db''" "?p ! 1 = ''07''" "?p ! 2 = ''00''" "?p ! 3 = hexw 2 (unat tot mod 256)"
    "?p ! 4 = hexw 2 (unat tot div 256 mod 256)" "?p ! 5 = hexw 2 (length evs)"
    unfolding p by simp_all
  have h: "hex_byte (?p ! 3) = Some (int (unat tot mod 256))" "hex_byte (?p ! 4) = Some (int (unat tot div 256 mod 256))"
    "hex_byte (?p ! 5) = Some (int (length evs))"
    unfolding n using assms by (simp_all add: hex_byte_hexw)
  have "unat tot mod 256 = unat (take_bit 8 tot)" "unat tot div 256 mod 256 = unat (take_bit 8 (drop_bit 8 tot))"
    by (simp only: unsigned_take_bit_eq unat_drop_bit_eq, simp add: take_bit_eq_mod drop_bit_eq_div)+
  then have "(word_of_int (int (unat tot mod 256)) :: u16) = take_bit 8 tot"
    "(word_of_int (int (unat tot div 256 mod 256)) :: u16) = take_bit 8 (drop_bit 8 tot)" by simp_all
  moreover have "take_bit 8 tot OR push_bit 8 (take_bit 8 (drop_bit 8 tot)) = tot"
  proof (rule bit_word_eqI)
    fix k
    assume "k < LENGTH(16)"
    then consider "k < 8" | "8 \<le> k" "k < 16" by force
    then show "bit (take_bit 8 tot OR push_bit 8 (take_bit 8 (drop_bit 8 tot))) k = bit tot k"
      by cases (auto simp: bit_simps)
  qed
  ultimately show ?thesis using h n(1-3) by (simp add: ParseResponseHeader_def Let_def)
qed

text \<open>The words of an answer, however ipmitool breaks them into lines.\<close>

definition clean_word :: "string \<Rightarrow> bool" where
  "clean_word t \<longleftrightarrow> t \<noteq> [] \<and> (\<forall>c \<in> set t. \<not> is_space c)"

lemma clean_wordD: "clean_word t \<Longrightarrow> c \<in> set t \<Longrightarrow> c \<noteq> CHR ''\<newline>'' \<and> c \<noteq> CHR 0x0D \<and> c \<noteq> CHR '' ''"
proof -
  have "is_space (CHR ''\<newline>'')" "is_space (CHR 0x0D)" "is_space (CHR '' '')" by code_simp+
  then show "clean_word t \<Longrightarrow> c \<in> set t \<Longrightarrow> c \<noteq> CHR ''\<newline>'' \<and> c \<noteq> CHR 0x0D \<and> c \<noteq> CHR '' ''"
    unfolding clean_word_def by blast
qed

lemma join_append: "xs \<noteq> [] \<Longrightarrow> ys \<noteq> [] \<Longrightarrow> join d (xs @ ys) = join d xs @ d # join d ys"
proof (induction d xs rule: join.induct)
  case (2 d t)
  then show ?case by (cases ys) auto
qed auto

lemma clean_line:
  assumes "\<forall>t \<in> set ws. clean_word t"
  shows "filter (\<lambda>c. c \<noteq> CHR ''\<newline>'') (filter (\<lambda>c. c \<noteq> CHR 0x0D) (join (CHR '' '') ws)) = join (CHR '' '') ws"
proof -
  have "c \<noteq> CHR ''\<newline>'' \<and> c \<noteq> CHR 0x0D" if c: "c \<in> set (join (CHR '' '') ws)" for c
    using join_chars[OF c] assms clean_wordD by blast
  then show ?thesis by (simp add: filter_id_conv)
qed

lemma response_text_lines:
  assumes "\<forall>ws \<in> set wss. ws \<noteq> [] \<and> (\<forall>t \<in> set ws. clean_word t)"
  shows "response_text False (map (join (CHR '' '')) wss) = (if wss = [] then [] else '' '' @ join (CHR '' '') (concat wss))"
  using assms
proof (induction wss)
  case (Cons ws wss)
  have "join (CHR '' '') ws \<noteq> []" using Cons.prems by (intro join_ne) (auto simp: clean_word_def)
  moreover have "wss \<noteq> [] \<Longrightarrow> concat wss \<noteq> []" using Cons.prems by (cases wss) auto
  ultimately show ?case using Cons clean_line[of ws]
    by (simp add: Let_def join_append)
qed simp

lemma response_words:
  assumes "\<forall>ws \<in> set wss. ws \<noteq> [] \<and> (\<forall>t \<in> set ws. clean_word t)"
  shows "SplitString (response_text True (map (join (CHR '' '')) wss)) '' '' = concat wss"
proof -
  have "response_text True (map (join (CHR '' '')) wss) = join (CHR '' '') (concat wss)"
  proof (cases wss)
    case (Cons ws ws')
    have "ws' \<noteq> [] \<Longrightarrow> concat ws' \<noteq> []" using assms Cons by (cases ws') auto
    then show ?thesis
      using Cons assms clean_line[of ws] response_text_lines[of ws'] by (simp add: Let_def join_append)
  qed simp
  moreover have "\<forall>t \<in> set (concat wss). t \<noteq> [] \<and> CHR '' '' \<notin> set t"
    using assms clean_wordD unfolding clean_word_def by (metis UN_E set_concat)
  ultimately show ?thesis using SplitString_join by simp
qed

lemma hexw_clean: "n < 256 \<Longrightarrow> clean_word (hexw 2 n)"
  using hexw_chars[of n] hexw_two[of n] by (auto simp: clean_word_def)

lemma event_bytes_clean: "wire_event e \<Longrightarrow> t \<in> set (event_bytes e) \<Longrightarrow> clean_word t"
proof -
  have "unat (severity e) < 256" "unat (subjectType e) < 256"
    using unsigned_less[of "severity e"] unsigned_less[of "subjectType e"] by simp_all
  then show "wire_event e \<Longrightarrow> t \<in> set (event_bytes e) \<Longrightarrow> clean_word t"
    by (auto simp: event_bytes_def bytes_of_def wire_event_def hexw_clean)
qed

lemma page_bytes_clean:
  assumes "length evs < 256" and "\<forall>e \<in> set evs. wire_event e"
  shows "\<forall>t \<in> set (page_bytes tot evs). clean_word t"
proof -
  have "clean_word ''db''" "clean_word ''07''" "clean_word ''00''" by (simp_all add: clean_word_def is_space_def char_val_def)
  then show ?thesis using assms event_bytes_clean by (auto simp: page_bytes_def bytes_of_def hexw_clean)
qed

text \<open>Reporting a list of events, one after the other.\<close>

fun report_all ::
  "(json \<Rightarrow> string) \<Rightarrow> (u32 \<Rightarrow> tm option) \<Rightarrow> CBMCRasSentry \<Rightarrow> IPMIEvent list \<Rightarrow> world \<Rightarrow> ((cpp_exn + unit) \<times> world) option" where
  "report_all J lt s [] w = Some (Inr (), w)"
| "report_all J lt s (e # es) w = do {
     (r, w) \<leftarrow> ReportAlarm J lt s e w;
     case r of Inl x \<Rightarrow> Some (Inl x, w) | Inr _ \<Rightarrow> report_all J lt s es w }"

lemma process_page:
  assumes "\<forall>i < length evs. ParseSingleEvent hexBytes (7 + i * 15) = evs ! i" and "\<forall>e \<in> set evs. wire_event e"
  shows "k \<le> length evs \<Longrightarrow> process_loop_events J lt s hexBytes [k..<length evs] w = report_all J lt s (drop k evs) w"
proof (induction "length evs - k" arbitrary: k w)
  case 0
  then show ?case by simp
next
  case (Suc n)
  then have k: "k < length evs" by simp
  have "process_loop_events J lt s hexBytes [Suc k..<length evs] v = report_all J lt s (drop (Suc k) evs) v" for v
    using Suc k by auto
  moreover have "drop k evs = evs ! k # drop (Suc k) evs" using k by (simp add: Cons_nth_drop_Suc)
  moreover have "event_valid (evs ! k)" using assms(2) k by (simp add: wire_event_def)
  ultimately show ?case using k assms(1)
    by (simp add: upt_rec Let_def cong: sum.case_cong)
qed

text \<open>C10: A page of events means its events: from the lines in which ipmitool prints a page of up to 255
  events of the BMC, broken into lines in any way, the plugin reads the announced total and the
  count, finds the length it expects, and processing the page is reporting its events one by one,
  in their order and with all their fields.\<close>

theorem page_processed:
  assumes "length evs < 256" and "\<forall>e \<in> set evs. wire_event e"
    and "\<forall>ws \<in> set wss. ws \<noteq> []" and "concat wss = page_bytes tot evs"
    and "hexBytes = SplitString (response_text True (map (join (CHR '' '')) wss)) '' ''"
  shows "ParseResponseHeader hexBytes = \<lparr>totalEvents = tot, eventCount = of_nat (length evs), header_valid = True\<rparr> \<and>
    length hexBytes = RESP_HEADER_SIZE + length evs * EVENT_SIZE \<and>
    ProcessEvents J lt s hexBytes (of_nat (length evs)) w = report_all J lt s evs w"
proof -
  have "\<forall>ws \<in> set wss. ws \<noteq> [] \<and> (\<forall>t \<in> set ws. clean_word t)"
    using assms(3,4) page_bytes_clean[OF assms(1,2), of tot] by (metis UN_I set_concat)
  then have h: "hexBytes = page_bytes tot evs" using response_words assms(4,5) by metis
  have "\<forall>i < length evs. ParseSingleEvent hexBytes (7 + i * 15) = evs ! i"
    unfolding h using assms(2) by (auto intro!: event_read page_event_nth)
  from process_page[OF this assms(2), of 0] have "process_loop_events J lt s hexBytes [0..<length evs] w = report_all J lt s evs w"
    by simp
  moreover have "unat (of_nat (length evs) :: u8) = length evs" using assms(1) by (simp add: unat_of_nat)
  ultimately show ?thesis using page_header[OF assms(1), of tot] h by (simp add: ProcessEvents_def)
qed

definition demo_event :: IPMIEvent where
  "demo_event = \<lparr>alarmTypeCode = 0x02000039, timestamp = 0x6891ab2f, severity = 0, subjectType = 2, deviceId = 4, event_valid = True\<rparr>"

definition demo_words :: "string list list" where
  "demo_words = [[''db'', ''07'', ''00'', ''01'', ''00'', ''01'', ''00'', ''39'', ''00'', ''00'', ''02'', ''2f'', ''ab'', ''91'', ''68'', ''00''],
     [''02'', ''04'', ''00'', ''00'', ''00'', ''00'']]"


theorem page_processed_witness:
  "case ProcessEvents (\<lambda>_. []) (\<lambda>_. None) demo_sentry
      (SplitString (response_text True (map (join (CHR '' '')) demo_words)) '' '') 1 (boot []) of
     Some (r, v) \<Rightarrow> r = Inr () \<and> v = boot [] | None \<Rightarrow> False"
proof -
  have e: "\<forall>e \<in> set [demo_event]. wire_event e" by (simp add: demo_event_def wire_event_def)
  have c: "concat demo_words = page_bytes 1 [demo_event]" by code_simp
  have n: "\<forall>ws \<in> set demo_words. ws \<noteq> []" by (simp add: demo_words_def)
  have "report_all (\<lambda>_. []) (\<lambda>_. None) demo_sentry [demo_event] (boot []) = Some (Inr (), boot [])"
    by (simp add: ReportAlarm_def demo_sentry_def InitBMCEvents_def)
  with page_processed[OF _ e n c refl, of "\<lambda>_. []" "\<lambda>_. None" demo_sentry "boot []"] show ?thesis by simp
qed

section \<open>A complete query\<close>

lemma process_page_bytes:
  assumes "length evs < 256" and "\<forall>e \<in> set evs. wire_event e"
  shows "ProcessEvents J lt s (page_bytes tot evs) (of_nat (length evs)) w = report_all J lt s evs w"
proof -
  have "\<forall>i < length evs. ParseSingleEvent (page_bytes tot evs) (7 + i * 15) = evs ! i"
    using assms(2) by (auto intro!: event_read page_event_nth)
  from process_page[OF this assms(2), of 0] assms(1) show ?thesis by (simp add: ProcessEvents_def unat_of_nat)
qed

text \<open>
  A BMC that serves the events \<open>evs\<close> from index \<open>idx\<close> on: each request for an index is answered
  with a page of the announced total, and the alarms of the page go out without an exception.
\<close>

inductive served ::
  "(json \<Rightarrow> string) \<Rightarrow> (u32 \<Rightarrow> tm option) \<Rightarrow> CBMCRasSentry \<Rightarrow> u16 \<Rightarrow> u16 \<Rightarrow> IPMIEvent list \<Rightarrow> world \<Rightarrow> world \<Rightarrow> bool"
  for J :: "json \<Rightarrow> string" and lt :: "u32 \<Rightarrow> tm option" and s :: CBMCRasSentry and tot :: u16 where
  last_page: "ExecuteIPMICommand (BuildIPMICommand idx IPMI_REQUEST_ALL_TYPE IPMI_REQUEST_ALL_TYPE) w = Some (page_bytes tot evs, v) \<Longrightarrow>
    evs \<noteq> [] \<Longrightarrow> length evs < 256 \<Longrightarrow> \<forall>e \<in> set evs. wire_event e \<Longrightarrow> unat idx + length evs = unat tot \<Longrightarrow>
    report_all J lt s evs v = Some (Inr (), u) \<Longrightarrow> served J lt s tot idx evs w u"
| next_page: "ExecuteIPMICommand (BuildIPMICommand idx IPMI_REQUEST_ALL_TYPE IPMI_REQUEST_ALL_TYPE) w = Some (page_bytes tot evs, v) \<Longrightarrow>
    evs \<noteq> [] \<Longrightarrow> length evs < 256 \<Longrightarrow> \<forall>e \<in> set evs. wire_event e \<Longrightarrow> unat idx + length evs < unat tot \<Longrightarrow>
    report_all J lt s evs v = Some (Inr (), u) \<Longrightarrow> served J lt s tot (idx + of_nat (length evs)) rest u z \<Longrightarrow>
    served J lt s tot idx (evs @ rest) w z"

lemma index_add:
  assumes "n < 256" and "unat (i :: u16) + n \<le> unat (tot :: u16)"
  shows "unat (i + ucast (of_nat n :: u8)) = unat i + n" and "ucast (of_nat n :: u8) = (of_nat n :: u16)"
proof -
  have "unat tot < 65536" using unsigned_less[of tot] by simp
  moreover have u: "unat (ucast (of_nat n :: u8) :: u16) = n"
    unfolding unat_ucast_8_16 using assms(1) by (simp add: unat_of_nat)
  ultimately show "unat (i + ucast (of_nat n :: u8)) = unat i + n"
    using assms(2) unat_add_lem[of i "ucast (of_nat n :: u8)"] by simp
  have "unat (of_nat n :: u16) = n" using assms(1) by (simp add: unat_of_nat)
  with u show "ucast (of_nat n :: u8) = (of_nat n :: u16)" by (simp add: word_unat_eq_iff)
qed

lemma query_page:
  assumes "ExecuteIPMICommand (BuildIPMICommand i IPMI_REQUEST_ALL_TYPE IPMI_REQUEST_ALL_TYPE) w = Some (page_bytes tot evs, v)"
    and "evs \<noteq> []" "length evs < 256" "\<forall>e \<in> set evs. wire_event e" "unat i + length evs \<le> unat tot"
    and "report_all J lt s evs v = Some (Inr (), u)"
  shows "query_loop J lt s i w =
    (if unat i + length evs = unat tot then Some (Inr BMCPLU_SUCCESS, u) else query_loop J lt s (i + of_nat (length evs)) u)"
proof -
  note h = page_header[OF assms(3), of tot] and a = index_add[OF assms(3,5)]
  have n: "unat (of_nat (length evs) :: u8) = length evs" using assms(3) by (simp add: unat_of_nat)
  then have z: "(of_nat (length evs) :: u8) \<noteq> 0" using assms(2) by (metis length_0_conv unat_0)
  have t: "unat tot < 65536" using unsigned_less[of tot] by simp
  have p: "page_bytes tot evs \<noteq> []" by (simp add: page_bytes_def)
  have l: "i + ucast (of_nat (length evs) :: u8) = tot \<longleftrightarrow> unat i + length evs = unat tot"
    using a(1) by (simp add: word_unat_eq_iff)
  have g: "\<not> tot < i + ucast (of_nat (length evs) :: u8)" using a(1) assms(5) by (simp add: word_less_nat_alt)
  show ?thesis unfolding query_loop.simps[of J lt s i w] assms(1)
    using h n z p l g t assms(5,6) process_page_bytes[OF assms(3,4), of J lt s tot v] a(2)
    by (auto simp: Let_def)
qed

text \<open>C6: A query is complete: when the BMC serves a list of events in pages of up to 255, the query ends with
  success, has asked for each page at the index where the one before it ended, and has reported
  every event exactly once and in order; the number of events is the announced total.\<close>

theorem query_complete:
  assumes "served J lt s tot 0 evs w z"
  shows "QueryEvents J lt s w = Some (Inr BMCPLU_SUCCESS, z) \<and> length evs = unat tot"
proof -
  have "query_loop J lt s i w = Some (Inr BMCPLU_SUCCESS, z) \<and> unat i + length evs = unat tot"
    if "served J lt s tot i evs w z" for i
    using that
  proof (induction rule: served.induct)
    case (last_page i w evs v u)
    then show ?case using query_page[of i w tot evs v J lt s u] by simp
  next
    case (next_page i w evs v u rest z)
    have "unat (i + of_nat (length evs)) = unat i + length evs"
      using index_add[of "length evs" i tot] next_page.hyps by simp
    then show ?case using query_page[of i w tot evs v J lt s u] next_page by simp
  qed
  from this[OF assms] show ?thesis by (simp add: QueryEvents_def)
qed

text \<open>What popen, the lines of ipmitool and the exit status deliver for a page.\<close>

definition page_script :: "string list list \<Rightarrow> answer list" where
  "page_script wss = ans 5 [] # map (\<lambda>ws. ans 0 ('' '' @ join (CHR '' '') ws @ ''\<newline>'')) wss @ [fails 0, ans 0 []]"

theorem query_complete_witness:
  "map_option fst (QueryEvents (\<lambda>_. []) (\<lambda>_. None) demo_sentry (boot (page_script demo_words))) = Some (Inr BMCPLU_SUCCESS)"
proof -
  let ?x = "ExecuteIPMICommand (BuildIPMICommand 0 IPMI_REQUEST_ALL_TYPE IPMI_REQUEST_ALL_TYPE) (boot (page_script demo_words))"
  have "map_option fst ?x = Some (page_bytes 1 [demo_event])" by code_simp
  then obtain v where x: "?x = Some (page_bytes 1 [demo_event], v)" by auto
  have "report_all (\<lambda>_. []) (\<lambda>_. None) demo_sentry [demo_event] v = Some (Inr (), v)"
    by (simp add: ReportAlarm_def demo_sentry_def InitBMCEvents_def)
  then have "served (\<lambda>_. []) (\<lambda>_. None) demo_sentry 1 0 [demo_event] (boot (page_script demo_words)) v"
    using x by (intro last_page) (simp_all add: demo_event_def wire_event_def)
  from query_complete[OF this] show ?thesis by simp
qed

section \<open>Serial numbers that are not hexadecimal\<close>

lemma stoul_throws: "\<not> is_space a \<Longrightarrow> a \<notin> {CHR ''-'', CHR ''+''} \<Longrightarrow> hex_digit_val a = None \<Longrightarrow>
   HexAsciiToChar [a, b] = Inl Invalid_argument"
  by (auto simp: HexAsciiToChar_def strtoul16_def Let_def)

lemma bad_serial_throws:
  assumes "ExecuteIPMICommand (BuildHardwareSNIPMICommand e 0) w = Some (h0 # h1 # h2 # h3 # [a, b] # hs, v)"
    and "\<not> is_space a" "a \<notin> {CHR ''-'', CHR ''+''}" "hex_digit_val a = None"
  shows "GetHardwareSNByIPMI e w = Some (Inl Invalid_argument, v)"
  unfolding GetHardwareSNByIPMI_def by (subst sn_loop.simps) (simp add: assms(1) stoul_throws[OF assms(2-)])

end
