(* ===== verification/BmcDisks.thy ===== *)
theory BmcDisks
  imports BmcIpmi
begin

text \<open>
  \<open>bmc_ras_sentry/src/cbmcrassentry.cpp\<close>, the discovery of disks: which block devices belong to
  the serial number of a disk or a RAID controller, from the output of lsblk, storcli64 and
  hiraidadm. A step that meets a malformed output skips the item. \<open>back ()\<close> of an empty vector
  is undefined in C++; it is the left value \<open>Back_of_empty\<close>. A JSON value of a type the code
  never asks for counts as \<open>JNull\<close>. \<open>GetHiraidadmCtrlSN\<close> reads the serial number from memory it has
  just released: \<open>freed\<close> says what a released text still holds.
\<close>

record PhysicalDiskAddress =
  encId :: string
  slotId :: string

definition SetDiskSNToBlockName :: "string \<Rightarrow> string list \<Rightarrow> DiskSNToBlockName \<Rightarrow> DiskSNToBlockName" where
  "SetDiskSNToBlockName VDName diskSNs m = foldl (\<lambda>m diskSN. case map_of m diskSN of
      None \<Rightarrow> std_set diskSN [VDName] m
    | Some names \<Rightarrow> std_set diskSN (insort_insert VDName names) m) m diskSNs"

section \<open>Disks without a controller\<close>

text \<open>The first line is the head; a line with fewer than two words is skipped.\<close>

fun lsblk_lines :: "string list \<Rightarrow> bool \<Rightarrow> DiskSNToBlockName \<Rightarrow> DiskSNToBlockName" where
  "lsblk_lines [] is_header m = m"
| "lsblk_lines (line # lines) is_header m =
     (if line = [] \<or> is_header then lsblk_lines lines False m
      else let pairResult = SplitBySpace line in
        if length pairResult < 2 then lsblk_lines lines is_header m
        else if pairResult ! 1 = [] then lsblk_lines lines is_header m
        else lsblk_lines lines is_header (SetDiskSNToBlockName (pairResult ! 0) [pairResult ! 1] m))"

definition GetDiskPassthroughInfo :: "CBMCRasSentry \<Rightarrow> world \<Rightarrow> (CBMCRasSentry \<times> world) option" where
  "GetDiskPassthroughInfo s w = do {
     (ret, result, w) \<leftarrow> ExecCommand ''lsblk -o NAME,SERIAL'' w;
     if ret \<noteq> BMCPLU_SUCCESS then Some (s, w)
     else Some (s\<lparr>m_diskSNToBlockNames := m_diskSNToBlockNames s @ [lsblk_lines result True []]\<rparr>, w) }"

section \<open>storcli64\<close>

text \<open>The part of a device path after the last slash, as \<open>SplitString (path, "/").back ()\<close>.\<close>

definition last_part :: "string \<Rightarrow> cpp_exn + string" where
  "last_part path = (case SplitString path ''/'' of [] \<Rightarrow> Inl Back_of_empty | p # ps \<Rightarrow> Inr (last (p # ps)))"

fun enc_slots :: "nat \<Rightarrow> string list list \<Rightarrow> PhysicalDiskAddress list" where
  "enc_slots n [] = []"
| "enc_slots n (line # lines) =
     (if length line \<le> n then enc_slots n lines
      else case SplitString (line ! n) '':'' of
          a # b # _ \<Rightarrow> \<lparr>encId = a, slotId = b\<rparr> # enc_slots n lines
        | _ \<Rightarrow> enc_slots n lines)"

definition GetStorcliVDInfo ::
  "string \<Rightarrow> string \<Rightarrow> world \<Rightarrow> ((cpp_exn + string \<times> PhysicalDiskAddress list) \<times> world) option" where
  "GetStorcliVDInfo ctrlId VDId w = do {
     (VDInfo, w) \<leftarrow> ParseStorcliCmd (''storcli64 /c'' @ cstr ctrlId @ ''/v'' @ cstr VDId @ '' show all'') w;
     case map_of VDInfo (''PDs for VD '' @ cstr VDId @ '' :'') of
       None \<Rightarrow> Some (Inr ([], []), w)
     | Some PDList \<Rightarrow> (case map_of VDInfo (''VD'' @ cstr VDId @ '' Properties :'') of
         None \<Rightarrow> Some (Inr ([], []), w)
       | Some VDDetail \<Rightarrow> (case map_of (ParseStorcliKeyToValue VDDetail) ''OS Drive Name'' of
           None \<Rightarrow> Some (Inr ([], []), w)
         | Some drive \<Rightarrow> (case last_part drive of
             Inl e \<Rightarrow> Some (Inl e, w)
           | Inr VDName \<Rightarrow> do {
               (PDMapHead, PDMapInfo) \<leftarrow> ParseCmdMap PDList;
               case map_of PDMapHead ''EID:Slt'' of
                 None \<Rightarrow> Some (Inr ([], []), w)
               | Some EncslotNum \<Rightarrow> Some (Inr (VDName, enc_slots EncslotNum PDMapInfo), w) }))) }"

fun GetStorcliPDSN :: "PhysicalDiskAddress list \<Rightarrow> string \<Rightarrow> world \<Rightarrow> (string list \<times> world) option" where
  "GetStorcliPDSN [] ctrlId w = Some ([], w)"
| "GetStorcliPDSN (a # as) ctrlId w = do {
     (PDInfo, w) \<leftarrow> ParseStorcliCmd
       (''storcli64 /c'' @ cstr ctrlId @ ''/e'' @ cstr (encId a) @ ''/s'' @ cstr (slotId a) @ '' show all'') w;
     let sn = (case map_of PDInfo
         (''Drive /c'' @ cstr ctrlId @ ''/e'' @ cstr (encId a) @ ''/s'' @ cstr (slotId a) @ '' Device attributes :'') of
           None \<Rightarrow> None
         | Some attributes \<Rightarrow> map_of (ParseStorcliKeyToValue attributes) ''SN'');
     (PDSNs, w) \<leftarrow> GetStorcliPDSN as ctrlId w;
     Some (case sn of None \<Rightarrow> PDSNs | Some v \<Rightarrow> v # PDSNs, w) }"

definition GetStorcliCtrlSN :: "string \<Rightarrow> world \<Rightarrow> (string \<times> world) option" where
  "GetStorcliCtrlSN ctrlId w = do {
     (ctrlDetails, w) \<leftarrow> ParseStorcliCmd (''storcli64 /c'' @ cstr ctrlId @ '' show'') w;
     Some (case map_of ctrlDetails ''head message'' of
         None \<Rightarrow> []
       | Some headMessage \<Rightarrow> (case map_of (ParseStorcliKeyToValue headMessage) ''Serial Number'' of
           None \<Rightarrow> [] | Some sn \<Rightarrow> sn), w) }"

text \<open>The virtual drives of every controller, from the column \<open>DG/VD\<close>.\<close>

fun ctrl_drives :: "nat \<Rightarrow> string list list \<Rightarrow> (string, string list) stdmap \<Rightarrow> (string, string list) stdmap" where
  "ctrl_drives n [] m = m"
| "ctrl_drives n (line # lines) m =
     (if length line \<le> n then ctrl_drives n lines m
      else case SplitString (line ! n) ''/'' of
          c # v # _ \<Rightarrow> ctrl_drives n lines (std_set c (case map_of m c of
              None \<Rightarrow> [v] | Some vs \<Rightarrow> insort_insert v vs) m)
        | _ \<Rightarrow> ctrl_drives n lines m)"

fun storcli_drives ::
  "string \<Rightarrow> string list \<Rightarrow> DiskSNToBlockName \<Rightarrow> world \<Rightarrow> ((cpp_exn + DiskSNToBlockName) \<times> world) option" where
  "storcli_drives ctrlId [] m w = Some (Inr m, w)"
| "storcli_drives ctrlId (VDId # VDIds) m w = do {
     (r, w) \<leftarrow> GetStorcliVDInfo ctrlId VDId w;
     case r of
       Inl e \<Rightarrow> Some (Inl e, w)
     | Inr (VDName, addresses) \<Rightarrow> do {
         (PDSNs, w) \<leftarrow> GetStorcliPDSN addresses ctrlId w;
         storcli_drives ctrlId VDIds (SetDiskSNToBlockName VDName PDSNs m) w } }"

fun storcli_ctrls ::
  "(string \<times> string list) list \<Rightarrow> CBMCRasSentry \<Rightarrow> world \<Rightarrow> ((cpp_exn + CBMCRasSentry) \<times> world) option" where
  "storcli_ctrls [] s w = Some (Inr s, w)"
| "storcli_ctrls ((ctrlId, VDIdList) # ctrls) s w = do {
     (ctrlSN, w) \<leftarrow> GetStorcliCtrlSN ctrlId w;
     (r, w) \<leftarrow> storcli_drives ctrlId VDIdList [] w;
     case r of
       Inl e \<Rightarrow> Some (Inl e, w)
     | Inr m \<Rightarrow>
         storcli_ctrls ctrls
           (s\<lparr>m_diskSNToBlockNames := m_diskSNToBlockNames s @ [m],
              m_raidSNtoBlockNames := std_emplace ctrlSN m (m_raidSNtoBlockNames s)\<rparr>) w }"

definition GetStorcliRaidInfo :: "CBMCRasSentry \<Rightarrow> world \<Rightarrow> ((cpp_exn + CBMCRasSentry) \<times> world) option" where
  "GetStorcliRaidInfo s w = do {
     (raidCtrlInfo, w) \<leftarrow> ParseStorcliCmd ''storcli64 /call show'' w;
     if raidCtrlInfo = [] then Some (Inr s, w)
     else case map_of raidCtrlInfo ''VD LIST :'' of
         None \<Rightarrow> Some (Inr s, w)
       | Some VDList \<Rightarrow> do {
           (VDListMapHead, VDListMapInfo) \<leftarrow> ParseCmdMap VDList;
           case map_of VDListMapHead ''DG/VD'' of
             None \<Rightarrow> Some (Inr s, w)
           | Some ctrlVDNum \<Rightarrow> storcli_ctrls (ctrl_drives ctrlVDNum VDListMapInfo []) s w } }"

section \<open>hiraidadm\<close>

text \<open>\<open>json_object_get_int\<close> of a 64-bit number is the nearest \<open>int\<close>.\<close>

definition json_object_get_int :: "int \<Rightarrow> int" where
  "json_object_get_int i = max (- (2 ^ 31)) (min (2 ^ 31 - 1) i)"

fun enc_slot_columns :: "nat \<Rightarrow> nat \<Rightarrow> string list list \<Rightarrow> PhysicalDiskAddress list" where
  "enc_slot_columns encNum slotNum [] = []"
| "enc_slot_columns encNum slotNum (line # lines) =
     (if length line \<le> encNum \<or> length line \<le> slotNum then enc_slot_columns encNum slotNum lines
      else \<lparr>encId = line ! encNum, slotId = line ! slotNum\<rparr> # enc_slot_columns encNum slotNum lines)"

definition GetHiraidadmVdDetailInfo ::
  "(string \<Rightarrow> json option) \<Rightarrow> int \<Rightarrow> int \<Rightarrow> world
     \<Rightarrow> ((cpp_exn + string \<times> PhysicalDiskAddress list) \<times> world) option" where
  "GetHiraidadmVdDetailInfo JP ctrlId VDId w = do {
     (VDInfoData, w) \<leftarrow> ParseHiraidadmCmd JP (''hiraidadm c'' @ dec_int ctrlId @ '':vd'' @ dec_int VDId @ '' show j'') w;
     case json_object_object_get (json_object_object_get VDInfoData ''VirtualDriveInformation'') ''OSDriveLetter'' of
       JString drive \<Rightarrow> (case last_part (cstr drive) of
           Inl e \<Rightarrow> Some (Inl e, w)
         | Inr VDName \<Rightarrow> do {
             (ret, PDListInfo, w) \<leftarrow> ExecCommand (''hiraidadm c'' @ dec_int ctrlId @ '':vd'' @ dec_int VDId @ '' show pdarray'') w;
             if ret \<noteq> BMCPLU_SUCCESS then Some (Inr ([], []), w)
             else do {
               (PDListMapHead, PDListMapInfo) \<leftarrow> ParseCmdMap PDListInfo;
               case map_of PDListMapHead ''Enc'' of
                 None \<Rightarrow> Some (Inr ([], []), w)
               | Some encNum \<Rightarrow> (case map_of PDListMapHead ''Slot'' of
                   None \<Rightarrow> Some (Inr ([], []), w)
                 | Some slotNum \<Rightarrow> Some (Inr (VDName, enc_slot_columns encNum slotNum PDListMapInfo), w)) } })
     | _ \<Rightarrow> Some (Inr ([], []), w) }"

text \<open>The virtual drives of a controller; a drive without a name is left out.\<close>

fun hiraidadm_drives ::
  "(string \<Rightarrow> json option) \<Rightarrow> int \<Rightarrow> json list \<Rightarrow> (string, PhysicalDiskAddress list) stdmap \<Rightarrow> world
     \<Rightarrow> ((cpp_exn + (string, PhysicalDiskAddress list) stdmap) \<times> world) option" where
  "hiraidadm_drives JP ctrlId [] m w = Some (Inr m, w)"
| "hiraidadm_drives JP ctrlId (VDInfoObj # objs) m w = (case json_object_object_get VDInfoObj ''VDID'' of
       JInt i \<Rightarrow> do {
         (r, w) \<leftarrow> GetHiraidadmVdDetailInfo JP ctrlId (json_object_get_int i) w;
         case r of
           Inl e \<Rightarrow> Some (Inl e, w)
         | Inr (VDName, addresses) \<Rightarrow>
             hiraidadm_drives JP ctrlId objs (if VDName = [] then m else std_set VDName addresses m) w }
     | _ \<Rightarrow> hiraidadm_drives JP ctrlId objs m w)"

definition GetHiraidadmVDInfo ::
  "(string \<Rightarrow> json option) \<Rightarrow> int \<Rightarrow> world
     \<Rightarrow> ((cpp_exn + (string, PhysicalDiskAddress list) stdmap) \<times> world) option" where
  "GetHiraidadmVDInfo JP ctrlId w = do {
     (dataObj, w) \<leftarrow> ParseHiraidadmCmd JP (''hiraidadm c'' @ dec_int ctrlId @ '' show vdlist j'') w;
     case json_object_object_get dataObj ''VirtualDrives'' of
       JArray objs \<Rightarrow> hiraidadm_drives JP ctrlId objs [] w
     | _ \<Rightarrow> Some (Inr [], w) }"

fun GetHiraidadmDiskSN ::
  "(string \<Rightarrow> json option) \<Rightarrow> int \<Rightarrow> PhysicalDiskAddress list \<Rightarrow> world \<Rightarrow> (string list \<times> world) option" where
  "GetHiraidadmDiskSN JP ctrlId [] w = Some ([], w)"
| "GetHiraidadmDiskSN JP ctrlId (a # as) w = do {
     (dataObj, w) \<leftarrow> ParseHiraidadmCmd JP
       (''hiraidadm c'' @ dec_int ctrlId @ '':e'' @ cstr (encId a) @ '':s'' @ cstr (slotId a) @ '' show j'') w;
     (PDSNs, w) \<leftarrow> GetHiraidadmDiskSN JP ctrlId as w;
     Some (case json_object_object_get (json_object_object_get dataObj ''DriveDetailInformation'') ''SerialNumber'' of
         JString sn \<Rightarrow> cstr sn # PDSNs
       | _ \<Rightarrow> PDSNs, w) }"

definition GetHiraidadmCtrlSN ::
  "(string \<Rightarrow> string) \<Rightarrow> (string \<Rightarrow> json option) \<Rightarrow> int \<Rightarrow> world \<Rightarrow> (string \<times> world) option" where
  "GetHiraidadmCtrlSN freed JP ctrlId w = do {
     (dataObj, w) \<leftarrow> ParseHiraidadmCmd JP (''hiraidadm c'' @ dec_int ctrlId @ '' show status j'') w;
     Some (case json_object_object_get dataObj ''BoardSN'' of
         JString sn \<Rightarrow> freed (cstr sn)
       | _ \<Rightarrow> (case json_object_object_get dataObj ''Board SN'' of JString sn \<Rightarrow> freed (cstr sn) | _ \<Rightarrow> []), w) }"

fun hiraidadm_names ::
  "(string \<Rightarrow> json option) \<Rightarrow> int \<Rightarrow> (string \<times> PhysicalDiskAddress list) list \<Rightarrow> DiskSNToBlockName \<Rightarrow> world
     \<Rightarrow> (DiskSNToBlockName \<times> world) option" where
  "hiraidadm_names JP ctrlId [] m w = Some (m, w)"
| "hiraidadm_names JP ctrlId ((VDName, addresses) # vds) m w = do {
     (diskSNs, w) \<leftarrow> GetHiraidadmDiskSN JP ctrlId addresses w;
     hiraidadm_names JP ctrlId vds (SetDiskSNToBlockName VDName diskSNs m) w }"

fun hiraidadm_ctrls ::
  "(string \<Rightarrow> string) \<Rightarrow> (string \<Rightarrow> json option) \<Rightarrow> json list \<Rightarrow> CBMCRasSentry \<Rightarrow> world \<Rightarrow> ((cpp_exn + CBMCRasSentry) \<times> world) option" where
  "hiraidadm_ctrls freed JP [] s w = Some (Inr s, w)"
| "hiraidadm_ctrls freed JP (ctrlInfoObj # objs) s w = (case json_object_object_get ctrlInfoObj ''ControllerId'' of
       JInt i \<Rightarrow> do {
         let ctrlId = json_object_get_int i;
         (ctrlSN, w) \<leftarrow> GetHiraidadmCtrlSN freed JP ctrlId w;
         if ctrlSN = [] then hiraidadm_ctrls freed JP objs s w
         else do {
           (r, w) \<leftarrow> GetHiraidadmVDInfo JP ctrlId w;
           case r of
             Inl e \<Rightarrow> Some (Inl e, w)
           | Inr VDInfos \<Rightarrow>
               if VDInfos = [] then hiraidadm_ctrls freed JP objs s w
               else do {
                 (m, w) \<leftarrow> hiraidadm_names JP ctrlId VDInfos [] w;
                 hiraidadm_ctrls freed JP objs
                   (s\<lparr>m_diskSNToBlockNames := m_diskSNToBlockNames s @ [m],
                      m_raidSNtoBlockNames := std_emplace ctrlSN m (m_raidSNtoBlockNames s)\<rparr>) w } } }
     | _ \<Rightarrow> hiraidadm_ctrls freed JP objs s w)"

definition GetHiraidadmRaidInfo ::
  "(string \<Rightarrow> string) \<Rightarrow> (string \<Rightarrow> json option) \<Rightarrow> CBMCRasSentry \<Rightarrow> world \<Rightarrow> ((cpp_exn + CBMCRasSentry) \<times> world) option" where
  "GetHiraidadmRaidInfo freed JP s w = do {
     (dataObj, w) \<leftarrow> ParseHiraidadmCmd JP ''hiraidadm show allctrl j'' w;
     case json_object_object_get dataObj ''Controllers'' of
       JArray objs \<Rightarrow> hiraidadm_ctrls freed JP objs s w
     | _ \<Rightarrow> Some (Inr s, w) }"

section \<open>The constructor\<close>

abbreviation BMCPLU_DEFAULT_ALARM_ID :: int where "BMCPLU_DEFAULT_ALARM_ID \<equiv> 1015"
abbreviation BMCPLU_PATROL_DEFAULT :: int where "BMCPLU_PATROL_DEFAULT \<equiv> 60"

text \<open>The member \<open>m_alarmId\<close> has no initialiser: \<open>junk\<close> is what it holds before it is set.\<close>

definition new_sentry :: "int \<Rightarrow> CBMCRasSentry" where
  "new_sentry junk = \<lparr>m_running = False, m_bmcIp = [], m_diskSNToBlockNames = [], m_raidSNtoBlockNames = [],
     m_BMCOpenEvents = [], m_BMCEvents = [], m_BMCBlockIoChange = [(0, False), (1, False)],
     m_patrolSeconds = BMCPLU_PATROL_DEFAULT, m_alarmId = junk\<rparr>"

definition configured_alarm_id :: "mod_config \<Rightarrow> int \<Rightarrow> int" where
  "configured_alarm_id modConfig junk = (case map_of modConfig ''common'' of
      None \<Rightarrow> junk
    | Some section \<Rightarrow> (case map_of section ''alarm_id'' of
        None \<Rightarrow> junk
      | Some value \<Rightarrow> (case IsValidNumber value of
          None \<Rightarrow> BMCPLU_DEFAULT_ALARM_ID
        | Some n \<Rightarrow> if 0 < n then n else BMCPLU_DEFAULT_ALARM_ID)))"

definition construct_sentry ::
  "(string \<Rightarrow> string) \<Rightarrow> (string \<Rightarrow> json option) \<Rightarrow> int \<Rightarrow> world \<Rightarrow> ((cpp_exn + CBMCRasSentry) \<times> world) option" where
  "construct_sentry freed JP junk w = do {
     (modConfig, w) \<leftarrow> parseModConfig ''/etc/sysSentry/tasks/bmc_ras_sentry.mod'' w;
     let s = (new_sentry junk)\<lparr>m_alarmId := configured_alarm_id modConfig junk\<rparr>;
     (s, w) \<leftarrow> GetDiskPassthroughInfo s w;
     (r, w) \<leftarrow> GetStorcliRaidInfo s w;
     case r of
       Inl e \<Rightarrow> Some (Inl e, w)
     | Inr s \<Rightarrow> do {
         (r, w) \<leftarrow> GetHiraidadmRaidInfo freed JP s w;
         case r of
           Inl e \<Rightarrow> Some (Inl e, w)
         | Inr s \<Rightarrow> Some (Inr (InitBMCEvents s), w) } }"

section \<open>The table of disks\<close>

text \<open>The set of block devices of a serial number, and what adding a drive does to it.\<close>

definition names_of :: "DiskSNToBlockName \<Rightarrow> string \<Rightarrow> string set" where
  "names_of m sn = (case map_of m sn of None \<Rightarrow> {} | Some ns \<Rightarrow> set ns)"

definition disk_table_ok :: "DiskSNToBlockName \<Rightarrow> bool" where
  "disk_table_ok m \<longleftrightarrow> std_ok m \<and> (\<forall>sn ns. map_of m sn = Some ns \<longrightarrow> sorted_wrt (<) ns \<and> ns \<noteq> [])"

lemma insort_insert_strict: "sorted_wrt (<) (ns :: string list) \<Longrightarrow> sorted_wrt (<) (insort_insert n ns)"
  unfolding strict_sorted_iff by (simp add: sorted_insort_insert distinct_insort_insert)

lemma SetDiskSN_step:
  assumes "disk_table_ok m"
    and "m' = (case map_of m sn of None \<Rightarrow> std_set sn [VD] m | Some names \<Rightarrow> std_set sn (insort_insert VD names) m)"
  shows "disk_table_ok m' \<and> names_of m' k = names_of m k \<union> (if k = sn then {VD} else {})"
proof (cases "map_of m sn")
  case None
  with assms show ?thesis by (auto simp: disk_table_ok_def names_of_def map_of_std_set)
next
  case (Some ns)
  with assms have "sorted_wrt (<) (insort_insert VD ns)" "insort_insert VD ns \<noteq> []"
    using insort_insert_strict[of ns VD] insort_insert_set[of VD ns] by (auto simp: disk_table_ok_def)
  with Some assms show ?thesis
    by (auto simp: disk_table_ok_def names_of_def map_of_std_set insort_insert_set)
qed

lemma SetDiskSN_names:
  "disk_table_ok m \<Longrightarrow> disk_table_ok (SetDiskSNToBlockName VD sns m) \<and>
     names_of (SetDiskSNToBlockName VD sns m) k = names_of m k \<union> (if k \<in> set sns then {VD} else {})"
proof (induction sns arbitrary: m)
  case (Cons sn sns)
  note s = SetDiskSN_step[OF Cons.prems refl, of sn VD k]
  from Cons.IH[OF conjunct1[OF s]] s show ?case by (auto simp: SetDiskSNToBlockName_def)
qed (simp add: SetDiskSNToBlockName_def)

text \<open>The table of the disks without a controller has a pair for every line with two words.\<close>

lemma lsblk_lines_names:
  "disk_table_ok m \<Longrightarrow> disk_table_ok (lsblk_lines ls False m) \<and>
     names_of (lsblk_lines ls False m) sn =
       names_of m sn \<union> {name. \<exists>line \<in> set ls. \<exists>rest. SplitBySpace line = name # sn # rest}"
proof (induction ls arbitrary: m)
  case (Cons line ls)
  note ne = SplitBySpace_ne[of line]
  show ?case
  proof (cases "SplitBySpace line")
    case Nil
    with Cons show ?thesis by simp
  next
    case (Cons name ws)
    note c = this
    show ?thesis
    proof (cases ws)
      case Nil
      with Cons.IH[OF Cons.prems] c show ?thesis by simp
    next
      case (Cons serial rest)
      have s: "line \<noteq> []" "serial \<noteq> []" using ne unfolding c Cons by auto
      note t = SetDiskSN_names[OF Cons.prems, of name "[serial]"]
      from Cons.IH[OF conjunct1[OF t]] t[of sn] s c Cons show ?thesis by (auto simp: numeral_2_eq_2)
    qed
  qed
qed simp

section \<open>Contracts\<close>

lemma returns_json [ret_intros]:
  "(j = JNull \<Longrightarrow> returns a P) \<Longrightarrow> (\<And>s. j = JString s \<Longrightarrow> returns (b s) P) \<Longrightarrow> (\<And>i. j = JInt i \<Longrightarrow> returns (c i) P) \<Longrightarrow>
   (\<And>l. j = JArray l \<Longrightarrow> returns (d l) P) \<Longrightarrow> (\<And>l. j = JObject l \<Longrightarrow> returns (e l) P) \<Longrightarrow> returns (case_json a b c d e j) P"
  by (cases j) auto

lemma ParseCmdMap_returns [ret_intros]: "(\<And>h l. P (h, l)) \<Longrightarrow> returns (ParseCmdMap ls) P"
  by (rule returnsI) auto

lemmas disk_intros = ParseStorcliCmd_returns[OF refl order_refl, THEN returns_mono, unfolded split_paired_all split_conv]
  ParseHiraidadmCmd_returns[OF refl order_refl, THEN returns_mono, unfolded split_paired_all split_conv]

lemma GetDiskPassthroughInfo_returns:
  "balance w = b \<Longrightarrow> returns (GetDiskPassthroughInfo s w)
     (\<lambda>(s', v). balance v = b \<and> s' = s\<lparr>m_diskSNToBlockNames := m_diskSNToBlockNames s'\<rparr>)"
  unfolding GetDiskPassthroughInfo_def by (intro exec_intros ret_intros) auto

lemma GetStorcliVDInfo_returns: "balance w = b \<Longrightarrow> returns (GetStorcliVDInfo c d w) (\<lambda>(r, v). balance v = b)"
  unfolding GetStorcliVDInfo_def by (intro disk_intros ret_intros) auto

lemma GetStorcliPDSN_returns: "balance w = b \<Longrightarrow> returns (GetStorcliPDSN as c w) (\<lambda>(r, v). balance v = b)"
proof (induction as arbitrary: w)
  case (Cons a as)
  show ?case unfolding GetStorcliPDSN.simps
    by (intro disk_intros Cons.IH[THEN returns_mono, unfolded split_paired_all split_conv] ret_intros) (use Cons.prems in auto)
qed (simp add: returns_Some)

lemma GetStorcliCtrlSN_returns: "balance w = b \<Longrightarrow> returns (GetStorcliCtrlSN c w) (\<lambda>(r, v). balance v = b)"
  unfolding GetStorcliCtrlSN_def by (intro disk_intros ret_intros) auto

lemmas storcli_intros = GetStorcliVDInfo_returns[OF refl, THEN returns_mono, unfolded split_paired_all split_conv]
  GetStorcliPDSN_returns[OF refl, THEN returns_mono, unfolded split_paired_all split_conv]
  GetStorcliCtrlSN_returns[OF refl, THEN returns_mono, unfolded split_paired_all split_conv]

definition table_result :: "DiskSNToBlockName \<Rightarrow> cpp_exn + DiskSNToBlockName \<Rightarrow> bool" where
  "table_result m r \<longleftrightarrow> (case r of Inl _ \<Rightarrow> True | Inr m' \<Rightarrow> disk_table_ok m \<longrightarrow> disk_table_ok m')"

lemma table_result_simps [simp]: "table_result m (Inl e)" "table_result m (Inr m)"
  by (simp_all add: table_result_def)

lemma table_result_set: "table_result (SetDiskSNToBlockName VD sns m) r \<Longrightarrow> table_result m r"
  using SetDiskSN_names[of m VD sns] by (auto simp: table_result_def split: sum.splits)

lemma storcli_drives_returns:
  "balance w = b \<Longrightarrow> returns (storcli_drives c vs m w) (\<lambda>(r, v). balance v = b \<and> table_result m r)"
proof (induction vs arbitrary: m w)
  case (Cons v vs)
  show ?case unfolding storcli_drives.simps
    by (intro storcli_intros Cons.IH[THEN returns_mono, unfolded split_paired_all split_conv] ret_intros)
       (use Cons.prems table_result_set in auto)
qed (simp add: returns_Some)

text \<open>What the discovery leaves alone.\<close>

definition same_but_disks :: "CBMCRasSentry \<Rightarrow> CBMCRasSentry \<Rightarrow> bool" where
  "same_but_disks s s' \<longleftrightarrow>
     s' = s\<lparr>m_diskSNToBlockNames := m_diskSNToBlockNames s', m_raidSNtoBlockNames := m_raidSNtoBlockNames s'\<rparr>"

lemma same_but_disks_trans: "same_but_disks r s \<Longrightarrow> same_but_disks s t \<Longrightarrow> same_but_disks r t"
  by (cases r, cases s, cases t) (simp add: same_but_disks_def)

lemma same_but_disks_add: "same_but_disks (s\<lparr>m_diskSNToBlockNames := d, m_raidSNtoBlockNames := r\<rparr>) t \<Longrightarrow> same_but_disks s t"
  by (cases s, cases t) (simp add: same_but_disks_def)

text \<open>Every table is in order, and the table of a controller is one of them.\<close>

definition tables_ok :: "CBMCRasSentry \<Rightarrow> bool" where
  "tables_ok s \<longleftrightarrow> (\<forall>m \<in> set (m_diskSNToBlockNames s). disk_table_ok m) \<and> std_ok (m_raidSNtoBlockNames s) \<and>
     (\<forall>sn m. map_of (m_raidSNtoBlockNames s) sn = Some m \<longrightarrow> m \<in> set (m_diskSNToBlockNames s))"

definition disks_result :: "CBMCRasSentry \<Rightarrow> cpp_exn + CBMCRasSentry \<Rightarrow> bool" where
  "disks_result s r \<longleftrightarrow> (case r of Inl _ \<Rightarrow> True | Inr s' \<Rightarrow> same_but_disks s s' \<and> (tables_ok s \<longrightarrow> tables_ok s'))"

lemma tables_ok_add:
  "tables_ok s \<Longrightarrow> disk_table_ok m \<Longrightarrow>
   tables_ok (s\<lparr>m_diskSNToBlockNames := m_diskSNToBlockNames s @ [m],
     m_raidSNtoBlockNames := std_emplace sn m (m_raidSNtoBlockNames s)\<rparr>)"
  by (auto simp: tables_ok_def map_of_std_emplace split: if_splits)

lemma disk_table_Nil [simp]: "disk_table_ok []"
  by (simp add: disk_table_ok_def)

lemma disks_result_add:
  "table_result [] (Inr m) \<Longrightarrow> disks_result (s\<lparr>m_diskSNToBlockNames := m_diskSNToBlockNames s @ [m],
     m_raidSNtoBlockNames := std_emplace sn m (m_raidSNtoBlockNames s)\<rparr>) x \<Longrightarrow> disks_result s x"
  by (auto simp: disks_result_def table_result_def tables_ok_add same_but_disks_add split: sum.splits)

lemma disks_result_simps [simp]: "disks_result s (Inl e)" "disks_result s (Inr s)"
  by (simp_all add: disks_result_def same_but_disks_def)

lemma storcli_ctrls_returns:
  "balance w = b \<Longrightarrow> returns (storcli_ctrls cs s w) (\<lambda>(r, v). balance v = b \<and> disks_result s r)"
proof (induction cs arbitrary: s w)
  case (Cons c cs)
  obtain i vs where c: "c = (i, vs)" by force
  show ?case unfolding c storcli_ctrls.simps
    by (intro storcli_intros storcli_drives_returns[OF refl, THEN returns_mono, unfolded split_paired_all split_conv]
        Cons.IH[THEN returns_mono, unfolded split_paired_all split_conv] ret_intros)
       (use Cons.prems disks_result_add in auto)
qed (simp add: returns_Some)

lemma GetStorcliRaidInfo_returns:
  "balance w = b \<Longrightarrow> returns (GetStorcliRaidInfo s w) (\<lambda>(r, v). balance v = b \<and> disks_result s r)"
  unfolding GetStorcliRaidInfo_def by (intro disk_intros storcli_ctrls_returns ret_intros) auto

lemma GetHiraidadmVdDetailInfo_returns:
  "balance w = b \<Longrightarrow> returns (GetHiraidadmVdDetailInfo JP c d w) (\<lambda>(r, v). balance v = b)"
  unfolding GetHiraidadmVdDetailInfo_def by (intro disk_intros exec_intros ret_intros) auto

lemma hiraidadm_drives_returns: "balance w = b \<Longrightarrow> returns (hiraidadm_drives JP c os m w) (\<lambda>(r, v). balance v = b)"
proof (induction os arbitrary: m w)
  case (Cons a os)
  show ?case unfolding hiraidadm_drives.simps
    by (intro GetHiraidadmVdDetailInfo_returns[OF refl, THEN returns_mono, unfolded split_paired_all split_conv]
        Cons.IH ret_intros) (use Cons.prems in auto)
qed (simp add: returns_Some)

lemma GetHiraidadmVDInfo_returns: "balance w = b \<Longrightarrow> returns (GetHiraidadmVDInfo JP c w) (\<lambda>(r, v). balance v = b)"
  unfolding GetHiraidadmVDInfo_def by (intro disk_intros hiraidadm_drives_returns ret_intros) auto

lemma GetHiraidadmDiskSN_returns: "balance w = b \<Longrightarrow> returns (GetHiraidadmDiskSN JP c as w) (\<lambda>(r, v). balance v = b)"
proof (induction as arbitrary: w)
  case (Cons a as)
  show ?case unfolding GetHiraidadmDiskSN.simps
    by (intro disk_intros Cons.IH[THEN returns_mono, unfolded split_paired_all split_conv] ret_intros) (use Cons.prems in auto)
qed (simp add: returns_Some)

lemma GetHiraidadmCtrlSN_returns: "balance w = b \<Longrightarrow> returns (GetHiraidadmCtrlSN freed JP c w) (\<lambda>(r, v). balance v = b)"
  unfolding GetHiraidadmCtrlSN_def by (intro disk_intros ret_intros) auto

lemma hiraidadm_names_returns:
  "balance w = b \<Longrightarrow> returns (hiraidadm_names JP c vs m w) (\<lambda>(m', v). balance v = b \<and> table_result m (Inr m'))"
proof (induction vs arbitrary: m w)
  case (Cons v vs)
  obtain n as where v: "v = (n, as)" by force
  show ?case unfolding v hiraidadm_names.simps
    by (intro GetHiraidadmDiskSN_returns[OF refl, THEN returns_mono, unfolded split_paired_all split_conv]
        Cons.IH[THEN returns_mono, unfolded split_paired_all split_conv] ret_intros)
       (use Cons.prems table_result_set in auto)
qed (simp add: returns_Some)

lemmas hiraidadm_intros = GetHiraidadmVDInfo_returns[OF refl, THEN returns_mono, unfolded split_paired_all split_conv]
  GetHiraidadmCtrlSN_returns[OF refl, THEN returns_mono, unfolded split_paired_all split_conv]
  hiraidadm_names_returns[OF refl, THEN returns_mono, unfolded split_paired_all split_conv]

lemma hiraidadm_ctrls_returns:
  "balance w = b \<Longrightarrow> returns (hiraidadm_ctrls freed JP os s w) (\<lambda>(r, v). balance v = b \<and> disks_result s r)"
proof (induction os arbitrary: s w)
  case (Cons a os)
  show ?case unfolding hiraidadm_ctrls.simps
    by (intro hiraidadm_intros Cons.IH[THEN returns_mono, unfolded split_paired_all split_conv] ret_intros)
       (use Cons.prems disks_result_add in auto)
qed (simp add: returns_Some)

lemma GetHiraidadmRaidInfo_returns:
  "balance w = b \<Longrightarrow> returns (GetHiraidadmRaidInfo freed JP s w) (\<lambda>(r, v). balance v = b \<and> disks_result s r)"
  unfolding GetHiraidadmRaidInfo_def by (intro disk_intros hiraidadm_ctrls_returns ret_intros) auto

text \<open>A new sentry: not running, nothing open, the table of events set, both switches recorded off.\<close>

definition fresh_sentry :: "CBMCRasSentry \<Rightarrow> bool" where
  "fresh_sentry s \<longleftrightarrow> \<not> m_running s \<and> m_bmcIp s = [] \<and> m_BMCOpenEvents s = [] \<and>
     m_BMCEvents s = event_groups \<and> m_BMCBlockIoChange s = [(0, False), (1, False)] \<and>
     m_patrolSeconds s = BMCPLU_PATROL_DEFAULT"

lemma fresh_InitBMCEvents:
  assumes "same_but_disks (new_sentry junk\<lparr>m_alarmId := a\<rparr>) s" 
  shows "fresh_sentry (InitBMCEvents s)"
  using assms by (cases s) (simp add: same_but_disks_def new_sentry_def fresh_sentry_def InitBMCEvents_def)

lemma lsblk_table_ok: "disk_table_ok (lsblk_lines ls True [])"
  using lsblk_lines_names[of "[]" "tl ls" "[]"] by (cases ls) simp_all

lemma passthrough_result:
  "returns (GetDiskPassthroughInfo s w) (\<lambda>(s', v). balance v = balance w \<and> disks_result s (Inr s'))"
proof -
  have t: "tables_ok s \<Longrightarrow> disk_table_ok m \<Longrightarrow> tables_ok (s\<lparr>m_diskSNToBlockNames := m_diskSNToBlockNames s @ [m]\<rparr>)" for m
    by (auto simp: tables_ok_def)
  show ?thesis unfolding GetDiskPassthroughInfo_def
    by (intro exec_intros ret_intros) (cases s, auto simp: disks_result_def same_but_disks_def t lsblk_table_ok)
qed

lemma disks_chain:
  "disks_result s0 (Inr s1) \<Longrightarrow> disks_result s1 (Inr s2) \<Longrightarrow> disks_result s2 (Inr s3) \<Longrightarrow> disks_result s0 (Inr s3)"
  unfolding disks_result_def sum.case by (blast intro: same_but_disks_trans)

lemma started_sentry:
  assumes "disks_result (new_sentry junk\<lparr>m_alarmId := a\<rparr>) (Inr s)"
  shows "fresh_sentry (InitBMCEvents s) \<and> tables_ok (InitBMCEvents s)"
proof -
  have "tables_ok (new_sentry junk\<lparr>m_alarmId := a\<rparr>)" by (simp add: tables_ok_def new_sentry_def)
  with assms have r: "same_but_disks (new_sentry junk\<lparr>m_alarmId := a\<rparr>) s" "tables_ok s" by (auto simp: disks_result_def)
  from fresh_InitBMCEvents[OF r(1)] r(2) show ?thesis by (simp add: tables_ok_def InitBMCEvents_def)
qed

lemma construct_sentry_returns:
  "balance w = b \<Longrightarrow> returns (construct_sentry freed JP junk w)
     (\<lambda>(r, v). balance v = b \<and> (case r of Inl _ \<Rightarrow> True | Inr s \<Rightarrow> fresh_sentry s \<and> tables_ok s))"
  unfolding construct_sentry_def
  by (intro parseModConfig_returns[OF refl, THEN returns_mono, unfolded split_paired_all split_conv]
      passthrough_result[THEN returns_mono, unfolded split_paired_all split_conv]
      GetStorcliRaidInfo_returns[OF refl, THEN returns_mono, unfolded split_paired_all split_conv]
      GetHiraidadmRaidInfo_returns[OF refl, THEN returns_mono, unfolded split_paired_all split_conv] ret_intros)
     (auto dest: disks_chain started_sentry)

section \<open>What the plugin knows of the disks\<close>


text \<open>The words of the demonstration, and a start at which only lsblk answers.\<close>

definition lsblk_start :: world where
  "lsblk_start = boot [fails 2, ans 5 [], ans 0 ''NAME SERIAL'', ans 0 ''sdb S2'', ans 0 ''sda S1'', ans 0 ''sda1'', ans 0 ''sdc S2'',
     fails 0, ans 0 [], fails 12, fails 12]"


text \<open>The table of the disks without a controller is what lsblk prints: after a successful run of the
  command the plugin has one table more, and a block device belongs to a serial number in it
  exactly when some line below the head names the two as its first two words.\<close>

lemma passthrough_exact:
  assumes "ExecCommand ''lsblk -o NAME,SERIAL'' w = Some (0, head # ls, v)"
  shows "\<exists>m. GetDiskPassthroughInfo s w =
      Some (s\<lparr>m_diskSNToBlockNames := m_diskSNToBlockNames s @ [m]\<rparr>, v) \<and>
    (\<forall>sn. names_of m sn = {name. \<exists>line \<in> set ls. \<exists>rest. SplitBySpace line = name # sn # rest})"
proof -
  have "names_of (lsblk_lines ls False []) sn = {name. \<exists>line \<in> set ls. \<exists>rest. SplitBySpace line = name # sn # rest}" for sn
    using lsblk_lines_names[of "[]" ls sn] by (simp add: names_of_def)
  then show ?thesis using assms by (auto simp: GetDiskPassthroughInfo_def)
qed

lemma passthrough_exact_example:
  "\<exists>m v. GetDiskPassthroughInfo (new_sentry 0)
      (boot [ans 5 [], ans 0 ''NAME SERIAL'', ans 0 ''sdb S2'', ans 0 ''sda S1'', ans 0 ''sdc S2'', fails 0, ans 0 []]) =
      Some ((new_sentry 0)\<lparr>m_diskSNToBlockNames := [m]\<rparr>, v) \<and> names_of m ''S2'' = {''sdb'', ''sdc''}"
proof -
  let ?w = "boot [ans 5 [], ans 0 ''NAME SERIAL'', ans 0 ''sdb S2'', ans 0 ''sda S1'', ans 0 ''sdc S2'', fails 0, ans 0 []]"
  have "map_option (\<lambda>(r, ls, v). (r, ls)) (ExecCommand ''lsblk -o NAME,SERIAL'' ?w) =
    Some (0, [''NAME SERIAL'', ''sdb S2'', ''sda S1'', ''sdc S2''])" by code_simp
  then obtain v where e: "ExecCommand ''lsblk -o NAME,SERIAL'' ?w = Some (0, [''NAME SERIAL'', ''sdb S2'', ''sda S1'', ''sdc S2''], v)"
    by auto
  have w: "SplitBySpace ''sdb S2'' = [''sdb'', ''S2'']" "SplitBySpace ''sda S1'' = [''sda'', ''S1'']"
    "SplitBySpace ''sdc S2'' = [''sdc'', ''S2'']" by code_simp+
  from passthrough_exact[OF e, of "new_sentry 0"] obtain m where
    m: "GetDiskPassthroughInfo (new_sentry 0) ?w = Some ((new_sentry 0)\<lparr>m_diskSNToBlockNames := m_diskSNToBlockNames (new_sentry 0) @ [m]\<rparr>, v)"
    "names_of m ''S2'' = {name. \<exists>line \<in> set [''sdb S2'', ''sda S1'', ''sdc S2'']. \<exists>rest. SplitBySpace line = name # ''S2'' # rest}"
    by auto
  then have "names_of m ''S2'' = {''sdb'', ''sdc''}" by (auto simp: w)
  with m(1) show ?thesis by (auto simp: new_sentry_def)
qed

end
