(* ===== verification/BmcMain.thy ===== *)
theory BmcMain
  imports BmcDisks
begin

text \<open>
  \<open>bmc_ras_sentry\<close>: starting and stopping (cbmcrassentry.cpp) and the threads of \<open>main.cpp\<close>. After
  the start-up the process is three threads and a signal handler over one state: the main thread
  that waits, the worker that queries the BMC and the monitor of the settings file. Each thread is
  a function from the state to its next state, one step from one wait to the next; \<open>pstep\<close> lets
  any of them go next. A query of the worker is one step for every page and every event, since the
  mutex of the open events is held for single look-ups only: the monitor may change the
  subscription between two events. The plugin's own mutex, which the worker holds from the start of
  a query to its wait, keeps \<open>Stop\<close> out until then.
\<close>

section \<open>Start and stop\<close>

definition GetBMCIp :: "CBMCRasSentry \<Rightarrow> world \<Rightarrow> (CBMCRasSentry \<times> world) option" where
  "GetBMCIp s w = do {
     (ret, result, w) \<leftarrow> ExecCommand ''ipmitool lan print'' w;
     if ret \<noteq> BMCPLU_SUCCESS then Some (s, w)
     else
       let is_key = (\<lambda>line. case break_on '':'' line of
             None \<Rightarrow> False | Some (key, value) \<Rightarrow> break_on ''IP Address'' line \<noteq> None \<and> Trim key = ''IP Address'')
       in Some (case filter is_key result of
           [] \<Rightarrow> s
         | line # _ \<Rightarrow> s\<lparr>m_bmcIp := Trim (snd (the (break_on '':'' line)))\<rparr>, w) }"

abbreviation RESULT_LEVEL_PASS :: int where "RESULT_LEVEL_PASS \<equiv> 0"
abbreviation RESULT_LEVEL_FAIL :: int where "RESULT_LEVEL_FAIL \<equiv> 1"

text \<open>\<open>Start\<close>: the worker thread exists when \<open>m_running\<close> is set.\<close>

definition Start :: "(json \<Rightarrow> string) \<Rightarrow> CBMCRasSentry \<Rightarrow> world \<Rightarrow> (CBMCRasSentry \<times> world) option" where
  "Start J s w =
     (if m_running s then Some (s, w)
      else do {
        (s, w) \<leftarrow> GetBMCIp s w;
        if m_bmcIp s = [] then do {
          w \<leftarrow> ReportResult J RESULT_LEVEL_FAIL ''ipmitool get bmc ip failed.'' w;
          Some (s, w) }
        else do {
          (_, w) \<leftarrow> call (Q_thread_create ''SentryWorker'') w;
          Some (s\<lparr>m_running := True\<rparr>, w) } })"

section \<open>The process\<close>

datatype worker_phase = W_none | W_loop | W_enter | W_page u16 | W_events u16 "string list" nat | W_wait | W_done
datatype monitor_phase = Mon_start | Mon_wait | Mon_done
datatype main_phase = M_start | M_wait | M_stop | M_join | M_monitor | M_done | M_terminated cpp_exn

record plugin =
  sentry :: CBMCRasSentry
  config :: PluConfig
  logger_level :: Level
  g_exit :: bool
  pid_fd :: int
  lastModTime :: int
  worker :: worker_phase
  monitor :: monitor_phase
  main :: main_phase
  os :: world

definition HandleSignal :: "plugin \<Rightarrow> plugin" where
  "HandleSignal p = p\<lparr>g_exit := True\<rparr>"

definition handle_file_lock :: "int \<Rightarrow> bool \<Rightarrow> world \<Rightarrow> (int \<times> world) option" where
  "handle_file_lock fd lock w = call (Q_fcntl fd 6 (if lock then 1 else 2)) w"

definition PID_FILE_PATH :: string where "PID_FILE_PATH = ''/var/run/'' @ ''bmc_ras_sentry'' @ ''.pid''"

definition check_and_set_pid_file :: "world \<Rightarrow> (int \<times> world) option" where
  "check_and_set_pid_file w = do {
     (fd, w) \<leftarrow> call (Q_open PID_FILE_PATH (64 OR 2)) w;
     if fd < 0 then Some (- 1, w)
     else do {
       (ret, w) \<leftarrow> handle_file_lock fd True w;
       if ret < 0 then do { (_, w) \<leftarrow> call (Q_close fd) w; Some (ret, w) } else Some (fd, w) } }"

definition release_pid_file :: "int \<Rightarrow> world \<Rightarrow> (int \<times> world) option" where
  "release_pid_file fd w = do {
     (ret, w) \<leftarrow> handle_file_lock fd False w;
     if ret < 0 then do { (_, w) \<leftarrow> call (Q_close fd) w; Some (ret, w) }
     else do {
       (_, w) \<leftarrow> call (Q_close fd) w;
       call (Q_remove PID_FILE_PATH) w } }"

definition BMCPLU_CONFIG_PATH :: string where
  "BMCPLU_CONFIG_PATH = ''/etc/sysSentry/plugins/bmc_ras_sentry.ini''"

text \<open>
  \<open>main\<close> up to the creation of the monitor: \<open>Inl\<close> an exit with its status, or the running process.
  \<open>blank\<close> is the uninitialised \<open>PluConfig\<close>. On the error path the destructor of the sentry runs.
\<close>

datatype start_result = Exited int | Uncaught cpp_exn | Running plugin

definition plugin_start ::
  "(string \<Rightarrow> string) \<Rightarrow> (string \<Rightarrow> json option) \<Rightarrow> int \<Rightarrow> PluConfig \<Rightarrow> world \<Rightarrow> (start_result \<times> world) option" where
  "plugin_start freed JP junk blank w = do {
     (_, w) \<leftarrow> call (Q_signal 15 0) w;
     (_, w) \<leftarrow> call (Q_signal 2 0) w;
     (fd, w) \<leftarrow> check_and_set_pid_file w;
     if fd < 0 then Some (Exited fd, w)
     else do {
       (r, w) \<leftarrow> construct_sentry freed JP junk w;
       case r of
         Inl e \<Rightarrow> Some (Uncaught e, w)
       | Inr s \<Rightarrow> do {
           (ret, cfg, w) \<leftarrow> ParseConfig BMCPLU_CONFIG_PATH blank w;
           if ret \<noteq> BMCPLU_SUCCESS then do {
             (_, w) \<leftarrow> release_pid_file fd w;
             (_, w) \<leftarrow> destroy_sentry s w;
             Some (Exited (- 1), w) }
           else do {
             (s, w) \<leftarrow> SetBMCEvents (BMCEvents cfg) (s\<lparr>m_patrolSeconds := patrolSeconds cfg\<rparr>) w;
             (_, w) \<leftarrow> call (Q_thread_create ''configMonitor'') w;
             Some (Running \<lparr>sentry = s, config = cfg, logger_level = logLevel cfg, g_exit = False, pid_fd = fd,
               lastModTime = 0, worker = W_none, monitor = Mon_start, main = M_start, os = w\<rparr>, w) } } } }"

section \<open>The threads\<close>

text \<open>\<open>SentryWorker\<close>: the end of the thread with its report.\<close>

definition worker_exit :: "(json \<Rightarrow> string) \<Rightarrow> int \<Rightarrow> plugin \<Rightarrow> plugin option" where
  "worker_exit J ret p = do {
     w \<leftarrow> (if ret = BMCPLU_SUCCESS then ReportResult J RESULT_LEVEL_PASS ''receive exit signal, task completed.'' (os p)
           else ReportResult J RESULT_LEVEL_FAIL ''ipmitool query failed.'' (os p));
     Some (p\<lparr>sentry := (sentry p)\<lparr>m_running := False\<rparr>, worker := W_done, os := w\<rparr>) }"

definition query_end :: "(json \<Rightarrow> string) \<Rightarrow> int \<Rightarrow> plugin \<Rightarrow> plugin option" where
  "query_end J ret p = (if ret \<noteq> BMCPLU_SUCCESS then worker_exit J ret p else Some (p\<lparr>worker := W_wait\<rparr>))"

text \<open>
  The worker: \<open>W_loop\<close> before the test of \<open>m_running\<close>, \<open>W_enter\<close> before the lock, \<open>W_page\<close> before the
  request of a page, \<open>W_events\<close> before an event of the page or, after the last one, before the
  next index. These are the steps of \<open>QueryEvents\<close> and \<open>ProcessEvents\<close>.
\<close>

definition page_step :: "(json \<Rightarrow> string) \<Rightarrow> u16 \<Rightarrow> plugin \<Rightarrow> plugin option" where
  "page_step J currentIndex p = do {
     (hexBytes, w) \<leftarrow> ExecuteIPMICommand (BuildIPMICommand currentIndex IPMI_REQUEST_ALL_TYPE IPMI_REQUEST_ALL_TYPE) (os p);
     let p = p\<lparr>os := w\<rparr>;
     let header = ParseResponseHeader hexBytes;
     let n = eventCount header;
     if hexBytes = [] then query_end J BMCPLU_FAILED p
     else if \<not> header_valid header then query_end J BMCPLU_FAILED p
     else if n = 0 then query_end J BMCPLU_SUCCESS p
     else if length hexBytes \<noteq> RESP_HEADER_SIZE + unat n * EVENT_SIZE then query_end J BMCPLU_FAILED p
     else Some (p\<lparr>worker := W_events currentIndex hexBytes 0\<rparr>) }"

definition event_step ::
  "(json \<Rightarrow> string) \<Rightarrow> (u32 \<Rightarrow> tm option) \<Rightarrow> u16 \<Rightarrow> string list \<Rightarrow> nat \<Rightarrow> plugin \<Rightarrow> plugin option" where
  "event_step J lt currentIndex hexBytes i p =
     (let header = ParseResponseHeader hexBytes; n = eventCount header in
      if i < unat n then
        (let event = ParseSingleEvent hexBytes (RESP_HEADER_SIZE + i * EVENT_SIZE); next = W_events currentIndex hexBytes (i + 1) in
         if \<not> event_valid event then Some (p\<lparr>worker := next\<rparr>)
         else do {
           (r, w) \<leftarrow> ReportAlarm J lt (sentry p) event (os p);
           case r of
             Inl e \<Rightarrow> Some (p\<lparr>main := M_terminated e, os := w\<rparr>)
           | Inr _ \<Rightarrow> Some (p\<lparr>worker := next, os := w\<rparr>) })
      else if 65535 - unat currentIndex < unat n then query_end J BMCPLU_FAILED p
      else
        let currentIndex' = currentIndex + ucast n in
        if currentIndex' = totalEvents header then query_end J BMCPLU_SUCCESS p
        else if totalEvents header < currentIndex' then query_end J BMCPLU_FAILED p
        else Some (p\<lparr>worker := W_page currentIndex'\<rparr>))"

definition worker_step :: "(json \<Rightarrow> string) \<Rightarrow> (u32 \<Rightarrow> tm option) \<Rightarrow> plugin \<Rightarrow> plugin option" where
  "worker_step J lt p = (case worker p of
      W_loop \<Rightarrow> (if \<not> m_running (sentry p) then worker_exit J BMCPLU_SUCCESS p else Some (p\<lparr>worker := W_enter\<rparr>))
    | W_enter \<Rightarrow> Some (p\<lparr>worker := W_page 0\<rparr>)
    | W_page currentIndex \<Rightarrow> page_step J currentIndex p
    | W_events currentIndex hexBytes i \<Rightarrow> event_step J lt currentIndex hexBytes i p
    | W_wait \<Rightarrow>
        (if \<not> m_running (sentry p) then worker_exit J BMCPLU_SUCCESS p else Some (p\<lparr>worker := W_loop\<rparr>))
    | _ \<Rightarrow> None)"

text \<open>The worker holds \<open>m_mutex\<close> during a query and releases it while it waits.\<close>

definition holds_mutex :: "worker_phase \<Rightarrow> bool" where
  "holds_mutex k = (case k of W_page _ \<Rightarrow> True | W_events _ _ _ \<Rightarrow> True | _ \<Rightarrow> False)"

text \<open>A new setting takes effect only when it differs.\<close>

definition apply_config :: "PluConfig \<Rightarrow> plugin \<Rightarrow> plugin option" where
  "apply_config newConfig p = do {
     let p = (if logLevel newConfig \<noteq> logLevel (config p)
              then p\<lparr>config := (config p)\<lparr>logLevel := logLevel newConfig\<rparr>, logger_level := logLevel newConfig\<rparr> else p);
     let p = (if patrolSeconds newConfig \<noteq> patrolSeconds (config p)
              then p\<lparr>config := (config p)\<lparr>patrolSeconds := patrolSeconds newConfig\<rparr>,
                     sentry := (sentry p)\<lparr>m_patrolSeconds := patrolSeconds newConfig\<rparr>\<rparr> else p);
     if BMCEvents newConfig \<noteq> BMCEvents (config p) then do {
       (s, w) \<leftarrow> SetBMCEvents (BMCEvents newConfig) (sentry p) (os p);
       Some (p\<lparr>config := (config p)\<lparr>BMCEvents := BMCEvents newConfig\<rparr>, sentry := s, os := w\<rparr>) }
     else Some p }"

text \<open>\<open>stat\<close> answers with the time of the last change.\<close>

definition monitor_round :: "PluConfig \<Rightarrow> plugin \<Rightarrow> plugin option" where
  "monitor_round blank p = (case monitor p of
      Mon_start \<Rightarrow> do {
        (st_mtime, w) \<leftarrow> call (Q_library ''stat'' [BMCPLU_CONFIG_PATH]) (os p);
        Some (p\<lparr>lastModTime := (if 0 \<le> st_mtime then st_mtime else lastModTime p), monitor := Mon_wait, os := w\<rparr>) }
    | Mon_wait \<Rightarrow>
        (if g_exit p then Some (p\<lparr>monitor := Mon_done\<rparr>)
         else do {
           (st_mtime, w) \<leftarrow> call (Q_library ''stat'' [BMCPLU_CONFIG_PATH]) (os p);
           if st_mtime < 0 then Some (p\<lparr>os := w\<rparr>)
           else if st_mtime = lastModTime p then Some (p\<lparr>os := w\<rparr>)
           else do {
             (ret, newConfig, w) \<leftarrow> ParseConfig BMCPLU_CONFIG_PATH blank w;
             let p = p\<lparr>lastModTime := st_mtime, os := w\<rparr>;
             if ret = BMCPLU_SUCCESS then apply_config newConfig p else Some p } })
    | Mon_done \<Rightarrow> None)"

text \<open>The main thread; it blocks in \<open>M_stop\<close> until the mutex is free, and in \<open>M_join\<close> and \<open>M_monitor\<close> until
  the thread it joins is done.\<close>

definition main_step :: "(json \<Rightarrow> string) \<Rightarrow> plugin \<Rightarrow> plugin option" where
  "main_step J p = (case main p of
      M_start \<Rightarrow> do {
        (s, w) \<leftarrow> Start J (sentry p) (os p);
        Some (p\<lparr>sentry := s, worker := (if m_running s then W_loop else W_none), main := M_wait, os := w\<rparr>) }
    | M_wait \<Rightarrow>
        (if g_exit p then Some (p\<lparr>main := M_stop\<rparr>)
         else if \<not> m_running (sentry p) then Some (p\<lparr>g_exit := True, main := M_stop\<rparr>)
         else Some p)
    | M_stop \<Rightarrow>
        (if holds_mutex (worker p) then None
         else Some (p\<lparr>sentry := (sentry p)\<lparr>m_running := False\<rparr>, main := M_join\<rparr>))
    | M_join \<Rightarrow> (if worker p = W_none \<or> worker p = W_done then Some (p\<lparr>main := M_monitor\<rparr>) else None)
    | M_monitor \<Rightarrow>
        (if monitor p = Mon_done then do {
           (_, w) \<leftarrow> release_pid_file (pid_fd p) (os p);
           (s, w) \<leftarrow> destroy_sentry (sentry p) w;
           Some (p\<lparr>sentry := s, main := M_done, os := w\<rparr>) }
         else None)
    | _ \<Rightarrow> None)"

definition ended :: "plugin \<Rightarrow> bool" where
  "ended p \<longleftrightarrow> (case main p of M_done \<Rightarrow> True | M_terminated _ \<Rightarrow> True | _ \<Rightarrow> False)"

inductive pstep :: "(json \<Rightarrow> string) \<Rightarrow> (u32 \<Rightarrow> tm option) \<Rightarrow> plugin \<Rightarrow> plugin \<Rightarrow> bool"
  for J :: "json \<Rightarrow> string" and lt :: "u32 \<Rightarrow> tm option" where
  p_signal: "\<not> ended p \<Longrightarrow> pstep J lt p (HandleSignal p)"
| p_worker: "\<not> ended p \<Longrightarrow> worker_step J lt p = Some q \<Longrightarrow> pstep J lt p q"
| p_monitor: "\<not> ended p \<Longrightarrow> monitor_round blank p = Some q \<Longrightarrow> pstep J lt p q"
| p_main: "\<not> ended p \<Longrightarrow> main_step J p = Some q \<Longrightarrow> pstep J lt p q"

inductive plugin_run :: "(json \<Rightarrow> string) \<Rightarrow> (u32 \<Rightarrow> tm option) \<Rightarrow> plugin \<Rightarrow> plugin \<Rightarrow> bool"
  for J :: "json \<Rightarrow> string" and lt :: "u32 \<Rightarrow> tm option" and p :: plugin where
  run_refl: "plugin_run J lt p p"
| run_step: "plugin_run J lt p q \<Longrightarrow> pstep J lt q r \<Longrightarrow> plugin_run J lt p r"

section \<open>What every interleaving keeps\<close>

text \<open>The sentry works with the settings last accepted.\<close>

definition settings_agree :: "plugin \<Rightarrow> bool" where
  "settings_agree p \<longleftrightarrow> valid_config (config p) \<and> m_patrolSeconds (sentry p) = patrolSeconds (config p) \<and>
     logger_level p = logLevel (config p) \<and> opened (m_BMCOpenEvents (sentry p)) (requested (BMCEvents (config p)))"

definition active :: "worker_phase \<Rightarrow> bool" where
  "active k \<longleftrightarrow> k \<noteq> W_none \<and> k \<noteq> W_done"

definition phases_agree :: "plugin \<Rightarrow> bool" where
  "phases_agree p \<longleftrightarrow>
     (m_running (sentry p) \<longrightarrow> active (worker p)) \<and>
     (main p = M_start \<longrightarrow> worker p = W_none \<and> \<not> m_running (sentry p)) \<and>
     (main p \<in> {M_stop, M_join, M_monitor, M_done} \<longrightarrow> g_exit p) \<and>
     (main p \<in> {M_join, M_monitor, M_done} \<longrightarrow> \<not> m_running (sentry p)) \<and>
     (main p \<in> {M_monitor, M_done} \<longrightarrow> worker p = W_none \<or> worker p = W_done) \<and>
     (main p = M_done \<longrightarrow> monitor p = Mon_done \<and> (\<forall>t. map_of (m_BMCBlockIoChange (sentry p)) t \<noteq> Some True))"

definition plugin_inv :: "(resource \<Rightarrow> int) \<Rightarrow> plugin \<Rightarrow> bool" where
  "plugin_inv b p \<longleftrightarrow> settings_agree p \<and> phases_agree p \<and>
     m_BMCEvents (sentry p) = event_groups \<and> std_ok (m_BMCBlockIoChange (sentry p)) \<and> 0 \<le> pid_fd p \<and>
     balance (os p) = (\<lambda>x. b x + of_bool (main p \<noteq> M_done \<and> x = Fd (pid_fd p)))"

lemmas inv_defs = plugin_inv_def settings_agree_def phases_agree_def active_def

lemma inv_os: "plugin_inv b p \<Longrightarrow> balance w = balance (os p) \<Longrightarrow> plugin_inv b (p\<lparr>os := w\<rparr>)"
  by (simp add: inv_defs)

lemma inv_worker_done:
  "plugin_inv b p \<Longrightarrow> active (worker p) \<Longrightarrow> balance w = balance (os p) \<Longrightarrow>
   plugin_inv b (p\<lparr>sentry := (sentry p)\<lparr>m_running := False\<rparr>, worker := W_done, os := w\<rparr>)"
  by (cases "main p") (simp_all add: inv_defs)

lemma inv_worker_turn:
  "plugin_inv b p \<Longrightarrow> active (worker p) \<Longrightarrow> active k \<Longrightarrow> balance w = balance (os p) \<Longrightarrow> plugin_inv b (p\<lparr>worker := k, os := w\<rparr>)"
  by (cases "main p") (auto simp add: inv_defs)

lemma inv_terminated:
  "plugin_inv b p \<Longrightarrow> \<not> ended p \<Longrightarrow> balance w = balance (os p) \<Longrightarrow> plugin_inv b (p\<lparr>main := M_terminated e, os := w\<rparr>)"
  by (cases "main p"; cases "worker p"; simp add: inv_defs ended_def)

lemma inv_settings:
  assumes "plugin_inv b p" and "\<not> ended p" and "valid_config c" and "balance w = balance (os p)"
    and "opened (m_BMCOpenEvents s) (requested (BMCEvents c))" "m_BMCEvents s = event_groups"
      "std_ok (m_BMCBlockIoChange s)" "m_running s = m_running (sentry p)" "m_patrolSeconds s = patrolSeconds c"
  shows "plugin_inv b (p\<lparr>config := c, logger_level := logLevel c, sentry := s, os := w\<rparr>)"
  using assms by (cases "main p"; cases "worker p"; simp add: inv_defs ended_def)

lemma os_worker: "p\<lparr>os := w, worker := k\<rparr> = p\<lparr>worker := k, os := w\<rparr>"
  by (cases p) simp

lemma worker_exit_inv:
  assumes "plugin_inv b p" and "active (worker p)"
  shows "returns (worker_exit J r p) (plugin_inv b)"
  unfolding worker_exit_def
  by (intro ReportResult_returns[OF refl, THEN returns_mono] returns_bind returns_if returns_Some inv_worker_done[OF assms])

lemma query_end_inv:
  assumes "plugin_inv b p" and "active (worker p)" and "balance w = balance (os p)"
  shows "returns (query_end J r (p\<lparr>os := w\<rparr>)) (plugin_inv b)"
  unfolding query_end_def
  using inv_os[OF assms(1,3)] inv_worker_turn[OF assms(1,2) _ assms(3), of W_wait] assms(2)
  by (intro worker_exit_inv returns_if returns_Some) (simp_all add: active_def os_worker)

lemma page_step_inv:
  assumes "plugin_inv b p" and "active (worker p)"
  shows "returns (page_step J i p) (plugin_inv b)"
proof -
  have t: "plugin_inv b (p\<lparr>os := v, worker := W_events i h k\<rparr>)" if "balance v = balance (os p)" for v h k
    using inv_worker_turn[OF assms _ that, of "W_events i h k"] by (simp add: active_def os_worker)
  show ?thesis unfolding page_step_def
    by (intro ipmi_intros query_end_inv[OF assms] t ret_intros) simp_all
qed

lemma event_step_inv:
  assumes "plugin_inv b p" and "\<not> ended p" and "active (worker p)"
  shows "returns (event_step J lt i h k p) (plugin_inv b)"
proof -
  note q = query_end_inv[OF assms(1,3) refl, simplified]
  have t: "plugin_inv b (p\<lparr>worker := k, os := v\<rparr>)" "plugin_inv b (p\<lparr>worker := k\<rparr>)"
    if "balance v = balance (os p)" "active k" for k v
    using inv_worker_turn[OF assms(1,3) that(2,1)] inv_worker_turn[OF assms(1,3) that(2) refl] by simp_all
  show ?thesis unfolding event_step_def
    by (intro ReportAlarm_returns[OF refl order_refl, THEN returns_mono, unfolded split_paired_all split_conv]
        q t inv_terminated[OF assms(1,2)] ret_intros) (simp_all add: active_def)
qed

lemma worker_step_inv:
  assumes "plugin_inv b p" and "\<not> ended p"
  shows "returns (worker_step J lt p) (plugin_inv b)"
proof (cases "active (worker p)")
  case True
  have t: "plugin_inv b (p\<lparr>worker := k\<rparr>)" if "active k" for k
    using inv_worker_turn[OF assms(1) True that refl] by simp
  show ?thesis using True page_step_inv[OF assms(1) True] event_step_inv[OF assms True] worker_exit_inv[OF assms(1) True] t
    by (cases "worker p") (simp_all add: worker_step_def active_def returns_Some)
next
  case False
  then show ?thesis by (auto simp: worker_step_def active_def returns_None)
qed

text \<open>Setting the events of a valid list makes the subscription agree with it.\<close>

lemma SetBMCEvents_opened:
  assumes "balance w = b" and "std_ok (m_BMCBlockIoChange s)" and "m_BMCEvents s = event_groups"
  shows "returns (SetBMCEvents ids s w) (\<lambda>(s', v). balance v = b \<and> opened (m_BMCOpenEvents s') (requested ids) \<and>
     m_BMCEvents s' = event_groups \<and> std_ok (m_BMCBlockIoChange s') \<and> m_running s' = m_running s \<and>
     m_patrolSeconds s' = m_patrolSeconds s)"
proof -
  let ?s = "set_open_events ids (s\<lparr>m_BMCOpenEvents := []\<rparr>)"
  have "opened [] (\<lambda>e. False)" by (simp add: opened_def)
  then have "opened (m_BMCOpenEvents ?s) (\<lambda>e. False \<or> requested ids e)"
    using assms(3) by (intro set_open_events_ok) simp_all
  then have o: "opened (m_BMCOpenEvents ?s) (requested ids)" by simp
  note f = set_open_events_frame[of ids "s\<lparr>m_BMCOpenEvents := []\<rparr>", simplified]
  have "opened (m_BMCOpenEvents s') (requested ids) \<and> m_BMCEvents s' = event_groups \<and> std_ok (m_BMCBlockIoChange s') \<and>
      m_running s' = m_running s \<and> m_patrolSeconds s' = m_patrolSeconds s" if "same_but_io ?s s'" for s'
    using same_but_io_fields[OF that] f assms(2,3) o by simp
  then show ?thesis
    by (intro returns_mono[OF SetBMCEvents_returns[OF assms(1,2)]]) auto
qed

lemma apply_config_eq:
  assumes "logger_level p = logLevel (config p)" and "m_patrolSeconds (sentry p) = patrolSeconds (config p)"
  shows "apply_config c p =
    (if BMCEvents c \<noteq> BMCEvents (config p) then do {
       (s, w) \<leftarrow> SetBMCEvents (BMCEvents c) ((sentry p)\<lparr>m_patrolSeconds := patrolSeconds c\<rparr>) (os p);
       Some (p\<lparr>config := c, logger_level := logLevel c, sentry := s, os := w\<rparr>) }
     else Some (p\<lparr>config := c, logger_level := logLevel c, sentry := (sentry p)\<lparr>m_patrolSeconds := patrolSeconds c\<rparr>, os := os p\<rparr>))"
proof -
  let ?p = "p\<lparr>config := (config p)\<lparr>logLevel := logLevel c\<rparr>, logger_level := logLevel c\<rparr>"
  have 1: "(if logLevel c \<noteq> logLevel (config p)
      then p\<lparr>config := (config p)\<lparr>logLevel := logLevel c\<rparr>, logger_level := logLevel c\<rparr> else p) = ?p"
    using assms(1) by (cases p, cases "config p") simp
  let ?q = "?p\<lparr>config := (config ?p)\<lparr>patrolSeconds := patrolSeconds c\<rparr>,
     sentry := (sentry ?p)\<lparr>m_patrolSeconds := patrolSeconds c\<rparr>\<rparr>"
  have 2: "(if patrolSeconds c \<noteq> patrolSeconds (config ?p) then ?q else ?p) = ?q"
    using assms(2) by (cases p, cases "config p", cases "sentry p") simp
  show ?thesis unfolding apply_config_def 1 Let_def 2 by (cases p, cases "config p", cases c) simp
qed

lemma apply_config_inv:
  assumes "plugin_inv b p" and "\<not> ended p" and "valid_config c"
  shows "returns (apply_config c p) (plugin_inv b)"
proof -
  have a: "logger_level p = logLevel (config p)" "m_patrolSeconds (sentry p) = patrolSeconds (config p)"
    "m_BMCEvents (sentry p) = event_groups" "std_ok (m_BMCBlockIoChange (sentry p))"
    "opened (m_BMCOpenEvents (sentry p)) (requested (BMCEvents (config p)))"
    using assms(1) by (simp_all add: inv_defs)
  show ?thesis unfolding apply_config_eq[OF a(1,2)]
    by (intro SetBMCEvents_opened[OF refl, THEN returns_mono, unfolded split_paired_all split_conv]
        inv_settings[OF assms] ret_intros) (use a in simp_all)
qed

lemma monitor_round_inv:
  assumes "plugin_inv b p" and "\<not> ended p"
  shows "returns (monitor_round blank p) (plugin_inv b)"
proof -
  have o: "plugin_inv b (p\<lparr>lastModTime := t, os := v\<rparr>) \<and> \<not> ended (p\<lparr>lastModTime := t, os := v\<rparr>)"
    if "balance v = balance (os p)" for t v
    using assms that by (cases "main p") (simp_all add: inv_defs ended_def)
  have m: "plugin_inv b (p\<lparr>lastModTime := t, monitor := Mon_wait, os := v\<rparr>)" if "balance v = balance (os p)" for t v
    using assms that by (cases "main p") (simp_all add: inv_defs ended_def)
  have d: "plugin_inv b (p\<lparr>monitor := Mon_done\<rparr>)"
    using assms by (cases "main p") (simp_all add: inv_defs ended_def)
  have a: "returns (apply_config c (p\<lparr>lastModTime := t, os := v\<rparr>)) (plugin_inv b)"
    if "balance v = balance (os p)" "valid_config c" for t v c
    using o[OF that(1), of t] that(2) by (intro apply_config_inv) auto
  show ?thesis
  proof (cases "monitor p")
    case Mon_start
    show ?thesis unfolding monitor_round_def Mon_start monitor_phase.case
      by (intro m ret_intros) (simp add: fun_eq_iff)
  next
    case Mon_wait
    show ?thesis unfolding monitor_round_def Mon_wait monitor_phase.case
      by (intro d a ParseConfig_returns[OF refl, THEN returns_mono, unfolded split_paired_all split_conv]
          inv_os[OF assms(1)] o[THEN conjunct1] ret_intros) (auto simp: fun_eq_iff)
  qed (simp add: monitor_round_def returns_None)
qed

lemma GetBMCIp_returns:
  "balance w = b \<Longrightarrow> returns (GetBMCIp s w) (\<lambda>(s', v). balance v = b \<and> s' = s\<lparr>m_bmcIp := m_bmcIp s'\<rparr>)"
  unfolding GetBMCIp_def by (intro exec_intros ret_intros) (auto simp: Let_def split: list.splits)

lemma Start_returns:
  "balance w = b \<Longrightarrow> returns (Start J s w)
     (\<lambda>(s', v). balance v = b \<and> s' = s\<lparr>m_bmcIp := m_bmcIp s', m_running := m_running s'\<rparr>)"
  unfolding Start_def
  by (intro GetBMCIp_returns[OF refl, THEN returns_mono, unfolded split_paired_all split_conv]
      ReportResult_returns[OF refl, THEN returns_mono] ret_intros) (cases s, auto simp: fun_eq_iff)

lemma release_pid_file_returns:
  "balance w = b \<Longrightarrow> returns (release_pid_file fd w) (\<lambda>(r, v). balance v = (\<lambda>x. b x - of_bool (x = Fd fd)))"
  unfolding release_pid_file_def handle_file_lock_def by (intro ret_intros) (auto simp: fun_eq_iff req_delta_def)

lemma main_step_inv:
  assumes "plugin_inv b p" and "\<not> ended p"
  shows "returns (main_step J p) (plugin_inv b)"
proof (cases "main p")
  case M_start
  have f: "plugin_inv b (p\<lparr>sentry := s', worker := (if m_running s' then W_loop else W_none), main := M_wait, os := v\<rparr>)"
    if "balance v = balance (os p)" "s' = (sentry p)\<lparr>m_bmcIp := m_bmcIp s', m_running := m_running s'\<rparr>" for s' v
  proof -
    have "m_BMCOpenEvents s' = m_BMCOpenEvents (sentry p)" "m_BMCEvents s' = m_BMCEvents (sentry p)"
      "m_BMCBlockIoChange s' = m_BMCBlockIoChange (sentry p)" "m_patrolSeconds s' = m_patrolSeconds (sentry p)"
      by (subst that(2), simp)+
    then show ?thesis using assms(1) M_start that(1) by (simp add: inv_defs)
  qed
  show ?thesis unfolding main_step_def M_start main_phase.case
    by (intro Start_returns[OF refl, THEN returns_mono, unfolded split_paired_all split_conv] returns_bind returns_prod returns_Some)
       (use f in auto)
next
  case M_monitor
  have f: "plugin_inv b (p\<lparr>sentry := s', main := M_done, os := v\<rparr>)"
    if "balance v = (\<lambda>x. balance (os p) x - of_bool (x = Fd (pid_fd p)))" "same_but_io (sentry p) s'"
      "\<forall>t. map_of (m_BMCBlockIoChange s') t \<noteq> Some True" "monitor p = Mon_done" for s' v
    using assms(1) M_monitor that(1,3,4) same_but_io_fields[OF that(2)] by (simp add: inv_defs)
  have i: "std_ok (m_BMCBlockIoChange (sentry p))" using assms(1) by (simp add: inv_defs)
  show ?thesis unfolding main_step_def M_monitor main_phase.case
    by (intro release_pid_file_returns[OF refl, THEN returns_mono, unfolded split_paired_all split_conv]
        destroy_sentry_returns[OF refl i, THEN returns_mono, unfolded split_paired_all split_conv]
        returns_bind returns_prod returns_if returns_Some returns_None) (use f in auto)
qed (use assms in \<open>auto simp: main_step_def inv_defs ended_def intro!: returns_Some returns_None\<close>)

lemma pstep_inv: "pstep J lt p q \<Longrightarrow> plugin_inv b p \<Longrightarrow> plugin_inv b q"
proof (induction rule: pstep.induct)
  case (p_signal p)
  then show ?case by (cases "main p") (simp_all add: HandleSignal_def inv_defs ended_def)
qed (blast dest: returnsD worker_step_inv monitor_round_inv main_step_inv)+

lemma plugin_run_inv: "plugin_run J lt p q \<Longrightarrow> plugin_inv b p \<Longrightarrow> plugin_inv b q"
  by (induction rule: plugin_run.induct) (simp_all add: pstep_inv)

lemma check_and_set_returns:
  "balance w = b \<Longrightarrow> returns (check_and_set_pid_file w)
     (\<lambda>(r, v). balance v = (\<lambda>x. b x + of_bool (0 \<le> r \<and> x = Fd r)))"
  unfolding check_and_set_pid_file_def handle_file_lock_def
  by (intro ret_intros) (auto simp: fun_eq_iff req_delta_def)

text \<open>The start-up: everything is released on an exit, and a running process satisfies the invariant.\<close>

lemma plugin_start_returns:
  "balance w = b \<Longrightarrow> returns (plugin_start freed JP junk blank w)
     (\<lambda>(r, v). case r of Exited _ \<Rightarrow> balance v = b | Uncaught _ \<Rightarrow> True
        | Running p \<Rightarrow> plugin_inv b p \<and> os p = v \<and> main p = M_start)"
  unfolding plugin_start_def
  by (intro check_and_set_returns[OF refl, THEN returns_mono, unfolded split_paired_all split_conv]
      construct_sentry_returns[OF refl, THEN returns_mono, unfolded split_paired_all split_conv]
      ParseConfig_returns[OF refl, THEN returns_mono, unfolded split_paired_all split_conv]
      release_pid_file_returns[OF refl, THEN returns_mono, unfolded split_paired_all split_conv]
      destroy_sentry_returns[OF refl, THEN returns_mono, unfolded split_paired_all split_conv]
      SetBMCEvents_opened[OF refl, THEN returns_mono, unfolded split_paired_all split_conv] ret_intros)
    (simp_all add: fun_eq_iff inv_defs fresh_sentry_def)



text \<open>A concrete run: no BMC address, so the main thread stops the plugin at once.\<close>

fun schedule :: "bool list \<Rightarrow> plugin \<Rightarrow> plugin option" where
  "schedule [] p = Some p"
| "schedule (m # ms) p = (if ended p then None else do {
     q \<leftarrow> (if m then main_step (\<lambda>_. []) p else monitor_round (config p) p);
     schedule ms q })"

lemma schedule_run: "schedule ms q = Some r \<Longrightarrow> plugin_run (\<lambda>_. []) lt p q \<Longrightarrow> plugin_run (\<lambda>_. []) lt p r"
proof (induction ms arbitrary: q)
  case (Cons m ms)
  then obtain u where u: "\<not> ended q" "schedule ms u = Some r"
    "(if m then main_step (\<lambda>_. []) q else monitor_round (config q) q) = Some u"
    by (auto simp: bind_eq_Some_conv split: if_splits)
  then have "pstep (\<lambda>_. []) lt q u" by (auto intro: p_main p_monitor split: if_splits)
  with Cons u show ?case by (blast intro: run_step)
qed simp

definition demo_settings :: PluConfig where
  "demo_settings = \<lparr>logLevel = Warning, patrolSeconds = 90, BMCEvents = [''0201'']\<rparr>"

definition demo_start :: world where
  "demo_start = boot ([ans 0 [], ans 0 [], ans 3 [], ans 0 [], fails 2, fails 2, fails 2, fails 2] @
     config_script demo_settings @ [ans 0 []] @ [fails 2, fails 12, fails 12, ans 7 [], ans 0 [], ans 0 [], ans 0 []])"

definition demo_plugin :: "bool list \<Rightarrow> plugin option" where
  "demo_plugin ms = (case plugin_start (\<lambda>t. t) (\<lambda>_. None) 0 demo_settings demo_start of
     Some (Running p, v) \<Rightarrow> schedule ms p | _ \<Rightarrow> None)"

lemma demo_plugin_runs:
  assumes "demo_plugin ms = Some q"
  shows "\<exists>p v. plugin_start (\<lambda>t. t) (\<lambda>_. None) 0 demo_settings demo_start = Some (Running p, v) \<and>
    plugin_run (\<lambda>_. []) (\<lambda>_. None) p q"
  using assms unfolding demo_plugin_def
  by (auto split: option.splits start_result.splits intro: schedule_run[OF _ run_refl])



section \<open>The steps of a query\<close>

definition worker_next :: "(json \<Rightarrow> string) \<Rightarrow> (u32 \<Rightarrow> tm option) \<Rightarrow> plugin \<Rightarrow> plugin \<Rightarrow> bool" where
  "worker_next J lt p q \<longleftrightarrow> \<not> ended p \<and> worker_step J lt p = Some q"

lemma query_end_worker: "query_end J ret (p\<lparr>worker := k\<rparr>) = query_end J ret p"
  by (cases p) (simp add: query_end_def worker_exit_def)

lemma ended_update [simp]: "ended (p\<lparr>worker := k\<rparr>) = ended p" "ended (p\<lparr>os := w\<rparr>) = ended p"
  by (simp_all add: ended_def)

text \<open>The events of a page, one step each.\<close>

lemma events_by_steps:
  assumes "\<not> ended p" and n: "n = unat (eventCount (ParseResponseHeader h))"
  shows "i \<le> n \<Longrightarrow> process_loop_events J lt (sentry p) h [i..<n] v = Some (r, u) \<Longrightarrow>
    (case r of
       Inl e \<Rightarrow> \<exists>q. (worker_next J lt)\<^sup>*\<^sup>* (p\<lparr>worker := W_events c h i, os := v\<rparr>) q \<and> main q = M_terminated e \<and> os q = u
     | Inr _ \<Rightarrow> (worker_next J lt)\<^sup>*\<^sup>* (p\<lparr>worker := W_events c h i, os := v\<rparr>) (p\<lparr>worker := W_events c h n, os := u\<rparr>))"
proof (induction "n - i" arbitrary: i v)
  case 0
  then show ?case by auto
next
  case (Suc m)
  let ?p = "\<lambda>i v. p\<lparr>worker := W_events c h i, os := v\<rparr>" and ?e = "ParseSingleEvent h (RESP_HEADER_SIZE + i * EVENT_SIZE)"
  have i: "i < n" and l: "[i..<n] = i # [Suc i..<n]" and m: "m = n - Suc i" using Suc.hyps(2) by (simp_all add: upt_rec)
  have s: "worker_step J lt (?p i v) = (if \<not> event_valid ?e then Some (?p (i + 1) v)
      else do {
        (r, w) \<leftarrow> ReportAlarm J lt (sentry p) ?e v;
        case r of Inl e \<Rightarrow> Some ((?p i w)\<lparr>main := M_terminated e\<rparr>) | Inr _ \<Rightarrow> Some (?p (i + 1) w) })"
    using i n by (cases p) (simp add: worker_step_def event_step_def Let_def cong: sum.case_cong)
  note ih = Suc.hyps(1)[OF m]
  have g: "worker_next J lt (?p i v) (?p (Suc i) x) \<Longrightarrow> process_loop_events J lt (sentry p) h [Suc i..<n] x = Some (r, u) \<Longrightarrow> ?case" for x
    using ih[of x] i by (cases r) (auto intro: converse_rtranclp_into_rtranclp)
  show ?case
  proof (cases "event_valid ?e")
    case False
    then have "worker_next J lt (?p i v) (?p (Suc i) v)" using s assms(1) by (simp add: worker_next_def)
    with g False Suc.prems(2) show ?thesis by (simp add: l Let_def)
  next
    case True
    then obtain x w where a: "ReportAlarm J lt (sentry p) ?e v = Some (x, w)"
      using Suc.prems(2) by (auto simp: l Let_def bind_eq_Some_conv)
    show ?thesis
    proof (cases x)
      case (Inl e)
      then have r: "r = Inl e" "u = w" using Suc.prems(2) True a by (auto simp: l Let_def)
      have "worker_next J lt (?p i v) ((?p i w)\<lparr>main := M_terminated e\<rparr>)" using s assms(1) True a Inl by (simp add: worker_next_def)
      then show ?thesis by (auto simp: r intro!: exI[of _ "(?p i w)\<lparr>main := M_terminated e\<rparr>"])
    next
      case (Inr y)
      then have "worker_next J lt (?p i v) (?p (Suc i) w)" using s assms(1) True a by (simp add: worker_next_def)
      with g Suc.prems(2) True a Inr show ?thesis by (simp add: l Let_def)
    qed
  qed
qed

lemma query_loop_by_steps:
  assumes "\<not> ended p"
  shows "query_loop J lt (sentry p) c w = Some (r, z) \<Longrightarrow>
    (case r of
       Inl e \<Rightarrow> \<exists>q. (worker_next J lt)\<^sup>*\<^sup>* (p\<lparr>worker := W_page c, os := w\<rparr>) q \<and> main q = M_terminated e \<and> os q = z
     | Inr ret \<Rightarrow> \<exists>q. (worker_next J lt)\<^sup>*\<^sup>* (p\<lparr>worker := W_page c, os := w\<rparr>) q \<and> worker_step J lt q = query_end J ret (p\<lparr>os := z\<rparr>))"
proof (induction "length (script w)" arbitrary: c w rule: less_induct)
  case less
  let ?p = "\<lambda>k v. p\<lparr>worker := k, os := v\<rparr>"
  have e: "query_end J ret (?p k v) = query_end J ret (p\<lparr>os := v\<rparr>)" for ret k v
    using query_end_worker[where p = "p\<lparr>os := v\<rparr>"] by (simp add: os_worker)
  obtain h v where x: "ExecuteIPMICommand (BuildIPMICommand c IPMI_REQUEST_ALL_TYPE IPMI_REQUEST_ALL_TYPE) w = Some (h, v)"
    using less.prems by (subst (asm) query_loop.simps) (auto simp: bind_eq_Some_conv)
  have sv: "length (script v) < length (script w)" using returnsD[OF ExecuteIPMICommand_returns[OF refl order_refl] x] by simp
  let ?n = "eventCount (ParseResponseHeader h)" and ?t = "totalEvents (ParseResponseHeader h)"
  note q = less.prems[unfolded query_loop.simps[of J lt _ c w] x, simplified, unfolded Let_def]
  have ws: "worker_step J lt (?p (W_page c) w) =
    (if h = [] then query_end J BMCPLU_FAILED (?p (W_page c) v)
     else if \<not> header_valid (ParseResponseHeader h) then query_end J BMCPLU_FAILED (?p (W_page c) v)
     else if ?n = 0 then query_end J BMCPLU_SUCCESS (?p (W_page c) v)
     else if length h \<noteq> RESP_HEADER_SIZE + unat ?n * EVENT_SIZE then query_end J BMCPLU_FAILED (?p (W_page c) v)
     else Some (?p (W_events c h 0) v))"
    by (cases p) (simp add: worker_step_def page_step_def x Let_def)
  show ?case
  proof (cases "h = [] \<or> \<not> header_valid (ParseResponseHeader h) \<or> ?n = 0 \<or> length h \<noteq> RESP_HEADER_SIZE + unat ?n * EVENT_SIZE")
    case True
    have "\<exists>ret. r = Inr ret \<and> worker_step J lt (?p (W_page c) w) = query_end J ret (p\<lparr>os := z\<rparr>)"
      using q True ws by (auto simp: e split: if_splits)
    then show ?thesis by auto
  next
    case False
    obtain y u where y: "process_loop_events J lt (sentry p) h [0..<unat ?n] v = Some (y, u)"
      using q False by (auto simp: ProcessEvents_def bind_eq_Some_conv)
    have su: "length (script u) \<le> length (script v)"
      using returnsD[OF process_loop_events_returns[OF refl order_refl] y] by simp
    note ev = events_by_steps[OF assms refl _ y, of c, simplified]
    have st: "worker_next J lt (?p (W_page c) w) (?p (W_events c h 0) v)" using False ws assms by (simp add: worker_next_def)
    show ?thesis
    proof (cases y)
      case (Inl a)
      then have "r = Inl a" "z = u" using q False y by (auto simp: ProcessEvents_def)
      with ev Inl st show ?thesis by (auto intro: converse_rtranclp_into_rtranclp)
    next
      case (Inr a)
      let ?l = "?p (W_events c h (unat ?n)) u" and ?c = "c + ucast ?n"
      have run: "(worker_next J lt)\<^sup>*\<^sup>* (?p (W_page c) w) ?l" using ev Inr st by (auto intro: converse_rtranclp_into_rtranclp)
      have wl: "worker_step J lt ?l =
        (if 65535 - unat c < unat ?n then query_end J BMCPLU_FAILED ?l
         else if ?c = ?t then query_end J BMCPLU_SUCCESS ?l
         else if ?t < ?c then query_end J BMCPLU_FAILED ?l else Some (?p (W_page ?c) u))"
        by (cases p) (simp add: worker_step_def event_step_def Let_def)
      show ?thesis
      proof (cases "65535 - unat c < unat ?n \<or> ?c = ?t \<or> ?t < ?c")
        case True
        have "\<exists>ret. r = Inr ret \<and> worker_step J lt ?l = query_end J ret (p\<lparr>os := z\<rparr>)"
          using q False y Inr True wl by (auto simp: e ProcessEvents_def split: if_splits)
        with run show ?thesis by auto
      next
        case stay: False
        then have "query_loop J lt (sentry p) ?c u = Some (r, z)" using q False y Inr by (simp add: ProcessEvents_def)
        from less.hyps[OF _ this] sv su have ih: "case r of
            Inl e \<Rightarrow> \<exists>q. (worker_next J lt)\<^sup>*\<^sup>* (?p (W_page ?c) u) q \<and> main q = M_terminated e \<and> os q = z
          | Inr ret \<Rightarrow> \<exists>q. (worker_next J lt)\<^sup>*\<^sup>* (?p (W_page ?c) u) q \<and> worker_step J lt q = query_end J ret (p\<lparr>os := z\<rparr>)" by simp
        have "worker_next J lt ?l (?p (W_page ?c) u)" using stay wl assms by (simp add: worker_next_def)
        with run have "(worker_next J lt)\<^sup>*\<^sup>* (?p (W_page c) w) (?p (W_page ?c) u)" by (rule rtranclp.rtrancl_into_rtrancl)
        with ih show ?thesis by (cases r) (auto dest: rtranclp_trans)
      qed
    qed
  qed
qed


definition querying :: "worker_phase \<Rightarrow> answer list \<Rightarrow> plugin" where
  "querying k answers = \<lparr>sentry = demo_sentry\<lparr>m_running := True, m_BMCOpenEvents := [(0x02000039, ''0107'')]\<rparr>, config = demo_settings,
     logger_level = Warning, g_exit = False, pid_fd = 3, lastModTime = 0, worker = k, monitor = Mon_wait, main = M_wait,
     os = boot answers\<rparr>"


section \<open>A garbled serial number\<close>



end
