(* ===== verification/BmcStop.thy ===== *)
theory BmcStop
  imports BmcMain
begin

text \<open>
  \<open>bmc_ras_sentry\<close>: the shutdown. Once a signal or the end of the worker has set \<open>g_exit\<close>, the main
  thread waits for the mutex, then for the worker, then for the monitor. \<open>stop_step\<close> is the step of
  the thread the others wait for; a rank shows that these steps come to an end.
\<close>

section \<open>The thread the others wait for\<close>

definition stop_step :: "(json \<Rightarrow> string) \<Rightarrow> (u32 \<Rightarrow> tm option) \<Rightarrow> PluConfig \<Rightarrow> plugin \<Rightarrow> plugin option" where
  "stop_step J lt blank p = (case main p of
      M_stop \<Rightarrow> (if holds_mutex (worker p) then worker_step J lt p else main_step J p)
    | M_join \<Rightarrow> (if worker p = W_none \<or> worker p = W_done then main_step J p else worker_step J lt p)
    | M_monitor \<Rightarrow> (if monitor p = Mon_done then main_step J p else monitor_round blank p)
    | _ \<Rightarrow> main_step J p)"

definition stop_next :: "(json \<Rightarrow> string) \<Rightarrow> (u32 \<Rightarrow> tm option) \<Rightarrow> PluConfig \<Rightarrow> plugin \<Rightarrow> plugin \<Rightarrow> bool" where
  "stop_next J lt blank p q \<longleftrightarrow> \<not> ended p \<and> stop_step J lt blank p = Some q"

text \<open>The phases in which that thread asks the operating system or another program for something.\<close>

definition in_call :: "plugin \<Rightarrow> bool" where
  "in_call p \<longleftrightarrow> (case main p of
      M_start \<Rightarrow> True
    | M_stop \<Rightarrow> holds_mutex (worker p)
    | M_join \<Rightarrow> active (worker p)
    | M_monitor \<Rightarrow> monitor p = Mon_start \<or> monitor p = Mon_done
    | _ \<Rightarrow> False)"

lemma stop_step_psteps: "stop_next J lt blank p q \<Longrightarrow> pstep J lt p q"
  by (auto simp: stop_next_def stop_step_def intro: p_worker p_monitor p_main split: main_phase.splits if_splits)

section \<open>The rank of a shutdown\<close>

text \<open>A page in progress has events, and the next one is among them or the page is finished.\<close>

definition query_ok :: "worker_phase \<Rightarrow> bool" where
  "query_ok k \<longleftrightarrow> (case k of
      W_events c h i \<Rightarrow> eventCount (ParseResponseHeader h) \<noteq> 0 \<and> i \<le> unat (eventCount (ParseResponseHeader h))
    | _ \<Rightarrow> True)"

definition worker_rank :: "worker_phase \<Rightarrow> nat" where
  "worker_rank k = (case k of
      W_none \<Rightarrow> 0
    | W_done \<Rightarrow> 0
    | W_wait \<Rightarrow> 1
    | W_loop \<Rightarrow> 1
    | W_enter \<Rightarrow> 65537 * 300
    | W_page c \<Rightarrow> (65536 - unat c) * 300 + 2
    | W_events c h i \<Rightarrow> (65536 - unat c) * 300 + 1 - i)"

definition monitor_rank :: "monitor_phase \<Rightarrow> nat" where
  "monitor_rank k = (case k of Mon_start \<Rightarrow> 2 | Mon_wait \<Rightarrow> 1 | Mon_done \<Rightarrow> 0)"

definition main_rank :: "main_phase \<Rightarrow> nat" where
  "main_rank k = (case k of M_start \<Rightarrow> 5 | M_wait \<Rightarrow> 4 | M_stop \<Rightarrow> 3 | M_join \<Rightarrow> 2 | M_monitor \<Rightarrow> 1 | _ \<Rightarrow> 0)"

definition stop_rank :: "plugin \<Rightarrow> nat" where
  "stop_rank p = (if ended p then 0
     else main_rank (main p) * 20000000 + worker_rank (worker p) + monitor_rank (monitor p))"

lemmas rank_defs = stop_rank_def worker_rank_def monitor_rank_def main_rank_def ended_def

lemma worker_rank_le: "worker_rank k \<le> 19900000"
proof -
  have "(65536 - unat c) * 300 \<le> 65536 * 300" for c :: u16 by simp
  then show ?thesis by (cases k) (auto simp: worker_rank_def intro: le_trans)
qed

lemma monitor_rank_le: "monitor_rank k \<le> 2"
  by (cases k) (simp_all add: monitor_rank_def)

lemma stop_rank_le: "stop_rank p \<le> 120000000"
  using worker_rank_le[of "worker p"] monitor_rank_le[of "monitor p"]
  by (cases "main p") (simp_all add: stop_rank_def main_rank_def)

lemma u16_bound: "unat (c :: u16) < 65536"
  using unsigned_less[of c] by simp

lemma u8_bound: "unat (c :: u8) < 256"
  using unsigned_less[of c] by simp

text \<open>A step of the worker that does not begin another query brings its end closer.\<close>

lemma query_end_frame:
  "query_end J r p = Some q \<Longrightarrow>
     (worker q = W_wait \<or> worker q = W_done) \<and> main q = main p \<and> monitor q = monitor p \<and> g_exit q = g_exit p"
  by (auto simp: query_end_def worker_exit_def bind_eq_Some_conv split: if_splits)

lemma page_step_next:
  assumes "page_step J c p = Some q"
  shows "main q = main p \<and> monitor q = monitor p \<and> g_exit q = g_exit p \<and> query_ok (worker q) \<and>
    (worker q = W_wait \<or> worker q = W_done \<or> (\<exists>h. worker q = W_events c h 0))"
  using assms unfolding page_step_def
  by (auto simp: bind_eq_Some_conv Let_def query_ok_def dest!: query_end_frame split: if_splits)

lemma event_step_next:
  assumes "event_step J lt c h i p = Some q" and "query_ok (W_events c h i)"
  shows "g_exit q = g_exit p \<and> monitor q = monitor p \<and>
    ((\<exists>e. main q = M_terminated e) \<and> worker q = worker p \<or>
     main q = main p \<and> query_ok (worker q) \<and>
      (worker q = W_wait \<or> worker q = W_done \<or> i < unat (eventCount (ParseResponseHeader h)) \<and> worker q = W_events c h (i + 1) \<or>
       (\<exists>d. worker q = W_page d \<and> unat c < unat d)))"
proof (cases "i < unat (eventCount (ParseResponseHeader h))")
  let ?e = "ParseSingleEvent h (RESP_HEADER_SIZE + i * EVENT_SIZE)"
  case True
  show ?thesis
  proof (cases "event_valid ?e")
    case valid: True
    then obtain r w where r: "ReportAlarm J lt (sentry p) ?e (os p) = Some (r, w)"
      using assms(1) True by (auto simp: event_step_def bind_eq_Some_conv Let_def)
    show ?thesis using assms True valid r by (cases r) (auto simp: event_step_def Let_def query_ok_def)
  qed (use assms True in \<open>auto simp: event_step_def Let_def query_ok_def\<close>)
next
  let ?n = "eventCount (ParseResponseHeader h)"
  case False
  have "unat c < unat (c + ucast ?n)" if "unat ?n \<le> 65535 - unat c"
  proof -
    have "0 < unat ?n" using assms(2) by (simp add: query_ok_def unat_gt_0)
    then show ?thesis using that u16_bound[of c] by (simp add: unat_word_ariths unat_ucast_8_16)
  qed
  with False show ?thesis using assms unfolding event_step_def
    by (auto simp: Let_def query_ok_def not_less dest!: query_end_frame split: if_splits)
qed

lemma worker_step_next:
  assumes "worker_step J lt p = Some q" and "query_ok (worker p)"
  shows "g_exit q = g_exit p \<and> monitor q = monitor p \<and> query_ok (worker q) \<and>
    ((\<exists>e. main q = M_terminated e) \<or> main q = main p \<and>
      (\<not> m_running (sentry p) \<or> holds_mutex (worker p) \<longrightarrow> worker_rank (worker q) < worker_rank (worker p)))"
proof (cases "worker p")
  case (W_page c)
  have "1 \<le> 65536 - unat c" using u16_bound[of c] by simp
  with page_step_next[of J c p q] assms W_page show ?thesis
    by (auto simp: worker_step_def worker_rank_def holds_mutex_def)
next
  case (W_events c h i)
  have "1 \<le> 65536 - unat c" using u16_bound[of c] by simp
  moreover have "i < 256" using assms(2) W_events u8_bound[of "eventCount (ParseResponseHeader h)"] by (simp add: query_ok_def)
  ultimately show ?thesis using event_step_next[of J lt c h i p q] assms W_events
    by (auto simp: worker_step_def worker_rank_def holds_mutex_def)
qed (use assms in \<open>auto simp: worker_step_def worker_exit_def worker_rank_def holds_mutex_def query_ok_def bind_eq_Some_conv split: if_splits\<close>)

text \<open>The other steps leave the worker where it is, or start it.\<close>

lemma apply_config_worker: "apply_config c p = Some q \<Longrightarrow> worker q = worker p"
  by (auto simp: apply_config_def Let_def bind_eq_Some_conv split: if_splits)

lemma monitor_round_next:
  assumes "monitor_round blank p = Some q"
  shows "worker q = worker p"
  using assms unfolding monitor_round_def
  by (cases "monitor p") (auto simp: Let_def bind_eq_Some_conv dest!: apply_config_worker split: if_splits)

lemma main_step_next:
  assumes "main_step J p = Some q"
  shows "worker q \<in> {worker p, W_loop, W_none}"
  using assms unfolding main_step_def
  by (cases "main p") (auto simp: bind_eq_Some_conv split: if_splits)

lemma pstep_query_ok: "pstep J lt p q \<Longrightarrow> query_ok (worker p) \<Longrightarrow> query_ok (worker q)"
proof (induction rule: pstep.induct)
  case (p_main p q)
  then show ?case using main_step_next[of J p q] by (auto simp: query_ok_def)
qed (auto simp: HandleSignal_def dest: worker_step_next monitor_round_next)

lemma plugin_run_query_ok: "plugin_run J lt p q \<Longrightarrow> query_ok (worker p) \<Longrightarrow> query_ok (worker q)"
  by (induction rule: plugin_run.induct) (auto intro: pstep_query_ok)

text \<open>One step of the thread the others wait for lowers the rank.\<close>

lemma stop_main_rank:
  assumes "main_step J p = Some q" and "g_exit p" and "\<not> ended p" and "main p = M_stop \<Longrightarrow> \<not> holds_mutex (worker p)"
  shows "g_exit q \<and> stop_rank q < stop_rank p"
proof -
  note b = worker_rank_le[of "worker q"] monitor_rank_le[of "monitor q"]
  show ?thesis using assms b unfolding main_step_def
    by (cases "main p") (auto simp: stop_rank_def main_rank_def ended_def bind_eq_Some_conv split: if_splits)
qed

lemma stop_worker_rank:
  assumes "worker_step J lt p = Some q" and "query_ok (worker p)" and "\<not> ended p"
    and "\<not> m_running (sentry p) \<or> holds_mutex (worker p)"
  shows "g_exit q = g_exit p \<and> stop_rank q < stop_rank p"
proof -
  have "0 < main_rank (main p)" using assms(3) by (cases "main p") (simp_all add: main_rank_def ended_def)
  moreover have "ended q = ended p" if "main q = main p" using that by (simp add: ended_def)
  moreover have "ended q" if "main q = M_terminated e" for e using that by (simp add: ended_def)
  ultimately show ?thesis using worker_step_next[OF assms(1,2)] assms(3,4) by (auto simp: stop_rank_def)
qed

lemma stop_monitor_rank:
  assumes "monitor_round blank p = Some q" and "g_exit p" and "\<not> ended p"
  shows "g_exit q \<and> stop_rank q < stop_rank p"
  using assms unfolding monitor_round_def
  by (cases "monitor p") (auto simp: stop_rank_def monitor_rank_def ended_def bind_eq_Some_conv)

lemma stop_next_rank:
  assumes "stop_next J lt blank p q" and "plugin_inv b p" and "g_exit p" and "query_ok (worker p)"
  shows "g_exit q \<and> stop_rank q < stop_rank p"
proof -
  have s: "stop_step J lt blank p = Some q" "\<not> ended p" using assms(1) by (simp_all add: stop_next_def)
  have run: "main p = M_join \<Longrightarrow> \<not> m_running (sentry p)" using assms(2) by (simp add: inv_defs)
  show ?thesis
    using s stop_main_rank[OF _ assms(3) s(2)] stop_worker_rank[OF _ assms(4) s(2)] stop_monitor_rank[OF _ assms(3) s(2)] run assms(3)
    by (cases "main p") (auto simp: stop_step_def split: if_splits)
qed

text \<open>When that thread has no step, the process has ended or the thread is in a call.\<close>

lemma stop_step_blocked:
  assumes "stop_step J lt blank p = None" and "\<not> ended p" and "plugin_inv b p" and "g_exit p"
  shows "in_call p"
  using assms
  by (cases "main p"; cases "monitor p")
    (auto simp: stop_step_def in_call_def main_step_def monitor_round_def ended_def active_def split: if_splits)



end
