(* ===== verification/BmcLogger.thy ===== *)
theory BmcLogger
  imports BmcCommon
begin

text \<open>
  \<open>bmc_ras_sentry/src/logger.cpp\<close>: the log file of the plugin, which is followed when it is rotated
  or deleted, the filter by level and the removal of the arguments of ipmitool from a line. The
  other theories leave log calls out; here they are the subject. An output stream is its handle
  and whether it is good; the library writes a line as one request that succeeds or fails. The
  texts of errno are the argument \<open>SE\<close>, the time stamp of a line is the argument \<open>now\<close>.
\<close>

fun level_rank :: "Level \<Rightarrow> nat" where
  "level_rank Debug = 0"
| "level_rank Info = 1"
| "level_rank Warning = 2"
| "level_rank Error = 3"
| "level_rank Critical = 4"

instantiation Level :: linorder
begin

definition less_eq_Level :: "Level \<Rightarrow> Level \<Rightarrow> bool" where
  "less_eq_Level a b \<longleftrightarrow> level_rank a \<le> level_rank b"

definition less_Level :: "Level \<Rightarrow> Level \<Rightarrow> bool" where
  "less_Level a b \<longleftrightarrow> level_rank a < level_rank b"

instance
proof
  fix x y :: Level
  show "x \<le> y \<Longrightarrow> y \<le> x \<Longrightarrow> x = y" by (cases x; cases y; simp add: less_eq_Level_def)
qed (auto simp: less_eq_Level_def less_Level_def)

end

record Logger =
  m_logFile :: "int option"
  m_good :: bool
  m_logPath :: string
  m_level :: Level
  m_checkTime :: int
  m_inode :: nat
  m_device :: nat
  m_fileSize :: int
  m_fileOpen :: bool

definition new_Logger :: Logger where
  "new_Logger = \<lparr>m_logFile = None, m_good = True, m_logPath = [], m_level = Info, m_checkTime = 0,
     m_inode = 0, m_device = 0, m_fileSize = 0, m_fileOpen = False\<rparr>"

abbreviation BMCPLU_LOGFILE_CHECK_CYCLE :: int where "BMCPLU_LOGFILE_CHECK_CYCLE \<equiv> 30"

text \<open>The fields of \<open>struct stat\<close> (LP64): device, inode and size.\<close>

definition st_dev :: "string \<Rightarrow> nat" where "st_dev st = le_nat (take 8 st)"
definition st_ino :: "string \<Rightarrow> nat" where "st_ino st = le_nat (take 8 (drop 8 st))"
definition st_size :: "string \<Rightarrow> int" where "st_size st = le_i64 (take 8 (drop 48 st))"

definition SetLevel :: "Level \<Rightarrow> Logger \<Rightarrow> Logger" where
  "SetLevel level L = L\<lparr>m_level := level\<rparr>"

definition GetLevel :: "Logger \<Rightarrow> Level" where
  "GetLevel L = m_level L"

section \<open>The log file\<close>

text \<open>Opening a stream that is open fails and leaves it open; a successful opening clears its state.\<close>

definition stream_open :: "Logger \<Rightarrow> world \<Rightarrow> (Logger \<times> world) option" where
  "stream_open L w = (case m_logFile L of
      Some _ \<Rightarrow> Some (L\<lparr>m_good := False\<rparr>, w)
    | None \<Rightarrow> do {
        (r, w) \<leftarrow> call (Q_fopen (cstr (m_logPath L)) ''a'') w;
        Some (if r < 0 then L\<lparr>m_good := False\<rparr> else L\<lparr>m_logFile := Some r, m_good := True\<rparr>, w) })"

definition OpenLogFile :: "(int \<Rightarrow> string) \<Rightarrow> Logger \<Rightarrow> world \<Rightarrow> (Logger \<times> world) option" where
  "OpenLogFile SE L w = do {
     (L, w) \<leftarrow> stream_open L w;
     if m_logFile L = None then do {
       (_, w) \<leftarrow> call (Q_library ''std::cerr''
         [''Failed to open log file: '' @ m_logPath L @ '', error: '' @ SE (errno w) @ ''\<newline>'']) w;
       Some (L\<lparr>m_fileOpen := False\<rparr>, w) }
     else do {
       (r, st, w) \<leftarrow> fetch (Q_library ''stat'' [cstr (m_logPath L)]) w;
       let L = (if r = 0 then L\<lparr>m_inode := st_ino st, m_device := st_dev st, m_fileSize := st_size st\<rparr> else L);
       (t, w) \<leftarrow> call Q_gettime w;
       Some (L\<lparr>m_checkTime := t, m_fileOpen := True\<rparr>, w) } }"

definition Initialize :: "(int \<Rightarrow> string) \<Rightarrow> string \<Rightarrow> Level \<Rightarrow> Logger \<Rightarrow> world \<Rightarrow> (bool \<times> Logger \<times> world) option" where
  "Initialize SE logPath level L w = do {
     (L, w) \<leftarrow> OpenLogFile SE (L\<lparr>m_logPath := logPath, m_level := level\<rparr>) w;
     Some (m_fileOpen L, L, w) }"

definition ReopenLogFile :: "(int \<Rightarrow> string) \<Rightarrow> Logger \<Rightarrow> world \<Rightarrow> (Logger \<times> world) option" where
  "ReopenLogFile SE L w = (case m_logFile L of
      None \<Rightarrow> OpenLogFile SE L w
    | Some h \<Rightarrow> do {
        (_, w) \<leftarrow> call (Q_fclose h) w;
        OpenLogFile SE (L\<lparr>m_logFile := None\<rparr>) w })"

definition CheckFileState :: "(int \<Rightarrow> string) \<Rightarrow> Logger \<Rightarrow> world \<Rightarrow> (Logger \<times> world) option" where
  "CheckFileState SE L w = do {
     (timeNow, w) \<leftarrow> call Q_gettime w;
     if timeNow - m_checkTime L < BMCPLU_LOGFILE_CHECK_CYCLE then Some (L, w)
     else do {
       (r, st, w) \<leftarrow> fetch (Q_library ''stat'' [cstr (m_logPath L)]) w;
       if r \<noteq> 0 then do {
         (L, w) \<leftarrow> (if errno w = ENOENT then ReopenLogFile SE L w else Some (L, w));
         (_, w) \<leftarrow> call (Q_library ''std::cerr''
           [''Failed to get file state: '' @ m_logPath L @ '', error: '' @ SE (errno w) @ ''\<newline>'']) w;
         Some (L, w) }
       else do {
         (L, w) \<leftarrow> (if st_ino st \<noteq> m_inode L \<or> st_dev st \<noteq> m_device L \<or> st_size st < m_fileSize L
                   then ReopenLogFile SE L w else Some (L\<lparr>m_fileSize := st_size st\<rparr>, w));
         Some (L\<lparr>m_checkTime := timeNow\<rparr>, w) } } }"

section \<open>A line\<close>

text \<open>Only the first mention of ipmitool is looked at: what follows it goes, up to a comma.\<close>

definition AnonymizeMessage :: "string \<Rightarrow> string" where
  "AnonymizeMessage message = (case break_on ''ipmitool'' message of
      None \<Rightarrow> message
    | Some (before, after) \<Rightarrow> before @ ''ipmitool'' @ dropWhile (\<lambda>c. c \<noteq> CHR '','') after)"

definition LevelToString :: "Level \<Rightarrow> string" where
  "LevelToString level = (case level of
      Debug \<Rightarrow> ''DEBUG'' | Info \<Rightarrow> ''INFO'' | Warning \<Rightarrow> ''WARNING'' | Error \<Rightarrow> ''ERROR'' | Critical \<Rightarrow> ''CRITICAL'')"

text \<open>The broken-down time and the milliseconds.\<close>

definition GetTimeStamp :: "tm \<times> nat \<Rightarrow> string" where
  "GetTimeStamp now = (case now of ((year, mon, mday, hour, minute, sec), ms) \<Rightarrow>
     dec_int (1900 + year) @ ''-'' @ pad0 2 (dec_nat (mon + 1)) @ ''-'' @ pad0 2 (dec_nat mday) @ '' '' @
     pad0 2 (dec_nat hour) @ '':'' @ pad0 2 (dec_nat minute) @ '':'' @ pad0 2 (dec_nat sec) @
     ''.'' @ pad0 3 (dec_nat ms))"

definition Format :: "tm \<times> nat \<Rightarrow> Level \<Rightarrow> string \<Rightarrow> int \<Rightarrow> string \<Rightarrow> string" where
  "Format now level file line message =
     GetTimeStamp now @ '' - '' @ LevelToString level @ '' - ['' @ ExtractFileName file @ '':'' @ dec_int line @
     '']'' @ '' - '' @ message"

text \<open>A line goes to the file when that is open and good, else to the standard error stream.\<close>

definition log_sink :: "Logger \<Rightarrow> int option" where
  "log_sink L = (if m_fileOpen L \<and> m_good L then m_logFile L else None)"

definition WriteLog ::
  "(int \<Rightarrow> string) \<Rightarrow> tm \<times> nat \<Rightarrow> Level \<Rightarrow> string \<Rightarrow> int \<Rightarrow> string \<Rightarrow> Logger \<Rightarrow> world \<Rightarrow> (Logger \<times> world) option" where
  "WriteLog SE now level file line message L w =
     (if level < GetLevel L \<or> message = [] then Some (L, w)
      else do {
        let anoMessage = AnonymizeMessage message;
        (L, w) \<leftarrow> CheckFileState SE L w;
        case log_sink L of
          Some h \<Rightarrow> do {
            (r, w) \<leftarrow> call (Q_library ''std::ofstream'' [dec_int h, Format now level file line anoMessage @ ''\<newline>'']) w;
            Some (if r < 0 then L\<lparr>m_good := False\<rparr> else L, w) }
        | None \<Rightarrow> do {
            (_, w) \<leftarrow> call (Q_library ''std::cerr'' [Format now level file line anoMessage @ ''\<newline>'']) w;
            Some (L, w) } })"

text \<open>\<open>LogStream\<close>: the pieces shifted into it are one message, written by its destructor.\<close>

definition LogStream ::
  "(int \<Rightarrow> string) \<Rightarrow> tm \<times> nat \<Rightarrow> Level \<Rightarrow> string \<Rightarrow> int \<Rightarrow> string list \<Rightarrow> Logger \<Rightarrow> world \<Rightarrow> (Logger \<times> world) option" where
  "LogStream SE now level file line pieces = WriteLog SE now level file line (concat pieces)"

section \<open>What a log call does\<close>

text \<open>The logger holds its log file and nothing else.\<close>

definition logger_ok :: "(resource \<Rightarrow> int) \<Rightarrow> Logger \<Rightarrow> world \<Rightarrow> bool" where
  "logger_ok b L w \<longleftrightarrow> (m_fileOpen L \<longleftrightarrow> m_logFile L \<noteq> None) \<and>
     balance w = (\<lambda>x. b x + of_bool (\<exists>h. m_logFile L = Some h \<and> x = File h))"

definition extends :: "world \<Rightarrow> world \<Rightarrow> bool" where
  "extends w v \<longleftrightarrow> (\<exists>tr. trace v = trace w @ tr)"

lemma extends_refl [simp]: "extends w w"
  by (simp add: extends_def)

lemma call_trace: "call q w = Some (r, v) \<Longrightarrow> \<exists>a. trace v = trace w @ [(q, a)]"
  by (auto simp: call_Some dest: sys_trace)

lemma call_extends: "call q w = Some (r, v) \<Longrightarrow> extends u w \<Longrightarrow> extends u v"
  by (auto simp: extends_def dest!: call_trace)

lemma fetch_extends: "fetch q w = Some (r, d, v) \<Longrightarrow> extends u w \<Longrightarrow> extends u v"
  by (auto simp: fetch_Some extends_def dest!: sys_trace)

lemmas log_defs = logger_ok_def fun_eq_iff req_delta_def

lemma OpenLogFile_returns:
  assumes "m_logFile L = None" and "balance w = b" and "extends u w"
  shows "returns (OpenLogFile SE L w) (\<lambda>(L', v). logger_ok b L' v \<and> extends u v \<and> m_level L' = m_level L)"
  using assms unfolding OpenLogFile_def stream_open_def
  by (intro ret_intros) (simp_all add: log_defs call_extends fetch_extends split: if_splits)

lemmas open_intros = OpenLogFile_returns[THEN returns_mono, unfolded split_paired_all split_conv]

lemma Initialize_returns:
  "m_logFile L = None \<Longrightarrow> balance w = b \<Longrightarrow> returns (Initialize SE p l L w) (\<lambda>(r, L', v). logger_ok b L' v \<and> m_level L' = l)"
  unfolding Initialize_def by (intro open_intros[of _ _ b w] ret_intros) auto

lemma ReopenLogFile_returns:
  assumes "logger_ok b L w" and "extends u w"
  shows "returns (ReopenLogFile SE L w) (\<lambda>(L', v). logger_ok b L' v \<and> extends u v \<and> m_level L' = m_level L)"
proof (cases "m_logFile L")
  case None
  with assms(1) have "balance w = b" by (simp add: logger_ok_def)
  with None assms(2) show ?thesis by (simp add: ReopenLogFile_def OpenLogFile_returns)
next
  case (Some h)
  have "balance v = b" if "\<forall>x. balance v x = balance w x + req_delta (Q_fclose h) r x" for v r
    using assms(1) Some that by (simp add: log_defs)
  with Some assms(2) show ?thesis unfolding ReopenLogFile_def
    by (simp, intro returns_bind returns_call) (auto intro!: open_intros[of _ _ b u] elim: call_extends)
qed

lemmas reopen_intros = ReopenLogFile_returns[THEN returns_mono, unfolded split_paired_all split_conv]

lemma logger_ok_balance: "logger_ok b L w \<Longrightarrow> \<forall>x. balance v x = balance w x \<Longrightarrow> logger_ok b L v"
  by (simp add: log_defs)

lemma CheckFileState_returns:
  assumes "logger_ok b L w" and "extends u w"
  shows "returns (CheckFileState SE L w) (\<lambda>(L', v). logger_ok b L' v \<and> extends u v \<and> m_level L' = m_level L)"
proof -
  have f: "logger_ok b (L'\<lparr>m_fileSize := n\<rparr>) v = logger_ok b L' v" "logger_ok b (L'\<lparr>m_checkTime := t\<rparr>) v = logger_ok b L' v"
    for L' n t v by (simp_all add: logger_ok_def)
  show ?thesis using assms unfolding CheckFileState_def
    by (intro reopen_intros[of b _ _ u] ret_intros)
       (auto simp: f elim!: call_extends fetch_extends logger_ok_balance)
qed


text \<open>The line of a message, and the requests that output it.\<close>

definition outputs_line :: "Logger \<Rightarrow> string \<Rightarrow> sysreq \<Rightarrow> bool" where
  "outputs_line L text q \<longleftrightarrow> q = Q_library ''std::cerr'' [text @ ''\<newline>''] \<or>
     (\<exists>h. m_logFile L = Some h \<and> q = Q_library ''std::ofstream'' [dec_int h, text @ ''\<newline>''])"

lemma outputs_lineI [simp]:
  "outputs_line L t (Q_library ''std::cerr'' [t @ ''\<newline>''])"
  "m_logFile L = Some h \<Longrightarrow> outputs_line L t (Q_library ''std::ofstream'' [dec_int h, t @ ''\<newline>''])"
  by (auto simp: outputs_line_def)

lemma line_output:
  assumes "call q w = Some (r, v)" and "extends u w" and "outputs_line L t q"
  shows "\<exists>tr q. (\<exists>a. trace v = trace u @ tr @ [(q, a)]) \<and> outputs_line L t q"
  using assms call_trace[OF assms(1)] by (auto simp: extends_def)

lemma WriteLog_returns:
  assumes "logger_ok b L w" and "\<not> level < m_level L" and "message \<noteq> []"
  shows "returns (WriteLog SE now level file line message L w) (\<lambda>(L', v). logger_ok b L' v \<and> m_level L' = m_level L \<and>
    (\<exists>tr q a. trace v = trace w @ tr @ [(q, a)] \<and>
       outputs_line L' (Format now level file line (AnonymizeMessage message)) q))"
proof -
  have f: "logger_ok b (L'\<lparr>m_good := g\<rparr>) v = logger_ok b L' v" "m_logFile (L'\<lparr>m_good := g\<rparr>) = m_logFile L'" for L' g v
    by (simp_all add: logger_ok_def)
  have s: "log_sink L' = Some h \<Longrightarrow> m_logFile L' = Some h" for L' h by (simp add: log_sink_def split: if_splits)
  have d: "\<not> (level < GetLevel L \<or> message = [])" using assms by (simp add: GetLevel_def)
  show ?thesis unfolding WriteLog_def if_not_P[OF d]
    by (intro CheckFileState_returns[OF assms(1) extends_refl, THEN returns_mono, unfolded split_paired_all split_conv] ret_intros)
       (auto simp: f s intro: line_output elim: logger_ok_balance)
qed

text \<open>C21: A message is logged when its level is at or above the current one and it is not empty; then its line,
  with the arguments of ipmitool removed, is the last thing the call outputs, to the log file the
  logger holds afterwards or to the standard error stream. Following a rotated or deleted file never
  loses a handle: the logger holds its log file and nothing else.\<close>

theorem log_line_written:
  assumes "logger_ok b L w" and "WriteLog SE now level file line message L w = Some (L', v)"
  shows "logger_ok b L' v \<and> m_level L' = m_level L \<and>
    (if level < m_level L \<or> message = [] then v = w
     else \<exists>tr q a. trace v = trace w @ tr @ [(q, a)] \<and>
       outputs_line L' (Format now level file line (AnonymizeMessage message)) q)"
proof (cases "level < m_level L \<or> message = []")
  case True
  with assms show ?thesis by (auto simp: WriteLog_def GetLevel_def)
next
  case False
  then have "\<not> level < m_level L" "message \<noteq> []" by simp_all
  from returnsD[OF WriteLog_returns[OF assms(1) this] assms(2)] False show ?thesis by simp
qed

section \<open>Arguments of ipmitool\<close>

lemma ipmitool_first:
  assumes "break_on ''ipmitool'' pre = None"
  shows "break_on ''ipmitool'' (pre @ ''ipmitool'' @ post) = Some (pre, post)"
  using assms
proof (induction pre)
  case (Cons c pre)
  have n: "\<not> starts_with ''ipmitool'' (c # pre)" using Cons.prems by (auto split: if_splits)
  have "\<not> starts_with ''ipmitool'' ((c # pre) @ ''ipmitool'' @ post)"
  proof
    assume s: "starts_with ''ipmitool'' ((c # pre) @ ''ipmitool'' @ post)"
    have l: "length (c # pre) = 1 \<or> length (c # pre) = 2 \<or> length (c # pre) = 3 \<or> length (c # pre) = 4 \<or>
      length (c # pre) = 5 \<or> length (c # pre) = 6 \<or> length (c # pre) = 7 \<or> 8 \<le> length (c # pre)"
    proof -
      have "0 < length (c # pre)" by simp
      then show ?thesis by arith
    qed
    from s obtain r where r: "(c # pre) @ ''ipmitool'' @ post = ''ipmitool'' @ r" unfolding starts_with_iff by blast
    show False
    proof (cases "8 \<le> length (c # pre)")
      case True
      have "take 8 ((c # pre) @ ''ipmitool'' @ post) = ''ipmitool''" unfolding r by simp
      with True have "take 8 (c # pre) = ''ipmitool''" by simp
      then have "c # pre = ''ipmitool'' @ drop 8 (c # pre)" by (metis append_take_drop_id)
      with n show False unfolding starts_with_iff by blast
    next
      case False
      define k where "k = length (c # pre)"
      have "((c # pre) @ ''ipmitool'' @ post) ! k = CHR ''i''" by (simp add: k_def)
      then have "(''ipmitool'' @ r) ! k = CHR ''i''" unfolding r .
      moreover have "((c # pre) @ ''ipmitool'' @ post) ! (k + 1) = CHR ''p''" by (simp add: k_def nth_append)
      then have "(''ipmitool'' @ r) ! (k + 1) = CHR ''p''" unfolding r .
      moreover from l False have "k = 1 \<or> k = 2 \<or> k = 3 \<or> k = 4 \<or> k = 5 \<or> k = 6 \<or> k = 7" by (auto simp: k_def)
      ultimately show False by auto
    qed
  qed
  moreover have "break_on ''ipmitool'' pre = None" using Cons.prems n by (simp split: option.splits prod.splits if_splits)
  note Cons.IH[OF this]
  ultimately show ?case by (simp del: starts_with.simps)
qed simp

lemma AnonymizeMessage_args:
  assumes "break_on ''ipmitool'' pre = None" and "CHR '','' \<notin> set args" and "post = [] \<or> hd post = CHR '',''"
  shows "AnonymizeMessage (pre @ ''ipmitool'' @ args @ post) = pre @ ''ipmitool'' @ post"
proof -
  have "dropWhile (\<lambda>c. c \<noteq> CHR '','') (args @ post) = post"
    using assms(2,3) by (induction args) (cases post, auto)
  then show ?thesis by (simp only: AnonymizeMessage_def ipmitool_first[OF assms(1)] option.case prod.case)
qed

text \<open>C20: The arguments of ipmitool never reach the log: two messages that differ only in what stands between
  the first ipmitool and the next comma (or the end) make the logger do exactly the same, whatever
  the state of its file and the answers of the system.\<close>

theorem ipmi_arguments_hidden:
  assumes "break_on ''ipmitool'' pre = None" and "CHR '','' \<notin> set args" and "CHR '','' \<notin> set args'"
    and "post = [] \<or> hd post = CHR '',''"
  shows "WriteLog SE now level file line (pre @ ''ipmitool'' @ args @ post) L w =
    WriteLog SE now level file line (pre @ ''ipmitool'' @ args' @ post) L w"
  unfolding WriteLog_def AnonymizeMessage_args[OF assms(1,2,4)] AnonymizeMessage_args[OF assms(1,3,4)] by simp

theorem ipmi_arguments_hidden_witness:
  "WriteLog (\<lambda>_. []) ((100, 0, 1, 0, 0, 0), 0) Error ''a.cpp'' 7 ''Cmd: ipmitool raw 0x30, popen failed.'' new_Logger (boot []) =
   WriteLog (\<lambda>_. []) ((100, 0, 1, 0, 0, 0), 0) Error ''a.cpp'' 7 ''Cmd: ipmitool lan print, popen failed.'' new_Logger (boot [])"
  using ipmi_arguments_hidden[of "''Cmd: ''" "'' raw 0x30''" "'' lan print''" "'', popen failed.''"
    "\<lambda>_. []" "((100, 0, 1, 0, 0, 0), 0)" Error "''a.cpp''" 7 new_Logger "boot []"] by simp

text \<open>A logger that was opened at time 1000 and writes a line 40 seconds later, after the file was deleted.\<close>

definition demo_log :: "(Logger \<times> world) option" where
  "demo_log = do {
     (r, L, w) \<leftarrow> Initialize (\<lambda>_. []) ''l'' Info new_Logger
       (boot [ans 3 [], fails 2, ans 1000 [], ans 1040 [], fails 2, ans 0 [], ans 4 [], fails 2, ans 1040 [], ans 0 [], ans 0 []]);
     WriteLog (\<lambda>_. []) ((100, 0, 1, 0, 0, 0), 0) Error ''a.cpp'' 7 ''hi'' L w }"

theorem log_line_written_witness:
  "case demo_log of Some (L, v) \<Rightarrow>
     m_logFile L = Some 4 \<and> balance v = (\<lambda>x. of_bool (x = File 4)) | None \<Rightarrow> False"
proof -
  have "map_option (m_logFile \<circ> fst) demo_log = Some (Some 4)" by code_simp
  then obtain L v where r: "demo_log = Some (L, v)" "m_logFile L = Some 4" by auto
  then obtain k M w where m: "Initialize (\<lambda>_. []) ''l'' Info new_Logger
       (boot [ans 3 [], fails 2, ans 1000 [], ans 1040 [], fails 2, ans 0 [], ans 4 [], fails 2, ans 1040 [], ans 0 [], ans 0 []]) =
       Some (k, M, w)" "WriteLog (\<lambda>_. []) ((100, 0, 1, 0, 0, 0), 0) Error ''a.cpp'' 7 ''hi'' M w = Some (L, v)"
    unfolding demo_log_def by (auto simp: bind_eq_Some_conv)
  have "logger_ok (\<lambda>_. 0) M w" using returnsD[OF Initialize_returns[OF _ refl] m(1)] by (simp add: new_Logger_def)
  from log_line_written[OF this m(2)] r(2) show ?thesis unfolding r(1) by (simp add: logger_ok_def)
qed

end
